(* ===== verification/Prelude.thy ===== *)
theory Prelude
  imports "HOL-Library.Word" "HOL-Library.Char_ord" "HOL-Library.List_Lexorder" "HOL-Library.Multiset"
begin

text \<open>
  Shared vocabulary of the development: the engine's error type
  (\<^verbatim>\<open>error.rs\<close>), fallible computations as values of a sum type, the
  monadic combinators the components are written with, and generic lemmas on
  lists and options.  A Rust \<^verbatim>\<open>char\<close> is modelled by HOL's \<^typ>\<open>char\<close>, that is
  by the scalar values U+0000 to U+00FF, and a Rust \<^verbatim>\<open>String\<close> by a list of them;
  the message text carried by an error is not modelled.
\<close>

named_theorems result_simps "equations of the error monad"

section \<open>Errors and fallible computations\<close>

datatype BoltError =
    Cuda
  | CudaWithCode int
  | Sql
  | SqlWithSpan nat nat
  | PlanErr
  | TypeErr
  | MemoryErr
  | IoErr
  | GpuCapacity
  | Unsupported
  | OtherErr

fun span :: "BoltError \<Rightarrow> (nat \<times> nat) option" where
  "span (SqlWithSpan s e) = Some (s, e)"
| "span _ = None"

type_synonym 'a BoltResult = "BoltError + 'a"

abbreviation Ok :: "'a \<Rightarrow> 'e + 'a" where "Ok \<equiv> Inr"
abbreviation Err :: "'e \<Rightarrow> 'e + 'a" where "Err \<equiv> Inl"

definition bindR :: "'e + 'a \<Rightarrow> ('a \<Rightarrow> 'e + 'b) \<Rightarrow> 'e + 'b" where
  "bindR m f = (case m of Inl e \<Rightarrow> Inl e | Inr x \<Rightarrow> f x)"

definition guardR :: "bool \<Rightarrow> 'e \<Rightarrow> 'e + unit" where
  "guardR b e = (if b then Inr () else Inl e)"

fun mapR :: "('a \<Rightarrow> 'e + 'b) \<Rightarrow> 'a list \<Rightarrow> 'e + 'b list" where
  "mapR f [] = Inr []"
| "mapR f (x # xs) = bindR (f x) (\<lambda>y. bindR (mapR f xs) (\<lambda>ys. Inr (y # ys)))"

fun foldR :: "('s \<Rightarrow> 'a \<Rightarrow> 'e + 's) \<Rightarrow> 's \<Rightarrow> 'a list \<Rightarrow> 'e + 's" where
  "foldR f s [] = Inr s"
| "foldR f s (x # xs) = bindR (f s x) (\<lambda>s'. foldR f s' xs)"

definition optR :: "('a \<Rightarrow> 'e + 'b) \<Rightarrow> 'a option \<Rightarrow> 'e + 'b option" where
  "optR f x = (case x of None \<Rightarrow> Inr None | Some a \<Rightarrow> bindR (f a) (\<lambda>b. Inr (Some b)))"

definition okOrR :: "'a option \<Rightarrow> 'e \<Rightarrow> 'e + 'a" where
  "okOrR x e = (case x of None \<Rightarrow> Inl e | Some a \<Rightarrow> Inr a)"

lemma bindR_simps [simp, result_simps]:
  "bindR (Inl e) f = Inl e" "bindR (Inr x) f = f x"
  by (simp_all add: bindR_def)

lemma bindR_Ok_iff [simp]:
  "bindR m f = Inr y \<longleftrightarrow> (\<exists>x. m = Inr x \<and> f x = Inr y)"
  by (cases m) auto

lemma guardR_simps [simp, result_simps]:
  "guardR b e = Inr u \<longleftrightarrow> b" "guardR True e = Inr ()" "guardR False e = Inl e"
  by (auto simp: guardR_def)

lemma okOrR_simps [simp, result_simps]:
  "okOrR x e = Inr a \<longleftrightarrow> x = Some a" "okOrR None e = Inl e" "okOrR (Some a) e = Inr a"
  by (auto simp: okOrR_def split: option.splits)

lemma optR_simps [simp, result_simps]:
  "optR f None = Inr None" "optR f (Some a) = bindR (f a) (\<lambda>b. Inr (Some b))"
  by (simp_all add: optR_def)

lemma bindR_cong [fundef_cong]:
  assumes "m = m'" "\<And>x. m' = Inr x \<Longrightarrow> f x = g x"
  shows "bindR m f = bindR m' g"
  using assms by (cases m') auto

lemma mapR_cong [fundef_cong]:
  assumes "xs = ys" "\<And>x. x \<in> set ys \<Longrightarrow> f x = g x"
  shows "mapR f xs = mapR g ys"
  unfolding assms(1) using assms(2) by (induction ys) auto

lemma foldR_cong [fundef_cong]:
  assumes "s = s'" "xs = ys" "\<And>a x. x \<in> set ys \<Longrightarrow> f a x = g a x"
  shows "foldR f s xs = foldR g s' ys"
  unfolding assms(1,2) using assms(3)
  by (induction ys arbitrary: s') (auto intro!: bindR_cong)

lemma optR_cong [fundef_cong]:
  assumes "x = y" "\<And>a. y = Some a \<Longrightarrow> f a = g a"
  shows "optR f x = optR g y"
  unfolding assms(1) using assms(2) by (cases y) auto

lemma mapR_Ok_iff: "mapR f xs = Inr ys \<longleftrightarrow> list_all2 (\<lambda>x y. f x = Inr y) xs ys"
  by (induction xs arbitrary: ys) (auto simp: list_all2_Cons1)

lemma mapR_length: "mapR f xs = Inr ys \<Longrightarrow> length ys = length xs"
  by (simp add: mapR_Ok_iff list_all2_lengthD)

lemma mapR_append:
  "mapR f (xs @ ys) = bindR (mapR f xs) (\<lambda>us. bindR (mapR f ys) (\<lambda>vs. Inr (us @ vs)))"
  by (induction xs) (auto simp: bindR_def split: sum.splits)

lemma optR_Ok_iff:
  "optR f x = Inr y \<longleftrightarrow> (case x of None \<Rightarrow> y = None | Some a \<Rightarrow> (\<exists>b. f a = Inr b \<and> y = Some b))"
  by (auto split: option.splits)

section \<open>Lists\<close>

text \<open>Rust's \<^verbatim>\<open>Iterator::position\<close>.\<close>

fun position :: "('a \<Rightarrow> bool) \<Rightarrow> 'a list \<Rightarrow> nat option" where
  "position P [] = None"
| "position P (x # xs) = (if P x then Some 0 else map_option Suc (position P xs))"

lemma position_Some_iff:
  "position P xs = Some i \<longleftrightarrow> i < length xs \<and> P (xs ! i) \<and> (\<forall>j<i. \<not> P (xs ! j))"
proof (induction xs arbitrary: i)
  case (Cons x xs)
  then show ?case
    by (cases i) (auto simp: less_Suc_eq_0_disj)
qed simp

lemma position_None_iff: "position P xs = None \<longleftrightarrow> (\<forall>x \<in> set xs. \<not> P x)"
  by (induction xs) auto

text \<open>Rust's \<^verbatim>\<open>Iterator::enumerate\<close>.\<close>

definition enum :: "'a list \<Rightarrow> (nat \<times> 'a) list" where
  "enum xs = zip [0..<length xs] xs"

lemma length_enum [simp]: "length (enum xs) = length xs"
  by (simp add: enum_def)

lemma nth_enum [simp]: "i < length xs \<Longrightarrow> enum xs ! i = (i, xs ! i)"
  by (simp add: enum_def)

text \<open>Decimal rendering of a machine integer, as \<^verbatim>\<open>format!\<close> prints it.\<close>

fun digits :: "nat \<Rightarrow> string" where
  "digits n = (if n < 10 then [char_of (48 + n)] else digits (n div 10) @ [char_of (48 + n mod 10)])"

declare digits.simps [simp del]

lemma char_of_digit_inj [simp]:
  assumes "a < 10" "b < 10"
  shows "(char_of (48 + a) :: char) = char_of (48 + b) \<longleftrightarrow> a = (b :: nat)"
proof
  assume "(char_of (48 + a) :: char) = char_of (48 + b)"
  then have "of_char (char_of (48 + a) :: char) = (of_char (char_of (48 + b) :: char) :: nat)"
    by simp
  then show "a = b" using assms by (simp only: of_char_of) simp
qed simp

lemma digits_nonempty [simp]: "digits n \<noteq> []" "[] \<noteq> digits n"
  by (subst digits.simps, simp)+

lemma digits_inj: "digits m = digits n \<Longrightarrow> m = n"
proof (induction m arbitrary: n rule: digits.induct)
  case (1 m)
  have eq: "digits m = digits n" by (rule 1)
  show ?case
  proof (cases "m < 10")
    case True
    then show ?thesis using eq
      by (subst (asm) digits.simps, subst (asm) (2) digits.simps) (auto split: if_splits)
  next
    case False
    then have "n \<ge> 10" using eq
      by (subst (asm) digits.simps, subst (asm) (2) digits.simps) (auto split: if_splits)
    with False eq have "digits (m div 10) = digits (n div 10)" "m mod 10 = n mod 10"
      by (subst (asm) digits.simps, subst (asm) (2) digits.simps, simp)+
    with 1(1) [OF False] have "m div 10 = n div 10" "m mod 10 = n mod 10" by simp_all
    then show ?thesis by (metis div_mult_mod_eq)
  qed
qed

section \<open>Words\<close>

lemma sint_of_int:
  assumes "- (2 ^ (LENGTH('a::len) - 1)) \<le> x" "x < 2 ^ (LENGTH('a) - 1)"
  shows "sint (word_of_int x :: 'a word) = x"
  using assms by (simp add: sint_sbintrunc' signed_take_bit_int_eq_self)

end
