(* ===== verification/Logical_Plan.thy ===== *)
theory Logical_Plan
  imports Prelude
begin

text \<open>
  The logical plan of \<^verbatim>\<open>plan/logical_plan.rs\<close>: data types, schemas, literals,
  expressions and relational nodes.  Constructors keep the names of the source;
  where two Rust enums share a variant name, the variants of the second carry a
  prefix (\<open>LInt32\<close> is \<^verbatim>\<open>Literal::Int32\<close>, \<open>AggSum\<close> is \<^verbatim>\<open>AggregateExpr::Sum\<close>).
  Signed machine integers are words read through \<^const>\<open>sint\<close>; a float is its
  IEEE-754 bit pattern; an \<^verbatim>\<open>f32\<close> is a 32-bit word and an \<^verbatim>\<open>f64\<close> a 64-bit word.
  The aggregate, window and sort expressions are polymorphic in the expression
  type, which ties the knot with the mutually recursive \<open>Expr\<close> and
  \<open>LogicalPlan\<close>.
\<close>

section \<open>Data types and schemas\<close>

datatype TimeUnit = Second | Millisecond | Microsecond | Nanosecond

datatype DataType =
    Bool
  | Int32
  | Int64
  | Float32
  | Float64
  | Utf8
  | Decimal128 nat int
  | Date32
  | Timestamp TimeUnit "string option"

fun byte_width :: "DataType \<Rightarrow> nat option" where
  "byte_width Bool = Some 1"
| "byte_width Int32 = Some 4"
| "byte_width Int64 = Some 8"
| "byte_width Float32 = Some 4"
| "byte_width Float64 = Some 8"
| "byte_width Utf8 = None"
| "byte_width (Decimal128 _ _) = Some 16"
| "byte_width Date32 = Some 4"
| "byte_width (Timestamp _ _) = Some 8"

definition is_float :: "DataType \<Rightarrow> bool" where
  "is_float d \<longleftrightarrow> d = Float32 \<or> d = Float64"

definition is_int :: "DataType \<Rightarrow> bool" where
  "is_int d \<longleftrightarrow> d = Int32 \<or> d = Int64"

definition is_numeric :: "DataType \<Rightarrow> bool" where
  "is_numeric d \<longleftrightarrow> is_int d \<or> is_float d"

fun is_decimal :: "DataType \<Rightarrow> bool" where
  "is_decimal (Decimal128 _ _) = True"
| "is_decimal _ = False"

record Field =
  name :: string
  dtype :: DataType
  nullable :: bool

definition Field_new :: "string \<Rightarrow> DataType \<Rightarrow> bool \<Rightarrow> Field" where
  "Field_new n t b = \<lparr>name = n, dtype = t, nullable = b\<rparr>"

type_synonym Schema = "Field list"

definition is_ascii_uppercase :: "char \<Rightarrow> bool" where
  "is_ascii_uppercase c \<longleftrightarrow> CHR ''A'' \<le> c \<and> c \<le> CHR ''Z''"

definition to_ascii_lowercase :: "char \<Rightarrow> char" where
  "to_ascii_lowercase c = (if is_ascii_uppercase c then char_of (of_char c + 32 :: nat) else c)"

definition eq_ignore_ascii_case :: "string \<Rightarrow> string \<Rightarrow> bool" where
  "eq_ignore_ascii_case a b \<longleftrightarrow> map to_ascii_lowercase a = map to_ascii_lowercase b"

definition index_of :: "Schema \<Rightarrow> string \<Rightarrow> nat BoltResult" where
  "index_of s nm =
    (case position (\<lambda>f. name f = nm) s of
       Some i \<Rightarrow> Ok i
     | None \<Rightarrow>
         if \<not> list_ex is_ascii_uppercase nm
         then okOrR (position (\<lambda>f. eq_ignore_ascii_case (name f) nm) s) PlanErr
         else Err PlanErr)"

definition field :: "Schema \<Rightarrow> string \<Rightarrow> Field BoltResult" where
  "field s nm = bindR (index_of s nm) (\<lambda>i. Ok (s ! i))"

section \<open>Literals and operators\<close>

datatype Literal =
    LNull
  | LBool bool
  | LInt32 "32 word"
  | LInt64 "64 word"
  | LFloat32 "32 word"
  | LFloat64 "64 word"
  | LUtf8 string
  | LDecimal128 "128 word" nat int
  | LDate32 "32 word"
  | LTimestamp "64 word" TimeUnit "string option"

fun lit_dtype :: "Literal \<Rightarrow> DataType option" where
  "lit_dtype LNull = None"
| "lit_dtype (LBool _) = Some Bool"
| "lit_dtype (LInt32 _) = Some Int32"
| "lit_dtype (LInt64 _) = Some Int64"
| "lit_dtype (LFloat32 _) = Some Float32"
| "lit_dtype (LFloat64 _) = Some Float64"
| "lit_dtype (LUtf8 _) = Some Utf8"
| "lit_dtype (LDecimal128 _ p s) = Some (Decimal128 p s)"
| "lit_dtype (LDate32 _) = Some Date32"
| "lit_dtype (LTimestamp _ u tz) = Some (Timestamp u tz)"

datatype BinaryOp =
    Add | Sub | Mul | Div
  | Eq | NotEq | Lt | LtEq | Gt | GtEq
  | And | Or
  | Concat
  | Mod | BitAnd | BitOr | BitXor | Shl | Shr

definition is_arithmetic :: "BinaryOp \<Rightarrow> bool" where
  "is_arithmetic op \<longleftrightarrow> op \<in> {Add, Sub, Mul, Div}"

definition is_comparison :: "BinaryOp \<Rightarrow> bool" where
  "is_comparison op \<longleftrightarrow> op \<in> {Eq, NotEq, Lt, LtEq, Gt, GtEq}"

definition is_logical :: "BinaryOp \<Rightarrow> bool" where
  "is_logical op \<longleftrightarrow> op \<in> {And, Or}"

definition is_string :: "BinaryOp \<Rightarrow> bool" where
  "is_string op \<longleftrightarrow> op = Concat"

definition is_integer_op :: "BinaryOp \<Rightarrow> bool" where
  "is_integer_op op \<longleftrightarrow> op \<in> {Mod, BitAnd, BitOr, BitXor, Shl, Shr}"

definition is_shift :: "BinaryOp \<Rightarrow> bool" where
  "is_shift op \<longleftrightarrow> op \<in> {Shl, Shr}"

datatype UnaryOp = IsNull | IsNotNull | Not

datatype ScalarFnKind =
    FnUpper | FnLower | FnLength | FnSubstring | FnConcat
  | FnTrimBoth | FnTrimLeading | FnTrimTrailing
  | FnOctetLength | FnPosition | FnReplace | FnLeft | FnRight
  | FnLpad | FnRpad | FnReverse | FnInitcap

datatype DateField = FldYear | FldMonth | FldDay | FldHour | FldMinute | FldSecond

definition field_is_intraday :: "DateField \<Rightarrow> bool" where
  "field_is_intraday f \<longleftrightarrow> f \<in> {FldHour, FldMinute, FldSecond}"

datatype DateTruncUnit = TruncYear | TruncMonth | TruncDay | TruncHour | TruncMinute | TruncSecond

definition trunc_is_intraday :: "DateTruncUnit \<Rightarrow> bool" where
  "trunc_is_intraday u \<longleftrightarrow> u \<in> {TruncHour, TruncMinute, TruncSecond}"

datatype FormatToken =
    TokYear4 | TokMonth | TokDay | TokHour24 | TokMinute | TokSecond | TokLiteral char

fun token_is_intraday :: "FormatToken \<Rightarrow> bool" where
  "token_is_intraday TokHour24 = True"
| "token_is_intraday TokMinute = True"
| "token_is_intraday TokSecond = True"
| "token_is_intraday _ = False"

section \<open>Expressions and relational nodes\<close>

datatype 'e AggregateExpr =
    AggCount 'e | AggSum 'e | AggMin 'e | AggMax 'e | AggAvg 'e
  | AggVarPop 'e | AggVarSamp 'e | AggStddevPop 'e | AggStddevSamp 'e

datatype 'e WindowFunc =
    WinRowNumber | WinRank | WinDenseRank
  | WinSum 'e | WinAvg 'e | WinMin 'e | WinMax 'e | WinCount 'e

datatype FrameUnits = Rows | Range | Groups

datatype RangeOffset = OffNumber "64 word" | OffInterval "64 word"

datatype FrameBound =
    UnboundedPreceding
  | Preceding "64 word"
  | CurrentRow
  | Following "64 word"
  | PrecedingValue RangeOffset
  | FollowingValue RangeOffset
  | UnboundedFollowing

datatype WindowFrame = WindowFrame (frame_units: FrameUnits) (frame_start: FrameBound) (frame_end: FrameBound)

datatype 'e WindowExpr =
  WindowExpr (win_func: "'e WindowFunc") (win_output_name: string) (win_frame: "WindowFrame option")

datatype 'e SortExpr = SortExpr (sort_expr: 'e) (descending: bool) (nulls_first: bool)

datatype JoinType = Inner | LeftOuter | RightOuter | FullOuter | Cross

definition left_preserved :: "JoinType \<Rightarrow> bool" where
  "left_preserved jt \<longleftrightarrow> jt \<in> {LeftOuter, FullOuter, Cross}"

definition right_preserved :: "JoinType \<Rightarrow> bool" where
  "right_preserved jt \<longleftrightarrow> jt \<in> {RightOuter, FullOuter, Cross}"

datatype SetOpKind = Except | Intersect

datatype Expr =
    Column string
  | Lit Literal
  | Binary BinaryOp Expr Expr
  | Unary UnaryOp Expr
  | Case "(Expr \<times> Expr) list" "Expr option"
  | Like Expr string "char option" bool bool
  | Cast Expr DataType bool
  | CastFormat Expr DataType "FormatToken list" bool
  | ScalarFn ScalarFnKind "Expr list"
  | Extract DateField Expr
  | DateTrunc DateTruncUnit Expr
  | Alias Expr string
  | ScalarSubquery LogicalPlan
  | InSubquery Expr LogicalPlan bool
and LogicalPlan =
    Scan string "string list option" Schema
  | Filter LogicalPlan Expr
  | Project LogicalPlan "Expr list"
  | Aggregate LogicalPlan "Expr list" "Expr AggregateExpr list"
  | Distinct LogicalPlan
  | Limit LogicalPlan nat nat
  | Sort LogicalPlan "Expr SortExpr list"
  | Window LogicalPlan "Expr WindowExpr list" "Expr list" "Expr SortExpr list"
  | UnionAll "LogicalPlan list"
  | SetOp LogicalPlan LogicalPlan SetOpKind bool
  | Join LogicalPlan LogicalPlan JoinType "(Expr \<times> Expr) list" "Expr option"

text \<open>Size estimates for recursion through lists of pairs, aggregates, sort keys
  and window expressions.\<close>

lemma size_list_member: "x \<in> set xs \<Longrightarrow> f x < size_list f xs"
  by (induction xs) auto

lemma size_pair_list [termination_simp]:
  assumes "b \<in> set bs"
  shows "size (fst b) < size_list (size_prod size size) bs"
    and "size (snd b) < size_list (size_prod size size) bs"
  using size_list_member [OF assms, of "size_prod size size"] by (cases b; simp)+

lemma size_agg_member [termination_simp]:
  assumes "a \<in> set aggs" "e \<in> set_AggregateExpr a"
  shows "size e < size_list (size_AggregateExpr size) aggs"
proof -
  have "size e \<le> size_AggregateExpr size a" using assms(2) by (cases a) auto
  then show ?thesis using size_list_member [OF assms(1), of "size_AggregateExpr size"] by simp
qed

lemma size_sort_member [termination_simp]:
  assumes "se \<in> set ses"
  shows "size (sort_expr se) < size_list (size_SortExpr size) ses"
proof -
  have "size (sort_expr se) \<le> size_SortExpr size se" by (cases se) auto
  then show ?thesis using size_list_member [OF assms, of "size_SortExpr size"] by simp
qed

lemma size_win_member [termination_simp]:
  assumes "we \<in> set wes" "e \<in> set_WindowExpr we"
  shows "size e < size_list (size_WindowExpr size) wes"
proof -
  obtain f n fr where we: "we = WindowExpr f n fr" by (cases we)
  have "size e \<le> size_WindowFunc size f" using assms(2) we by (cases f) auto
  then have "size e \<le> size_WindowExpr size we" using we by simp
  then show ?thesis using size_list_member [OF assms(1), of "size_WindowExpr size"] by simp
qed

lemma size_member_list [termination_simp]: "x \<in> set xs \<Longrightarrow> size x < size_list size xs"
  by (rule size_list_member)

fun win_arg :: "'e WindowFunc \<Rightarrow> 'e option" where
  "win_arg WinRowNumber = None"
| "win_arg WinRank = None"
| "win_arg WinDenseRank = None"
| "win_arg (WinSum e) = Some e"
| "win_arg (WinAvg e) = Some e"
| "win_arg (WinMin e) = Some e"
| "win_arg (WinMax e) = Some e"
| "win_arg (WinCount e) = Some e"

fun children :: "LogicalPlan \<Rightarrow> LogicalPlan list" where
  "children (Scan _ _ _) = []"
| "children (Filter p _) = [p]"
| "children (Project p _) = [p]"
| "children (Aggregate p _ _) = [p]"
| "children (Distinct p) = [p]"
| "children (Limit p _ _) = [p]"
| "children (Window p _ _ _) = [p]"
| "children (Sort p _) = [p]"
| "children (UnionAll ps) = ps"
| "children (Join l r _ _ _) = [l, r]"
| "children (SetOp l r _ _) = [l, r]"

fun collect_scan_tables :: "LogicalPlan \<Rightarrow> string list" where
  "collect_scan_tables (Scan t _ _) = [t]"
| "collect_scan_tables (Filter p _) = collect_scan_tables p"
| "collect_scan_tables (Project p _) = collect_scan_tables p"
| "collect_scan_tables (Aggregate p _ _) = collect_scan_tables p"
| "collect_scan_tables (Distinct p) = collect_scan_tables p"
| "collect_scan_tables (Limit p _ _) = collect_scan_tables p"
| "collect_scan_tables (Window p _ _ _) = collect_scan_tables p"
| "collect_scan_tables (Sort p _) = collect_scan_tables p"
| "collect_scan_tables (UnionAll ps) = concat (map collect_scan_tables ps)"
| "collect_scan_tables (Join l r _ _ _) = collect_scan_tables l @ collect_scan_tables r"
| "collect_scan_tables (SetOp l r _ _) = collect_scan_tables l @ collect_scan_tables r"

end
