(* ===== verification/Typing.thy ===== *)
theory Typing
  imports Logical_Plan
begin

text \<open>
  Type checking of expressions (\<open>dtype\<close>) and schema inference of plans
  (\<open>schema\<close>), \<^verbatim>\<open>plan/logical_plan.rs\<close> from \<^verbatim>\<open>Expr::dtype\<close> to
  \<^verbatim>\<open>join_rename\<close>.  \<open>dtype_depth\<close> and \<open>schema_depth\<close> are the mutually
  recursive workers; the arms that only combine the types of the operands are
  separate non-recursive definitions.  The lemmas at the end show that the
  renaming loop of a join terminates with a fresh name, that a join's schema
  never repeats a name, and the shape of the numeric unification lattice.
\<close>

definition MAX_RECURSION_DEPTH :: nat where
  "MAX_RECURSION_DEPTH = 256"

section \<open>Combining operand types\<close>

definition unify_numeric :: "DataType \<Rightarrow> DataType \<Rightarrow> DataType BoltResult" where
  "unify_numeric a b =
    (if \<not> is_numeric a \<or> \<not> is_numeric b then Err TypeErr
     else let either_float = is_float a \<or> is_float b;
              either_64 = a \<in> {Int64, Float64} \<or> b \<in> {Int64, Float64}
          in Ok (if either_float then (if either_64 then Float64 else Float32)
                 else (if either_64 then Int64 else Int32)))"

definition unify_case_dtypes :: "DataType \<Rightarrow> DataType \<Rightarrow> DataType option" where
  "unify_case_dtypes a b =
    (if a = b then Some a
     else if is_numeric a \<and> is_numeric b
          then (case unify_numeric a b of Inr t \<Rightarrow> Some t | Inl _ \<Rightarrow> None)
          else None)"

fun is_temporal :: "DataType \<Rightarrow> bool" where
  "is_temporal Date32 = True"
| "is_temporal (Timestamp _ _) = True"
| "is_temporal _ = False"

definition temporal_arith :: "BinaryOp \<Rightarrow> DataType \<Rightarrow> DataType \<Rightarrow> DataType BoltResult" where
  "temporal_arith op l r =
    (if op = Sub \<and> l = Date32 \<and> r = Date32 then Ok Int32
     else if op = Add \<and> l = Date32 \<and> is_int r \<or> op = Add \<and> is_int l \<and> r = Date32
             \<or> op = Sub \<and> l = Date32 \<and> is_int r then Ok Date32
     else (case (l, r) of
             (Timestamp lu ltz, Timestamp ru rtz) \<Rightarrow>
               if op = Sub then
                 (if lu \<noteq> ru then Err TypeErr else if ltz \<noteq> rtz then Err TypeErr else Ok Int64)
               else Err TypeErr
           | _ \<Rightarrow> Err TypeErr))"

definition date_or_timestamp_arith_result ::
  "BinaryOp \<Rightarrow> DataType \<Rightarrow> DataType \<Rightarrow> DataType BoltResult option" where
  "date_or_timestamp_arith_result op l r =
    (if \<not> is_temporal l \<and> \<not> is_temporal r then None else Some (temporal_arith op l r))"

fun int_as_decimal :: "DataType \<Rightarrow> (nat \<times> int) option" where
  "int_as_decimal (Decimal128 p s) = Some (p, s)"
| "int_as_decimal Int32 = Some (10, 0)"
| "int_as_decimal Date32 = Some (10, 0)"
| "int_as_decimal Int64 = Some (19, 0)"
| "int_as_decimal _ = None"

definition MAX_P :: nat where "MAX_P = 38"

definition checked_add_u8 :: "nat \<Rightarrow> nat \<Rightarrow> nat option" where
  "checked_add_u8 a b = (if a + b \<le> 255 then Some (a + b) else None)"

definition checked_add_i8 :: "int \<Rightarrow> int \<Rightarrow> int option" where
  "checked_add_i8 a b = (if -128 \<le> a + b \<and> a + b \<le> 127 then Some (a + b) else None)"

definition clamp_precision :: "nat option \<Rightarrow> nat" where
  "clamp_precision p = (case p of Some v \<Rightarrow> min v MAX_P | None \<Rightarrow> MAX_P)"

definition decimal128_arith :: "BinaryOp \<Rightarrow> nat \<times> int \<Rightarrow> nat \<times> int \<Rightarrow> DataType BoltResult" where
  "decimal128_arith op l r =
    (let (p1, s1) = l; (p2, s2) = r in
     if op = Add \<or> op = Sub
     then Ok (Decimal128 (clamp_precision (checked_add_u8 (max p1 p2) 1)) (max s1 s2))
     else if op = Mul
     then (case checked_add_i8 s1 s2 of
             None \<Rightarrow> Err TypeErr
           | Some s \<Rightarrow> Ok (Decimal128 (clamp_precision (checked_add_u8 p1 p2)) s))
     else if op = Div
     then Ok (Decimal128 (max 1 (min p1 MAX_P)) (max s1 6))
     else Err TypeErr)"

definition decimal128_arith_result ::
  "BinaryOp \<Rightarrow> DataType \<Rightarrow> DataType \<Rightarrow> DataType BoltResult option" where
  "decimal128_arith_result op l r =
    (if \<not> is_decimal l \<and> \<not> is_decimal r then None
     else case int_as_decimal l of
            None \<Rightarrow> Some (Err TypeErr)
          | Some ps1 \<Rightarrow>
              (case int_as_decimal r of
                 None \<Rightarrow> Some (Err TypeErr)
               | Some ps2 \<Rightarrow> Some (decimal128_arith op ps1 ps2)))"

definition arith_dtype :: "BinaryOp \<Rightarrow> DataType \<Rightarrow> DataType \<Rightarrow> DataType BoltResult" where
  "arith_dtype op l r =
    (case date_or_timestamp_arith_result op l r of
       Some dt \<Rightarrow> dt
     | None \<Rightarrow>
         (case decimal128_arith_result op l r of
            Some dt \<Rightarrow> dt
          | None \<Rightarrow> if \<not> is_numeric l \<or> \<not> is_numeric r then Err TypeErr else unify_numeric l r))"

definition comparison_dtype :: "DataType \<Rightarrow> DataType \<Rightarrow> DataType BoltResult" where
  "comparison_dtype l r =
    (if l = r then Ok Bool
     else if is_numeric l \<and> is_numeric r then bindR (unify_numeric l r) (\<lambda>_. Ok Bool)
     else Err TypeErr)"

definition binary_dtype :: "BinaryOp \<Rightarrow> DataType \<Rightarrow> DataType \<Rightarrow> DataType BoltResult" where
  "binary_dtype op l r =
    (if is_arithmetic op then arith_dtype op l r
     else if is_comparison op then comparison_dtype l r
     else if is_logical op then (if l = Bool \<and> r = Bool then Ok Bool else Err TypeErr)
     else if is_string op then (if l = Utf8 \<and> r = Utf8 then Ok Utf8 else Err TypeErr)
     else if is_integer_op op then
       (if \<not> is_int l \<or> \<not> is_int r then Err TypeErr
        else if is_shift op then Ok l else unify_numeric l r)
     else Err TypeErr)"

definition is_null_lit :: "Expr \<Rightarrow> bool" where
  "is_null_lit e \<longleftrightarrow> e = Lit LNull"

definition peer_typed_dtype ::
  "bool \<Rightarrow> DataType BoltResult \<Rightarrow> DataType BoltResult \<Rightarrow> DataType BoltResult" where
  "peer_typed_dtype null own peer =
    (if null then (case peer of Inr t \<Rightarrow> Ok t | Inl _ \<Rightarrow> own) else own)"

definition cast_pair_supported :: "DataType \<Rightarrow> DataType \<Rightarrow> bool" where
  "cast_pair_supported src target \<longleftrightarrow>
    (src, target) \<in>
      {(Int32, Int64), (Int64, Int32),
       (Int32, Float32), (Int32, Float64), (Int64, Float32), (Int64, Float64),
       (Float32, Float64), (Float64, Float32),
       (Bool, Int32), (Bool, Int64), (Int32, Bool), (Int64, Bool)}
    \<or> is_float src \<and> is_decimal target
    \<or> is_decimal src \<and> is_float target"

definition cast_is_supported :: "DataType \<Rightarrow> DataType \<Rightarrow> bool" where
  "cast_is_supported src target \<longleftrightarrow> src = target \<or> cast_pair_supported src target"

definition safe_cast_is_supported :: "DataType \<Rightarrow> DataType \<Rightarrow> bool" where
  "safe_cast_is_supported src target \<longleftrightarrow>
    (if is_float src \<and> is_decimal target \<or> is_decimal src \<and> is_float target then False
     else cast_is_supported src target
          \<or> src = Utf8 \<and> target \<in> {Int32, Int64, Float32, Float64, Bool})"

definition cast_format_dtype ::
  "DataType \<Rightarrow> DataType \<Rightarrow> FormatToken list \<Rightarrow> bool \<Rightarrow> DataType BoltResult" where
  "cast_format_dtype src target pattern to_text =
    (if to_text then
       bindR (if src = Date32 then guardR (\<not> list_ex token_is_intraday pattern) TypeErr
              else if is_temporal src then Ok () else Err TypeErr) (\<lambda>_.
       if target \<noteq> Utf8 then Err TypeErr else Ok Utf8)
     else if src \<noteq> Utf8 then Err TypeErr
     else if target = Date32 then
       (if list_ex token_is_intraday pattern then Err TypeErr else Ok Date32)
     else if is_temporal target then Ok target else Err TypeErr)"

definition extract_output_dtype :: "DateField \<Rightarrow> DataType \<Rightarrow> DataType BoltResult" where
  "extract_output_dtype f src =
    (if src = Date32 then (if field_is_intraday f then Err TypeErr else Ok Int64)
     else if is_temporal src then Ok Int64 else Err TypeErr)"

definition date_trunc_output_dtype :: "DateTruncUnit \<Rightarrow> DataType \<Rightarrow> DataType BoltResult" where
  "date_trunc_output_dtype u src =
    (if src = Date32 then (if trunc_is_intraday u then Err TypeErr else Ok Date32)
     else if is_temporal src then Ok src else Err TypeErr)"

definition fn_signature :: "bool \<Rightarrow> DataType \<Rightarrow> DataType BoltResult" where
  "fn_signature well_shaped result = (if well_shaped then Ok result else Err TypeErr)"

fun scalar_fn_dtype :: "ScalarFnKind \<Rightarrow> DataType list \<Rightarrow> DataType BoltResult" where
  "scalar_fn_dtype FnUpper ts = fn_signature (ts = [Utf8]) Utf8"
| "scalar_fn_dtype FnLower ts = fn_signature (ts = [Utf8]) Utf8"
| "scalar_fn_dtype FnLength ts = fn_signature (ts = [Utf8]) Int64"
| "scalar_fn_dtype FnSubstring ts =
    fn_signature (ts = [Utf8, Int64] \<or> ts = [Utf8, Int64, Int64]) Utf8"
| "scalar_fn_dtype FnConcat ts = fn_signature (2 \<le> length ts \<and> list_all (\<lambda>t. t = Utf8) ts) Utf8"
| "scalar_fn_dtype FnTrimBoth ts = fn_signature (ts = [Utf8] \<or> ts = [Utf8, Utf8]) Utf8"
| "scalar_fn_dtype FnTrimLeading ts = fn_signature (ts = [Utf8] \<or> ts = [Utf8, Utf8]) Utf8"
| "scalar_fn_dtype FnTrimTrailing ts = fn_signature (ts = [Utf8] \<or> ts = [Utf8, Utf8]) Utf8"
| "scalar_fn_dtype FnOctetLength ts = fn_signature (ts = [Utf8]) Int64"
| "scalar_fn_dtype FnPosition ts = fn_signature (ts = [Utf8, Utf8]) Int64"
| "scalar_fn_dtype FnReplace ts = fn_signature (ts = [Utf8, Utf8, Utf8]) Utf8"
| "scalar_fn_dtype FnLeft ts = fn_signature (ts = [Utf8, Int64]) Utf8"
| "scalar_fn_dtype FnRight ts = fn_signature (ts = [Utf8, Int64]) Utf8"
| "scalar_fn_dtype FnLpad ts = fn_signature (ts = [Utf8, Int64, Utf8]) Utf8"
| "scalar_fn_dtype FnRpad ts = fn_signature (ts = [Utf8, Int64, Utf8]) Utf8"
| "scalar_fn_dtype FnReverse ts = fn_signature (ts = [Utf8]) Utf8"
| "scalar_fn_dtype FnInitcap ts = fn_signature (ts = [Utf8]) Utf8"

section \<open>CASE arms\<close>

definition unify_arm :: "DataType option \<Rightarrow> DataType option \<Rightarrow> DataType option BoltResult" where
  "unify_arm acc arm =
    (case arm of
       None \<Rightarrow> Ok acc
     | Some t \<Rightarrow>
         (case acc of
            None \<Rightarrow> Ok (Some t)
          | Some prev \<Rightarrow> bindR (okOrR (unify_case_dtypes prev t) TypeErr) (\<lambda>u. Ok (Some u))))"

definition case_dtype :: "DataType option list \<Rightarrow> DataType BoltResult" where
  "case_dtype arms = bindR (foldR unify_arm None arms) (\<lambda>acc. okOrR acc TypeErr)"

section \<open>Naming rules\<close>

fun expr_output_name :: "Expr \<Rightarrow> nat \<Rightarrow> string" where
  "expr_output_name (Column n) i = n"
| "expr_output_name (Alias _ n) i = n"
| "expr_output_name _ i = ''__expr_'' @ digits i"

fun group_key_output_name :: "Expr \<Rightarrow> nat \<Rightarrow> string" where
  "group_key_output_name (Column n) i = n"
| "group_key_output_name (Alias _ n) i = n"
| "group_key_output_name _ i = ''__group_'' @ digits i"

fun suffix :: "Expr \<Rightarrow> string" where
  "suffix (Column n) = ''_'' @ n"
| "suffix (Alias _ n) = ''_'' @ n"
| "suffix _ = ''''"

fun agg_output_name :: "Expr AggregateExpr \<Rightarrow> string" where
  "agg_output_name (AggCount e) = ''count'' @ suffix e"
| "agg_output_name (AggSum e) = ''sum'' @ suffix e"
| "agg_output_name (AggMin e) = ''min'' @ suffix e"
| "agg_output_name (AggMax e) = ''max'' @ suffix e"
| "agg_output_name (AggAvg e) = ''avg'' @ suffix e"
| "agg_output_name (AggVarPop e) = ''var_pop'' @ suffix e"
| "agg_output_name (AggVarSamp e) = ''var_samp'' @ suffix e"
| "agg_output_name (AggStddevPop e) = ''stddev_pop'' @ suffix e"
| "agg_output_name (AggStddevSamp e) = ''stddev_samp'' @ suffix e"

fun sum_output_dtype :: "DataType \<Rightarrow> DataType" where
  "sum_output_dtype Int32 = Int64"
| "sum_output_dtype (Decimal128 _ s) = Decimal128 38 s"
| "sum_output_dtype t = t"

fun agg_output_dtype :: "DataType BoltResult AggregateExpr \<Rightarrow> DataType BoltResult" where
  "agg_output_dtype (AggCount _) = Ok Int64"
| "agg_output_dtype (AggSum r) =
    bindR r (\<lambda>t. if is_temporal t then Err TypeErr else Ok (sum_output_dtype t))"
| "agg_output_dtype (AggMin r) = r"
| "agg_output_dtype (AggMax r) = r"
| "agg_output_dtype (AggAvg r) = bindR r (\<lambda>t. if is_temporal t then Err TypeErr else Ok Float64)"
| "agg_output_dtype (AggVarPop r) = bindR r (\<lambda>_. Ok Float64)"
| "agg_output_dtype (AggVarSamp r) = bindR r (\<lambda>_. Ok Float64)"
| "agg_output_dtype (AggStddevPop r) =
    bindR r (\<lambda>t. if is_numeric t then Ok Float64 else Err TypeErr)"
| "agg_output_dtype (AggStddevSamp r) =
    bindR r (\<lambda>t. if is_numeric t then Ok Float64 else Err TypeErr)"

fun win_output_dtype :: "DataType BoltResult WindowFunc \<Rightarrow> DataType BoltResult" where
  "win_output_dtype WinRowNumber = Ok Int64"
| "win_output_dtype WinRank = Ok Int64"
| "win_output_dtype WinDenseRank = Ok Int64"
| "win_output_dtype (WinCount _) = Ok Int64"
| "win_output_dtype (WinAvg r) = bindR r (\<lambda>_. Ok Float64)"
| "win_output_dtype (WinSum r) = bindR r (\<lambda>t. Ok (sum_output_dtype t))"
| "win_output_dtype (WinMin r) = r"
| "win_output_dtype (WinMax r) = r"

definition schemas_compatible :: "Schema \<Rightarrow> Schema \<Rightarrow> bool" where
  "schemas_compatible a b \<longleftrightarrow>
    length a = length b \<and> list_all (\<lambda>(x, y). dtype x = dtype y) (zip a b)"

definition apply_column_aliases :: "Schema \<Rightarrow> string list \<Rightarrow> Schema" where
  "apply_column_aliases base aliases =
    map2 (\<lambda>f n. f\<lparr>name := n\<rparr>) base aliases @ drop (length aliases) base"

section \<open>Join output names\<close>

definition candidate :: "string \<Rightarrow> nat \<Rightarrow> string" where
  "candidate base i = base @ ''__'' @ digits i"

lemma candidate_inj: "candidate b i = candidate b j \<longleftrightarrow> i = j"
  by (auto simp: candidate_def dest: digits_inj)

lemma finite_taken_candidates: "finite {j. i \<le> j \<and> candidate b j \<in> set taken}"
proof -
  have "inj_on (candidate b) {j. candidate b j \<in> set taken}"
    by (auto simp: inj_on_def candidate_inj)
  moreover have "finite (candidate b ` {j. candidate b j \<in> set taken})"
    by (rule finite_subset [of _ "set taken"]) auto
  ultimately have "finite {j. candidate b j \<in> set taken}"
    by (rule finite_imageD [rotated])
  then show ?thesis by (rule rev_finite_subset) auto
qed

function rename_loop :: "string list \<Rightarrow> string \<Rightarrow> nat \<Rightarrow> string" where
  "rename_loop taken base i =
    (if candidate base i \<notin> set taken then candidate base i else rename_loop taken base (i + 1))"
  by pat_completeness auto
termination
proof (relation "measure (\<lambda>(taken, base, i). card {j. i \<le> j \<and> candidate base j \<in> set taken})")
  fix taken base i
  assume "\<not> candidate base i \<notin> set taken"
  then have "i \<in> {j. i \<le> j \<and> candidate base j \<in> set taken}"
    and "i \<notin> {j. i + 1 \<le> j \<and> candidate base j \<in> set taken}" by simp_all
  moreover have "{j. i + 1 \<le> j \<and> candidate base j \<in> set taken}
      \<subseteq> {j. i \<le> j \<and> candidate base j \<in> set taken}" by auto
  ultimately have "{j. i + 1 \<le> j \<and> candidate base j \<in> set taken}
      \<subset> {j. i \<le> j \<and> candidate base j \<in> set taken}" by blast
  then show "((taken, base, i + 1), taken, base, i)
      \<in> measure (\<lambda>(taken, base, i). card {j. i \<le> j \<and> candidate base j \<in> set taken})"
    using finite_taken_candidates by (auto intro: psubset_card_mono)
qed simp

declare rename_loop.simps [simp del]

definition join_rename :: "string \<Rightarrow> string list \<Rightarrow> string \<times> string list" where
  "join_rename nm taken =
    (let out = (if nm \<in> set taken then ''right.'' @ nm else nm);
         out = (if out \<in> set taken then rename_loop taken out 2 else out)
     in (out, out # taken))"

fun rename_right :: "bool \<Rightarrow> Schema \<Rightarrow> string list \<Rightarrow> Schema" where
  "rename_right may_null [] taken = []"
| "rename_right may_null (f # fs) taken =
    (let (nm, taken') = join_rename (name f) taken
     in \<lparr>name = nm, dtype = dtype f, nullable = nullable f \<or> may_null\<rparr>
        # rename_right may_null fs taken')"

definition join_combined_schema :: "Schema \<Rightarrow> Schema \<Rightarrow> JoinType \<Rightarrow> Schema" where
  "join_combined_schema l r jt =
    (let left_may_null = (jt = RightOuter \<or> jt = FullOuter);
         right_may_null = (jt = LeftOuter \<or> jt = FullOuter)
     in map (\<lambda>f. f\<lparr>nullable := nullable f \<or> left_may_null\<rparr>) l
        @ rename_right right_may_null r (map name l))"

section \<open>Type checking and schema inference\<close>

definition typed_fields :: "(nat \<Rightarrow> 'a \<Rightarrow> string) \<Rightarrow> ('a \<times> DataType) list \<Rightarrow> Schema" where
  "typed_fields naming xs = map (\<lambda>(i, x, t). Field_new (naming i x) t True) (enum xs)"

function dtype_depth :: "Expr \<Rightarrow> Schema \<Rightarrow> nat \<Rightarrow> DataType BoltResult"
  and schema_depth :: "LogicalPlan \<Rightarrow> nat \<Rightarrow> Schema BoltResult"
where
  "dtype_depth (Column n) s d =
    bindR (guardR (d \<le> MAX_RECURSION_DEPTH) TypeErr) (\<lambda>_.
    bindR (field s n) (\<lambda>f. Ok (dtype f)))"
| "dtype_depth (Lit l) s d =
    bindR (guardR (d \<le> MAX_RECURSION_DEPTH) TypeErr) (\<lambda>_. okOrR (lit_dtype l) TypeErr)"
| "dtype_depth (Binary op l r) s d =
    bindR (guardR (d \<le> MAX_RECURSION_DEPTH) TypeErr) (\<lambda>_.
    bindR (peer_typed_dtype (is_null_lit l) (dtype_depth l s 0) (dtype_depth r s 0)) (\<lambda>lt.
    bindR (peer_typed_dtype (is_null_lit r) (dtype_depth r s 0) (dtype_depth l s 0)) (\<lambda>rt.
    binary_dtype op lt rt)))"
| "dtype_depth (Unary op e) s d =
    bindR (guardR (d \<le> MAX_RECURSION_DEPTH) TypeErr) (\<lambda>_.
    if is_null_lit e then Ok Bool
    else bindR (dtype_depth e s (d + 1)) (\<lambda>t.
         if op = Not \<and> t \<noteq> Bool then Err TypeErr else Ok Bool))"
| "dtype_depth (Case bs els) s d =
    bindR (guardR (d \<le> MAX_RECURSION_DEPTH) TypeErr) (\<lambda>_.
    if bs = [] then Err TypeErr
    else
    bindR (mapR (\<lambda>b. bindR (dtype_depth (fst b) s (d + 1)) (\<lambda>t. guardR (t = Bool) TypeErr)) bs) (\<lambda>_.
    bindR (mapR (\<lambda>b. if is_null_lit (snd b) then Ok None
                     else bindR (dtype_depth (snd b) s (d + 1)) (\<lambda>t. Ok (Some t))) bs) (\<lambda>arms.
    bindR (optR (\<lambda>e. if is_null_lit e then Ok None
                     else bindR (dtype_depth e s (d + 1)) (\<lambda>t. Ok (Some t))) els) (\<lambda>last.
    case_dtype (arms @ (case last of None \<Rightarrow> [] | Some t \<Rightarrow> [t]))))))"
| "dtype_depth (Like e pat esc neg ci) s d =
    bindR (guardR (d \<le> MAX_RECURSION_DEPTH) TypeErr) (\<lambda>_.
    bindR (dtype_depth e s (d + 1)) (\<lambda>t. if t \<noteq> Utf8 then Err TypeErr else Ok Bool))"
| "dtype_depth (Cast e target safe) s d =
    bindR (guardR (d \<le> MAX_RECURSION_DEPTH) TypeErr) (\<lambda>_.
    if is_null_lit e then Ok target
    else bindR (dtype_depth e s (d + 1)) (\<lambda>src.
         if (if safe then safe_cast_is_supported src target else cast_is_supported src target)
         then Ok target else Err TypeErr))"
| "dtype_depth (CastFormat e target pattern to_text) s d =
    bindR (guardR (d \<le> MAX_RECURSION_DEPTH) TypeErr) (\<lambda>_.
    if is_null_lit e then Ok target
    else bindR (dtype_depth e s (d + 1)) (\<lambda>src. cast_format_dtype src target pattern to_text))"
| "dtype_depth (ScalarFn kind args) s d =
    bindR (guardR (d \<le> MAX_RECURSION_DEPTH) TypeErr) (\<lambda>_.
    bindR (mapR (\<lambda>a. dtype_depth a s (d + 1)) args) (\<lambda>ts. scalar_fn_dtype kind ts))"
| "dtype_depth (Extract f e) s d =
    bindR (guardR (d \<le> MAX_RECURSION_DEPTH) TypeErr) (\<lambda>_.
    bindR (dtype_depth e s (d + 1)) (\<lambda>src. extract_output_dtype f src))"
| "dtype_depth (DateTrunc u e) s d =
    bindR (guardR (d \<le> MAX_RECURSION_DEPTH) TypeErr) (\<lambda>_.
    bindR (dtype_depth e s (d + 1)) (\<lambda>src. date_trunc_output_dtype u src))"
| "dtype_depth (Alias e n) s d =
    bindR (guardR (d \<le> MAX_RECURSION_DEPTH) TypeErr) (\<lambda>_. dtype_depth e s (d + 1))"
| "dtype_depth (ScalarSubquery p) s d =
    bindR (guardR (d \<le> MAX_RECURSION_DEPTH) TypeErr) (\<lambda>_.
    bindR (schema_depth p (d + 1)) (\<lambda>sub.
    if length sub \<noteq> 1 then Err TypeErr else Ok (dtype (sub ! 0))))"
| "dtype_depth (InSubquery e p neg) s d =
    bindR (guardR (d \<le> MAX_RECURSION_DEPTH) TypeErr) (\<lambda>_.
    bindR (schema_depth p (d + 1)) (\<lambda>sub.
    if length sub \<noteq> 1 then Err TypeErr
    else if is_null_lit e then Ok Bool
    else bindR (dtype_depth e s (d + 1)) (\<lambda>probe.
         let st = dtype (sub ! 0) in
         if probe = st \<or> is_numeric probe \<and> is_numeric st then Ok Bool else Err TypeErr)))"
| "schema_depth (Scan t proj s) d =
    bindR (guardR (d \<le> MAX_RECURSION_DEPTH) PlanErr) (\<lambda>_.
    case proj of None \<Rightarrow> Ok s | Some cols \<Rightarrow> mapR (field s) cols)"
| "schema_depth (Filter p e) d =
    bindR (guardR (d \<le> MAX_RECURSION_DEPTH) PlanErr) (\<lambda>_.
    bindR (schema_depth p (d + 1)) (\<lambda>s.
    bindR (dtype_depth e s 0) (\<lambda>t. if t \<noteq> Bool then Err TypeErr else Ok s)))"
| "schema_depth (Project p es) d =
    bindR (guardR (d \<le> MAX_RECURSION_DEPTH) PlanErr) (\<lambda>_.
    bindR (schema_depth p (d + 1)) (\<lambda>s.
    bindR (mapR (\<lambda>e. bindR (dtype_depth e s 0) (\<lambda>t. Ok (e, t))) es) (\<lambda>ets.
    Ok (typed_fields (\<lambda>i e. expr_output_name e i) ets))))"
| "schema_depth (Aggregate p gs aggs) d =
    bindR (guardR (d \<le> MAX_RECURSION_DEPTH) PlanErr) (\<lambda>_.
    bindR (schema_depth p (d + 1)) (\<lambda>s.
    bindR (mapR (\<lambda>e. bindR (dtype_depth e s 0) (\<lambda>t. Ok (e, t))) gs) (\<lambda>gts.
    bindR (mapR (\<lambda>a. bindR (agg_output_dtype (map_AggregateExpr (\<lambda>e. dtype_depth e s 0) a))
                           (\<lambda>t. Ok (a, t))) aggs) (\<lambda>ats.
    Ok (typed_fields (\<lambda>i e. group_key_output_name e i) gts
        @ typed_fields (\<lambda>i a. agg_output_name a) ats)))))"
| "schema_depth (Distinct p) d =
    bindR (guardR (d \<le> MAX_RECURSION_DEPTH) PlanErr) (\<lambda>_. schema_depth p (d + 1))"
| "schema_depth (Limit p n off) d =
    bindR (guardR (d \<le> MAX_RECURSION_DEPTH) PlanErr) (\<lambda>_. schema_depth p (d + 1))"
| "schema_depth (Sort p ses) d =
    bindR (guardR (d \<le> MAX_RECURSION_DEPTH) PlanErr) (\<lambda>_.
    bindR (schema_depth p (d + 1)) (\<lambda>s.
    bindR (mapR (\<lambda>se. dtype_depth (sort_expr se) s 0) ses) (\<lambda>_. Ok s)))"
| "schema_depth (Window p wes part ord) d =
    bindR (guardR (d \<le> MAX_RECURSION_DEPTH) PlanErr) (\<lambda>_.
    bindR (schema_depth p (d + 1)) (\<lambda>s.
    bindR (mapR (\<lambda>e. dtype_depth e s 0) part) (\<lambda>_.
    bindR (mapR (\<lambda>se. dtype_depth (sort_expr se) s 0) ord) (\<lambda>_.
    bindR (mapR (\<lambda>we. bindR (win_output_dtype (win_func (map_WindowExpr (\<lambda>e. dtype_depth e s 0) we)))
                            (\<lambda>t. Ok (Field_new (win_output_name we) t True))) wes) (\<lambda>fs.
    Ok (s @ fs))))))"
| "schema_depth (UnionAll ps) d =
    bindR (guardR (d \<le> MAX_RECURSION_DEPTH) PlanErr) (\<lambda>_.
    case ps of
      [] \<Rightarrow> Err PlanErr
    | q # qs \<Rightarrow>
        bindR (schema_depth q (d + 1)) (\<lambda>first.
        bindR (mapR (\<lambda>b. bindR (schema_depth b (d + 1)) (\<lambda>other.
                         guardR (schemas_compatible first other) PlanErr)) qs) (\<lambda>_. Ok first)))"
| "schema_depth (SetOp l r op all) d =
    bindR (guardR (d \<le> MAX_RECURSION_DEPTH) PlanErr) (\<lambda>_.
    bindR (schema_depth l (d + 1)) (\<lambda>ls.
    bindR (schema_depth r (d + 1)) (\<lambda>rs.
    if \<not> schemas_compatible ls rs then Err PlanErr else Ok ls)))"
| "schema_depth (Join l r jt on f) d =
    bindR (guardR (d \<le> MAX_RECURSION_DEPTH) PlanErr) (\<lambda>_.
    bindR (schema_depth l (d + 1)) (\<lambda>ls.
    bindR (schema_depth r (d + 1)) (\<lambda>rs.
    Ok (join_combined_schema ls rs jt))))"
  by pat_completeness auto
termination
  by (relation "measure (\<lambda>x. case x of Inl (e, s, d) \<Rightarrow> size e | Inr (p, d) \<Rightarrow> size p)")
    (auto simp: termination_simp less_Suc_eq_le intro: less_imp_le)

definition expr_dtype :: "Expr \<Rightarrow> Schema \<Rightarrow> DataType BoltResult" where
  "expr_dtype e s = dtype_depth e s 0"

definition schema :: "LogicalPlan \<Rightarrow> Schema BoltResult" where
  "schema p = schema_depth p 0"

section \<open>Lemmas\<close>

lemma rename_loop_fresh: "rename_loop taken base i \<notin> set taken"
  by (induction taken base i rule: rename_loop.induct) (subst rename_loop.simps, auto)

lemma join_rename_fresh:
  assumes "join_rename nm taken = (out, taken')"
  shows "out \<notin> set taken" "taken' = out # taken"
  using assms rename_loop_fresh by (auto simp: join_rename_def Let_def split: if_splits)

lemma rename_right_fresh:
  "distinct (map name (rename_right b fs taken))
   \<and> set (map name (rename_right b fs taken)) \<inter> set taken = {}"
proof (induction b fs taken rule: rename_right.induct)
  case (2 b f fs taken)
  obtain out taken' where jr: "join_rename (name f) taken = (out, taken')" by fastforce
  have "taken' = out # taken" "out \<notin> set taken" using join_rename_fresh [OF jr] by simp_all
  then show ?case using 2 jr by auto
qed simp

lemma rename_right_shape:
  "map dtype (rename_right b fs taken) = map dtype fs"
  "map nullable (rename_right b fs taken) = map (\<lambda>f. nullable f \<or> b) fs"
  by (induction b fs taken rule: rename_right.induct) (auto simp: split: prod.splits)

definition rle :: "'e + 'a \<Rightarrow> 'e + 'a \<Rightarrow> bool" where
  "rle a b \<longleftrightarrow> (\<forall>x. a = Inr x \<longrightarrow> b = Inr x)"

named_theorems rle_intros "monotonicity of the combinators"

lemma rle_refl [simp, rle_intros]: "rle a a"
  by (simp add: rle_def)

lemma rle_Err [simp]: "rle (Inl e) b"
  by (simp add: rle_def)

lemma rleD: "rle a b \<Longrightarrow> a = Inr x \<Longrightarrow> b = Inr x"
  by (simp add: rle_def)

lemma rle_bind [rle_intros]:
  "rle m m' \<Longrightarrow> (\<And>x. m = Inr x \<Longrightarrow> rle (f x) (g x)) \<Longrightarrow> rle (bindR m f) (bindR m' g)"
  by (cases m) (auto simp: rle_def)

lemma rle_guard [rle_intros]: "(b \<Longrightarrow> b') \<Longrightarrow> rle (guardR b e) (guardR b' e)"
  by (auto simp: rle_def guardR_def)

lemma rle_mapR [rle_intros]:
  "(\<And>x. x \<in> set xs \<Longrightarrow> rle (f x) (g x)) \<Longrightarrow> rle (mapR f xs) (mapR g xs)"
  by (induction xs) (auto intro!: rle_bind)

lemma rle_optR [rle_intros]:
  "(\<And>x. y = Some x \<Longrightarrow> rle (f x) (g x)) \<Longrightarrow> rle (optR f y) (optR g y)"
  by (cases y) (auto intro!: rle_bind)

lemma rle_if [rle_intros]:
  "(c \<Longrightarrow> rle a a') \<Longrightarrow> (\<not> c \<Longrightarrow> rle b b') \<Longrightarrow> rle (if c then a else b) (if c then a' else b')"
  by simp

lemma depth_rle:
  "d' \<le> d \<Longrightarrow> rle (dtype_depth e s d) (dtype_depth e s d')"
  "d' \<le> d \<Longrightarrow> rle (schema_depth p d) (schema_depth p d')"
proof (induction e s d and p d arbitrary: d' and d' rule: dtype_depth_schema_depth.induct)
  case (5 bs els s d)
  have le: "d' + 1 \<le> d + 1" using "5.prems" by simp
  have guard: "rle (guardR (d \<le> MAX_RECURSION_DEPTH) TypeErr)
      (guardR (d' \<le> MAX_RECURSION_DEPTH) TypeErr)"
    using "5.prems" by (auto intro: rle_guard)
  show ?case
    unfolding dtype_depth.simps
    apply (intro rle_intros)
    subgoal using "5.prems" by simp
    subgoal by (rule "5.IH"(1) [OF _ _ _ le])
    subgoal by (rule "5.IH"(2) [OF _ _ _ _ _ le])
    subgoal by (rule "5.IH"(3) [OF _ _ _ _ _ _ le])
    done
next
  case (23 ps d)
  then show ?case by (cases ps) (auto intro!: rle_intros)
qed (auto intro!: rle_intros)

lemma dtype_depth_antimono:
  "dtype_depth e s d = Inr t \<Longrightarrow> d' \<le> d \<Longrightarrow> dtype_depth e s d' = Inr t"
  by (rule rleD [OF depth_rle(1)])

lemma schema_depth_antimono:
  "schema_depth p d = Inr sc \<Longrightarrow> d' \<le> d \<Longrightarrow> schema_depth p d' = Inr sc"
  by (rule rleD [OF depth_rle(2)])

text \<open>Chains of additions and of aliases, to probe the depth limit.\<close>

fun add_chain :: "nat \<Rightarrow> Expr" where
  "add_chain 0 = Lit (LInt64 0)"
| "add_chain (Suc n) = Binary Add (add_chain n) (Lit (LInt64 1))"

fun alias_chain :: "nat \<Rightarrow> Expr" where
  "alias_chain 0 = Lit (LInt64 0)"
| "alias_chain (Suc n) = Alias (alias_chain n) ''a''"

lemma add_chain_not_null: "\<not> is_null_lit (add_chain n)"
  by (cases n) (auto simp: is_null_lit_def)

lemma arith_Int64: "binary_dtype Add Int64 Int64 = Inr Int64"
  by (simp add: binary_dtype_def is_arithmetic_def arith_dtype_def date_or_timestamp_arith_result_def
      decimal128_arith_result_def is_numeric_def is_int_def unify_numeric_def is_float_def)

lemma add_chain_dtype: "expr_dtype (add_chain n) s = Inr Int64"
  unfolding expr_dtype_def
  by (induction n) (auto simp: MAX_RECURSION_DEPTH_def peer_typed_dtype_def add_chain_not_null
      is_null_lit_def arith_Int64)

lemma alias_chain_dtype: 
  "dtype_depth (alias_chain n) s d = (if d + n \<le> MAX_RECURSION_DEPTH then Inr Int64 else Inl TypeErr)"
  by (induction n arbitrary: d) (auto simp: guardR_def)

section \<open>Properties\<close>

text \<open>C1: the output schema of a join lists the left columns under
  their own names and then one column per right column; data types are kept; and as soon as
  the names of the left input are distinct, all output names are distinct, whatever the
  names of the right input are.\<close>

theorem join_schema_wellformed:
  assumes "distinct (map name l)"
  shows "distinct (map name (join_combined_schema l r jt))
    \<and> take (length l) (map name (join_combined_schema l r jt)) = map name l
    \<and> map dtype (join_combined_schema l r jt) = map dtype l @ map dtype r"
  using assms rename_right_fresh [of _ r "map name l"]
  by (auto simp: join_combined_schema_def Let_def comp_def rename_right_shape)

theorem join_schema_wellformed_witness:
  "distinct (map name (join_combined_schema
      [Field_new ''id'' Int64 False, Field_new ''right.id'' Int64 False]
      [Field_new ''id'' Int32 False, Field_new ''id'' Int32 False] Inner))"
  using join_schema_wellformed [of "[Field_new ''id'' Int64 False, Field_new ''right.id'' Int64 False]"
      "[Field_new ''id'' Int32 False, Field_new ''id'' Int32 False]" Inner]
  by (simp add: Field_new_def)

text \<open>C12: the renaming loop of a join terminates and returns a name
  that is not taken, which it then records; a name that is free is returned as it is.\<close>

theorem join_rename_fresh_name:
  "fst (join_rename nm taken) \<notin> set taken
   \<and> snd (join_rename nm taken) = fst (join_rename nm taken) # taken
   \<and> (nm \<notin> set taken \<longrightarrow> fst (join_rename nm taken) = nm)"
  using join_rename_fresh [of nm taken "fst (join_rename nm taken)" "snd (join_rename nm taken)"]
  by (auto simp: join_rename_def Let_def)

theorem join_rename_fresh_name_witness:
  "fst (join_rename ''b'' [''a'']) = ''b''"
  using join_rename_fresh_name [of "''b''" "[''a'']"] by simp

text \<open>C5: the recursion-depth counter only ever rejects: if an expression
  has a type (a plan has a schema) at some depth, it has the same type (schema) at every
  smaller depth.\<close>

theorem typing_depth_antimono:
  assumes "d' \<le> d"
  shows "(dtype_depth e s d = Ok t \<longrightarrow> dtype_depth e s d' = Ok t)
    \<and> (schema_depth p d = Ok sc \<longrightarrow> schema_depth p d' = Ok sc)"
  using dtype_depth_antimono [OF _ assms] schema_depth_antimono [OF _ assms] by blast

theorem typing_depth_antimono_witness:
  "dtype_depth (Alias (Lit (LBool True)) ''a'') [] 7 = Ok Bool
   \<and> schema_depth (Distinct (Scan ''t'' None [])) 3 = Ok []"
  using typing_depth_antimono [of 7 255 "Alias (Lit (LBool True)) ''a''" "[]" Bool "Scan ''t'' None []" "[]"]
    typing_depth_antimono [of 3 255 "Lit LNull" "[]" Bool "Distinct (Scan ''t'' None [])" "[]"]
  by (simp add: MAX_RECURSION_DEPTH_def)

text \<open>C14: the depth limit does not apply to operators: a chain of \<open>n\<close>
  additions type-checks for every \<open>n\<close>, because the operands of a binary operator are checked
  from depth 0 again, while a chain of aliases is rejected as soon as it is deeper than the
  limit.\<close>

theorem depth_limit_skips_binary:
  "expr_dtype (add_chain n) s = Ok Int64
   \<and> expr_dtype (alias_chain n) s = (if n \<le> MAX_RECURSION_DEPTH then Ok Int64 else Err TypeErr)"
  using add_chain_dtype [of n s] by (simp add: expr_dtype_def alias_chain_dtype)

text \<open>C13: numeric unification is a join on the numeric types: it is
  idempotent, commutative and associative, and it fails exactly when an operand is not
  numeric.\<close>

theorem unify_numeric_lattice:
  "(unify_numeric a b = Err TypeErr \<longleftrightarrow> \<not> (is_numeric a \<and> is_numeric b))
   \<and> unify_numeric a b = unify_numeric b a
   \<and> (is_numeric a \<longrightarrow> unify_numeric a a = Ok a)
   \<and> bindR (unify_numeric a b) (\<lambda>t. unify_numeric t c)
     = bindR (unify_numeric b c) (\<lambda>t. unify_numeric a t)"
  by (cases a; cases b; cases c;
      simp add: unify_numeric_def is_numeric_def is_int_def is_float_def Let_def)

theorem unify_numeric_lattice_witness: "unify_numeric Float32 Float32 = Ok Float32"
  using unify_numeric_lattice [of Float32 Int32 Int64]
  by (simp add: is_numeric_def is_float_def)

end
