(* ===== verification/Floats.thy ===== *)
theory Floats
  imports Complex_Main Prelude
begin

text \<open>
  The IEEE-754 arithmetic that Rust's \<^verbatim>\<open>f32\<close> and \<^verbatim>\<open>f64\<close> provide, on bit patterns.
  A format is given by its number of fraction bits \<open>m\<close> and exponent bits \<open>w\<close>;
  \<open>fp_decode\<close> reads a pattern as NaN, an infinity or a signed rational magnitude and
  \<open>fp_encode\<close> rounds a rational to nearest, ties to even.  Rust leaves the sign and
  payload of a NaN result unspecified; here it is the canonical quiet NaN.
\<close>

datatype fp = NaN | Inf bool | Fin bool rat

definition pow2 :: "int \<Rightarrow> rat" where
  "pow2 k = (if k \<ge> 0 then 2 ^ nat k else 1 / 2 ^ nat (- k))"

definition fp_decode :: "nat \<Rightarrow> nat \<Rightarrow> int \<Rightarrow> fp" where
  "fp_decode m w n =
    (let s = odd (n div 2 ^ (m + w));
         e = (n div 2 ^ m) mod 2 ^ w;
         f = n mod 2 ^ m;
         emin = 2 - 2 ^ (w - 1)
     in if e = 2 ^ w - 1 then (if f = 0 then Inf s else NaN)
        else if e = 0 then Fin s (of_int f * pow2 (emin - int m))
        else Fin s (of_int (2 ^ m + f) * pow2 (emin - int m + e - 1)))"

definition round_half_even :: "rat \<Rightarrow> int" where
  "round_half_even x =
    (let f = \<lfloor>x\<rfloor>; r = x - of_int f
     in if r < 1 / 2 then f else if r > 1 / 2 then f + 1 else if even f then f else f + 1)"

function bit_length :: "int \<Rightarrow> int" where
  "bit_length n = (if n \<le> 0 then 0 else 1 + bit_length (n div 2))"
  by pat_completeness auto
termination by (relation "measure nat") auto

declare bit_length.simps [simp del]

text \<open>The exponent \<open>k\<close> with \<open>2\<^sup>k \<le> x < 2\<^sup>k\<^sup>+\<^sup>1\<close> of a positive rational.\<close>

definition rat_log2 :: "rat \<Rightarrow> int" where
  "rat_log2 x =
    (let (a, b) = quotient_of x; k = bit_length a - bit_length b
     in if pow2 k \<le> x then k else k - 1)"

definition inf_bits :: "nat \<Rightarrow> nat \<Rightarrow> int" where
  "inf_bits m w = (2 ^ w - 1) * 2 ^ m"

definition round_magnitude :: "nat \<Rightarrow> nat \<Rightarrow> rat \<Rightarrow> int" where
  "round_magnitude m w x =
    (if x \<le> 0 then 0
     else let emin = 2 - 2 ^ (w - 1);
              e = max emin (rat_log2 x);
              n = round_half_even (x / pow2 (e - int m))
          in min ((e - emin) * 2 ^ m + n) (inf_bits m w))"

fun fp_encode :: "nat \<Rightarrow> nat \<Rightarrow> fp \<Rightarrow> int" where
  "fp_encode m w NaN = inf_bits m w + 2 ^ (m - 1)"
| "fp_encode m w (Inf s) = (if s then 2 ^ (m + w) else 0) + inf_bits m w"
| "fp_encode m w (Fin s x) = (if s then 2 ^ (m + w) else 0) + round_magnitude m w x"

fun fp_val :: "fp \<Rightarrow> rat" where
  "fp_val (Fin s x) = (if s then - x else x)"
| "fp_val _ = 0"

fun fp_class :: "fp \<Rightarrow> int" where
  "fp_class (Inf s) = (if s then - 1 else 1)"
| "fp_class _ = 0"

definition fp_is_nan :: "fp \<Rightarrow> bool" where "fp_is_nan a \<longleftrightarrow> a = NaN"

fun fp_is_finite :: "fp \<Rightarrow> bool" where
  "fp_is_finite (Fin _ _) = True"
| "fp_is_finite _ = False"

definition fp_eq :: "fp \<Rightarrow> fp \<Rightarrow> bool" where
  "fp_eq a b \<longleftrightarrow> a \<noteq> NaN \<and> b \<noteq> NaN \<and> fp_class a = fp_class b \<and> fp_val a = fp_val b"

definition fp_lt :: "fp \<Rightarrow> fp \<Rightarrow> bool" where
  "fp_lt a b \<longleftrightarrow> a \<noteq> NaN \<and> b \<noteq> NaN
    \<and> (fp_class a < fp_class b \<or> fp_class a = fp_class b \<and> fp_val a < fp_val b)"

definition fp_le :: "fp \<Rightarrow> fp \<Rightarrow> bool" where
  "fp_le a b \<longleftrightarrow> fp_lt a b \<or> fp_eq a b"

definition fp_of_rat :: "bool \<Rightarrow> rat \<Rightarrow> fp" where
  "fp_of_rat zero_sign x = (if x = 0 then Fin zero_sign 0 else Fin (x < 0) \<bar>x\<bar>)"

fun fp_neg :: "fp \<Rightarrow> fp" where
  "fp_neg NaN = NaN"
| "fp_neg (Inf s) = Inf (\<not> s)"
| "fp_neg (Fin s x) = Fin (\<not> s) x"

fun fp_add :: "fp \<Rightarrow> fp \<Rightarrow> fp" where
  "fp_add NaN _ = NaN"
| "fp_add (Inf s) NaN = NaN"
| "fp_add (Fin s x) NaN = NaN"
| "fp_add (Inf s) (Inf t) = (if s = t then Inf s else NaN)"
| "fp_add (Inf s) (Fin t y) = Inf s"
| "fp_add (Fin s x) (Inf t) = Inf t"
| "fp_add (Fin s x) (Fin t y) = fp_of_rat (s \<and> t) (fp_val (Fin s x) + fp_val (Fin t y))"

definition fp_sub :: "fp \<Rightarrow> fp \<Rightarrow> fp" where
  "fp_sub a b = fp_add a (fp_neg b)"

fun fp_mul :: "fp \<Rightarrow> fp \<Rightarrow> fp" where
  "fp_mul NaN _ = NaN"
| "fp_mul (Inf s) NaN = NaN"
| "fp_mul (Fin s x) NaN = NaN"
| "fp_mul (Inf s) (Inf t) = Inf (s \<noteq> t)"
| "fp_mul (Inf s) (Fin t y) = (if y = 0 then NaN else Inf (s \<noteq> t))"
| "fp_mul (Fin s x) (Inf t) = (if x = 0 then NaN else Inf (s \<noteq> t))"
| "fp_mul (Fin s x) (Fin t y) = Fin (s \<noteq> t) (x * y)"

fun fp_div :: "fp \<Rightarrow> fp \<Rightarrow> fp" where
  "fp_div NaN _ = NaN"
| "fp_div (Inf s) NaN = NaN"
| "fp_div (Fin s x) NaN = NaN"
| "fp_div (Inf s) (Inf t) = NaN"
| "fp_div (Inf s) (Fin t y) = Inf (s \<noteq> t)"
| "fp_div (Fin s x) (Inf t) = Fin (s \<noteq> t) 0"
| "fp_div (Fin s x) (Fin t y) =
    (if y = 0 then (if x = 0 then NaN else Inf (s \<noteq> t)) else Fin (s \<noteq> t) (x / y))"

section \<open>The two formats\<close>

type_synonym f32 = "32 word"
type_synonym f64 = "64 word"

definition f32_dec :: "f32 \<Rightarrow> fp" where "f32_dec x = fp_decode 23 8 (uint x)"
definition f64_dec :: "f64 \<Rightarrow> fp" where "f64_dec x = fp_decode 52 11 (uint x)"
definition f32_enc :: "fp \<Rightarrow> f32" where "f32_enc v = word_of_int (fp_encode 23 8 v)"
definition f64_enc :: "fp \<Rightarrow> f64" where "f64_enc v = word_of_int (fp_encode 52 11 v)"

definition f32_arith :: "(fp \<Rightarrow> fp \<Rightarrow> fp) \<Rightarrow> f32 \<Rightarrow> f32 \<Rightarrow> f32" where
  "f32_arith op a b = f32_enc (op (f32_dec a) (f32_dec b))"

definition f64_arith :: "(fp \<Rightarrow> fp \<Rightarrow> fp) \<Rightarrow> f64 \<Rightarrow> f64 \<Rightarrow> f64" where
  "f64_arith op a b = f64_enc (op (f64_dec a) (f64_dec b))"

text \<open>The conversions of Rust's \<^verbatim>\<open>as\<close>: integer to float rounds to nearest, float to
  integer truncates, saturates and sends NaN to 0.\<close>

definition f32_of_int :: "int \<Rightarrow> f32" where "f32_of_int i = f32_enc (fp_of_rat False (of_int i))"
definition f64_of_int :: "int \<Rightarrow> f64" where "f64_of_int i = f64_enc (fp_of_rat False (of_int i))"
definition f64_of_f32 :: "f32 \<Rightarrow> f64" where "f64_of_f32 x = f64_enc (f32_dec x)"
definition f32_of_f64 :: "f64 \<Rightarrow> f32" where "f32_of_f64 x = f32_enc (f64_dec x)"

definition rat_trunc :: "rat \<Rightarrow> int" where
  "rat_trunc x = (if x < 0 then - \<lfloor>- x\<rfloor> else \<lfloor>x\<rfloor>)"

definition fp_as_int :: "nat \<Rightarrow> fp \<Rightarrow> int" where
  "fp_as_int bits a =
    (let lo = - (2 ^ (bits - 1)); hi = 2 ^ (bits - 1) - 1
     in case a of
          NaN \<Rightarrow> 0
        | Inf s \<Rightarrow> if s then lo else hi
        | Fin s x \<Rightarrow> max lo (min hi (rat_trunc (fp_val a))))"

lemma fp_as_int_bounds: "- (2 ^ (bits - 1)) \<le> fp_as_int bits a \<and> fp_as_int bits a \<le> 2 ^ (bits - 1) - 1"
proof -
  have "(1::int) \<le> 2 ^ (bits - 1)" by simp
  then show ?thesis by (auto simp: fp_as_int_def Let_def split: fp.splits)
qed

lemma fp_eq_sym: "fp_eq a b = fp_eq b a" by (auto simp: fp_eq_def)

lemma fp_eq_trans: "fp_eq a b \<Longrightarrow> fp_eq b c \<Longrightarrow> fp_eq a c" by (auto simp: fp_eq_def)

lemma fp_lt_irrefl: "\<not> fp_lt a a" by (auto simp: fp_lt_def)

lemma fp_lt_trans: "fp_lt a b \<Longrightarrow> fp_lt b c \<Longrightarrow> fp_lt a c" by (auto simp: fp_lt_def)

lemma fp_trichotomy: "a \<noteq> NaN \<Longrightarrow> b \<noteq> NaN \<Longrightarrow> fp_lt a b \<or> fp_eq a b \<or> fp_lt b a"
  by (auto simp: fp_lt_def fp_eq_def)

end
