(* ===== verification/Like_Match.thy ===== *)
theory Like_Match
  imports Prelude
begin

text \<open>
  SQL \<^verbatim>\<open>LIKE\<close> and \<^verbatim>\<open>ILIKE\<close> of \<^verbatim>\<open>exec/like.rs\<close>: pattern compilation with its
  fast-path shapes (\<open>classify\<close>), the tokeniser with escape handling, and the
  two-pointer matcher with a single backtrack point (\<open>match_loop\<close>, over the same
  indices as the source).  \<open>like_sem\<close> is the declarative meaning of a pattern;
  every shape and the greedy loop are proved equivalent to it, and the loop is
  shown to terminate.
\<close>

section \<open>The matcher\<close>

text \<open>\<^verbatim>\<open>char::to_lowercase\<close> on U+0000 to U+00FF, where it is a single character.\<close>

definition char_to_lowercase :: "char \<Rightarrow> char" where
  "char_to_lowercase c =
    (let n = of_char c :: nat
     in if 65 \<le> n \<and> n \<le> 90 \<or> 192 \<le> n \<and> n \<le> 222 \<and> n \<noteq> 215 then char_of (n + 32) else c)"

definition chars_eq_ci :: "char \<Rightarrow> char \<Rightarrow> bool" where
  "chars_eq_ci a b \<longleftrightarrow> a = b \<or> char_to_lowercase a = char_to_lowercase b"

definition char_hit :: "bool \<Rightarrow> char \<Rightarrow> char \<Rightarrow> bool" where
  "char_hit ci a b \<longleftrightarrow> (if ci then chars_eq_ci a b else a = b)"

datatype Token = TLit string | One | Any

datatype Shape =
    Exact string
  | Prefix string
  | Suffix string
  | Contains string
  | Generic "Token list"

record PatternMatcher =
  shape :: Shape
  case_insensitive :: bool

definition flush :: "string \<Rightarrow> Token list \<Rightarrow> Token list" where
  "flush buf out = (if buf = [] then out else out @ [TLit buf])"

fun tokenise_go :: "char option \<Rightarrow> string \<Rightarrow> string \<Rightarrow> Token list \<Rightarrow> Token list BoltResult" where
  "tokenise_go esc [] buf out = Ok (flush buf out)"
| "tokenise_go esc (ch # rest) buf out =
    (if esc = Some ch then
       (case rest of
          [] \<Rightarrow> Err PlanErr
        | nxt # rest' \<Rightarrow> tokenise_go esc rest' (buf @ [nxt]) out)
     else if ch = CHR ''%'' then
       (let out' = flush buf out
        in tokenise_go esc rest [] (if out' \<noteq> [] \<and> last out' = Any then out' else out' @ [Any]))
     else if ch = CHR ''_'' then tokenise_go esc rest [] (flush buf out @ [One])
     else tokenise_go esc rest (buf @ [ch]) out)"

definition tokenise :: "string \<Rightarrow> char option \<Rightarrow> Token list BoltResult" where
  "tokenise pattern esc = tokenise_go esc pattern [] []"

definition generic_shape :: "string \<Rightarrow> char option \<Rightarrow> Shape BoltResult" where
  "generic_shape pattern esc = bindR (tokenise pattern esc) (\<lambda>ts. Ok (Generic ts))"

definition classify :: "string \<Rightarrow> char option \<Rightarrow> Shape BoltResult" where
  "classify pattern esc =
    (if (case esc of Some c \<Rightarrow> c \<in> set pattern | None \<Rightarrow> False) then generic_shape pattern esc
     else if CHR ''_'' \<in> set pattern then generic_shape pattern esc
     else let n_pct = length (filter (\<lambda>c. c = CHR ''%'') pattern) in
       if n_pct = 0 then Ok (Exact pattern)
       else if n_pct = 1 then
         (if last pattern = CHR ''%'' then Ok (Prefix (butlast pattern))
          else if hd pattern = CHR ''%'' then Ok (Suffix (tl pattern))
          else generic_shape pattern esc)
       else if n_pct = 2 \<and> hd pattern = CHR ''%'' \<and> last (tl pattern) = CHR ''%''
       then Ok (Contains (butlast (tl pattern)))
       else generic_shape pattern esc)"

definition compile_ci :: "string \<Rightarrow> char option \<Rightarrow> bool \<Rightarrow> PatternMatcher BoltResult" where
  "compile_ci pattern esc ci =
    (if esc = Some (CHR ''%'') \<or> esc = Some (CHR ''_'') then Err PlanErr
     else bindR (if ci then generic_shape pattern esc else classify pattern esc)
            (\<lambda>sh. Ok \<lparr>shape = sh, case_insensitive = ci\<rparr>))"

definition compile :: "string \<Rightarrow> char option \<Rightarrow> PatternMatcher BoltResult" where
  "compile pattern esc = compile_ci pattern esc False"

fun lit_at :: "bool \<Rightarrow> string \<Rightarrow> nat \<Rightarrow> string \<Rightarrow> bool" where
  "lit_at ci cs k [] = True"
| "lit_at ci cs k (l # ls) = (k < length cs \<and> char_hit ci (cs ! k) l \<and> lit_at ci cs (k + 1) ls)"

fun lit_hit :: "bool \<Rightarrow> string \<Rightarrow> nat \<Rightarrow> Token \<Rightarrow> bool" where
  "lit_hit ci cs k (TLit l) = lit_at ci cs k l"
| "lit_hit ci cs k _ = False"

fun token_width :: "Token \<Rightarrow> nat" where
  "token_width (TLit l) = length l"
| "token_width One = 1"
| "token_width Any = 0"

text \<open>The loop of \<^verbatim>\<open>generic_match\<close> on its four mutable variables: the input position
  \<open>si\<close>, the token position \<open>ti\<close>, the token after the last \<open>Any\<close> (\<open>star\<close>) and the input
  position it resumes from (\<open>ss\<close>).\<close>

function match_loop ::
  "bool \<Rightarrow> string \<Rightarrow> Token list \<Rightarrow> nat \<Rightarrow> nat \<Rightarrow> nat option \<Rightarrow> nat \<Rightarrow> bool" where
  "match_loop ci cs ts si ti star ss =
    (if ti < length ts \<and> ts ! ti = Any
     then match_loop ci cs ts si (ti + 1) (Some (ti + 1)) si
     else if ti < length ts \<and> ts ! ti = One \<and> si < length cs
     then match_loop ci cs ts (si + 1) (ti + 1) star ss
     else if ti < length ts \<and> lit_hit ci cs si (ts ! ti)
     then match_loop ci cs ts (si + token_width (ts ! ti)) (ti + 1) star ss
     else if ti \<ge> length ts \<and> si = length cs then True
     else (case star of
             Some tok \<Rightarrow> if ss < length cs then match_loop ci cs ts (ss + 1) tok star (ss + 1) else False
           | None \<Rightarrow> False))"
  by pat_completeness auto
termination
proof (relation "measures [
    (\<lambda>(ci, cs, ts, si, ti, star, ss).
       case star of None \<Rightarrow> length ts - ti + 1
                  | Some tok \<Rightarrow> max (length ts - ti) (length ts - tok + 1)),
    (\<lambda>(ci, cs, ts, si, ti, star, ss).
       case star of None \<Rightarrow> 0 | Some tok \<Rightarrow> if length ts - ti > length ts - tok then 1 else 0),
    (\<lambda>(ci, cs, ts, si, ti, star, ss). length cs - ss),
    (\<lambda>(ci, cs, ts, si, ti, star, ss). length ts - ti)]", goal_cases)
qed (auto split: option.splits simp: max_def)

declare match_loop.simps [simp del]

definition generic_match :: "string \<Rightarrow> Token list \<Rightarrow> bool \<Rightarrow> bool" where
  "generic_match s ts ci = match_loop ci s ts 0 0 None 0"

fun starts_with :: "string \<Rightarrow> string \<Rightarrow> bool" where
  "starts_with s [] = True"
| "starts_with [] (p # ps) = False"
| "starts_with (c # s) (p # ps) = (c = p \<and> starts_with s ps)"

definition ends_with :: "string \<Rightarrow> string \<Rightarrow> bool" where
  "ends_with s p = starts_with (rev s) (rev p)"

fun contains :: "string \<Rightarrow> string \<Rightarrow> bool" where
  "contains [] p = (p = [])"
| "contains (c # s) p = (starts_with (c # s) p \<or> contains s p)"

definition matches :: "PatternMatcher \<Rightarrow> string \<Rightarrow> bool" where
  "matches m s =
    (case shape m of
       Exact p \<Rightarrow> s = p
     | Prefix p \<Rightarrow> starts_with s p
     | Suffix p \<Rightarrow> ends_with s p
     | Contains p \<Rightarrow> contains s p
     | Generic ts \<Rightarrow> generic_match s ts (case_insensitive m))"

definition host_like ::
  "string option list \<Rightarrow> string \<Rightarrow> char option \<Rightarrow> bool \<Rightarrow> bool option list BoltResult" where
  "host_like col pattern esc negated =
    bindR (compile pattern esc) (\<lambda>m.
    Ok (map (map_option (\<lambda>s. if negated then \<not> matches m s else matches m s)) col))"

section \<open>Declarative meaning of a pattern\<close>

function like_sem :: "bool \<Rightarrow> char option \<Rightarrow> string \<Rightarrow> string \<Rightarrow> bool" where
  "like_sem ci esc [] s = (s = [])"
| "like_sem ci esc (c # p) s =
    (if esc = Some c then
       (case p of
          [] \<Rightarrow> False
        | d # p' \<Rightarrow> s \<noteq> [] \<and> char_hit ci (hd s) d \<and> like_sem ci esc p' (tl s))
     else if c = CHR ''%'' then
       like_sem ci esc p s \<or> (if s = [] then False else like_sem ci esc (c # p) (tl s))
     else if c = CHR ''_'' then (if s = [] then False else like_sem ci esc p (tl s))
     else s \<noteq> [] \<and> char_hit ci (hd s) c \<and> like_sem ci esc p (tl s))"
  by pat_completeness auto
termination by (relation "measure (\<lambda>(ci, esc, p, s). length p + length s)") auto

section \<open>Tokens\<close>

fun tspec :: "bool \<Rightarrow> Token list \<Rightarrow> string \<Rightarrow> bool" where
  "tspec ci [] s = (s = [])"
| "tspec ci (One # ts) s = (s \<noteq> [] \<and> tspec ci ts (tl s))"
| "tspec ci (TLit l # ts) s =
    (length l \<le> length s \<and> list_all2 (char_hit ci) (take (length l) s) l \<and> tspec ci ts (drop (length l) s))"
| "tspec ci (Any # ts) s = (\<exists>k\<le>length s. tspec ci ts (drop k s))"

abbreviation width :: "Token list \<Rightarrow> nat" where
  "width ts \<equiv> sum_list (map token_width ts)"

lemma lit_at_iff:
  "k \<le> length cs \<Longrightarrow> lit_at ci cs k l \<longleftrightarrow>
    length l \<le> length (drop k cs) \<and> list_all2 (char_hit ci) (take (length l) (drop k cs)) l"
proof (induction l arbitrary: k)
  case (Cons c l)
  show ?case
  proof (cases "k < length cs")
    case True
    then have "drop k cs = cs ! k # drop (k + 1) cs" by (simp add: Cons_nth_drop_Suc)
    then show ?thesis using Cons.IH [of "k + 1"] True by auto
  next
    case False
    then show ?thesis by auto
  qed
qed simp

lemma tspec_Any_free:
  assumes "Any \<notin> set mid" "tspec ci (mid @ rest) s"
  shows "width mid \<le> length s \<and> tspec ci rest (drop (width mid) s)"
  using assms
proof (induction mid arbitrary: s)
  case (Cons t mid)
  have step: "t \<noteq> Any" "Any \<notin> set mid" using Cons.prems(1) by auto
  show ?case
  proof (cases t)
    case (TLit l)
    then have "length l \<le> length s" "tspec ci (mid @ rest) (drop (length l) s)"
      using Cons.prems(2) by auto
    then show ?thesis using Cons.IH [OF step(2)] TLit by (fastforce simp: add.commute)
  next
    case One
    then have "s \<noteq> []" "tspec ci (mid @ rest) (tl s)" using Cons.prems(2) by auto
    then show ?thesis using Cons.IH [OF step(2), of "tl s"] One
      by (cases s) auto
  qed (use step in simp)
qed simp

lemma tspec_Any_later:
  assumes "tspec ci (Any # ts) (drop j s)" "i \<le> j"
  shows "tspec ci (Any # ts) (drop i s)"
proof -
  obtain k where "tspec ci ts (drop k (drop j s))" "k \<le> length s - j" using assms(1) by auto
  then have "tspec ci ts (drop (k + (j - i)) (drop i s))" using assms(2) by (simp add: add.commute)
  moreover have "drop (k + (j - i)) (drop i s) = drop (min (k + (j - i)) (length (drop i s))) (drop i s)"
    by (cases "k + (j - i) \<le> length (drop i s)") (auto simp: min_def)
  ultimately show ?thesis by (metis min.cobounded2 tspec.simps(4))
qed

lemma tspec_Any_split:
  assumes "i \<le> length s"
  shows "tspec ci (Any # ts) (drop i s) \<longleftrightarrow>
    tspec ci ts (drop i s) \<or> (\<exists>k. i < k \<and> k \<le> length s \<and> tspec ci ts (drop k s))"
proof
  assume "tspec ci (Any # ts) (drop i s)"
  then obtain k where k: "k \<le> length s - i" "tspec ci ts (drop (i + k) s)"
    by (auto simp: add.commute)
  then show "tspec ci ts (drop i s) \<or> (\<exists>k. i < k \<and> k \<le> length s \<and> tspec ci ts (drop k s))"
    using assms by (cases k) (auto intro!: exI [of _ "i + k"])
next
  assume "tspec ci ts (drop i s) \<or> (\<exists>k. i < k \<and> k \<le> length s \<and> tspec ci ts (drop k s))"
  then show "tspec ci (Any # ts) (drop i s)"
  proof
    assume "tspec ci ts (drop i s)"
    then show ?thesis by (auto intro!: exI [of _ 0])
  next
    assume "\<exists>k. i < k \<and> k \<le> length s \<and> tspec ci ts (drop k s)"
    then obtain k where "i < k" "k \<le> length s" "tspec ci ts (drop k s)" by blast
    then show ?thesis by (auto intro!: exI [of _ "k - i"])
  qed
qed

text \<open>The state the loop can be in: between the last \<open>Any\<close> and the current token there
  are only tokens of fixed width, and they account for the distance from the resume
  position to the current position.\<close>

definition star_inv :: "Token list \<Rightarrow> nat \<Rightarrow> nat \<Rightarrow> nat option \<Rightarrow> nat \<Rightarrow> bool" where
  "star_inv ts si ti star ss \<longleftrightarrow>
    (case star of
       None \<Rightarrow> True
     | Some tok \<Rightarrow> tok \<le> ti \<and> ti \<le> length ts
         \<and> Any \<notin> set (take (ti - tok) (drop tok ts))
         \<and> si = ss + width (take (ti - tok) (drop tok ts)))"

definition star_rest :: "bool \<Rightarrow> string \<Rightarrow> Token list \<Rightarrow> nat option \<Rightarrow> nat \<Rightarrow> bool" where
  "star_rest ci cs ts star ss \<longleftrightarrow>
    (case star of
       None \<Rightarrow> False
     | Some tok \<Rightarrow> \<exists>k. ss < k \<and> k \<le> length cs \<and> tspec ci (drop tok ts) (drop k cs))"

lemma star_inv_step:
  assumes "star_inv ts si ti star ss" "ti < length ts" "ts ! ti \<noteq> Any"
  shows "star_inv ts (si + token_width (ts ! ti)) (ti + 1) star ss"
proof (cases star)
  case (Some tok)
  then have le: "tok \<le> ti" using assms(1) by (simp add: star_inv_def)
  then have "take (ti + 1 - tok) (drop tok ts) = take (ti - tok) (drop tok ts) @ [ts ! ti]"
    using assms(2) by (simp add: Suc_diff_le take_Suc_conv_app_nth)
  then show ?thesis using assms Some by (auto simp: star_inv_def)
qed (simp add: star_inv_def)

lemma star_rest_Any:
  assumes inv: "star_inv ts si ti star ss" and ti: "ti < length ts" "ts ! ti = Any"
    and rest: "star_rest ci cs ts star ss"
  shows "tspec ci (drop ti ts) (drop si cs)"
proof -
  obtain tok k where tok: "star = Some tok" and k: "ss < k" "tspec ci (drop tok ts) (drop k cs)"
    using rest by (auto simp: star_rest_def split: option.splits)
  define mid where "mid = take (ti - tok) (drop tok ts)"
  have "tok \<le> ti" using inv tok by (simp add: star_inv_def)
  then have split: "drop tok ts = mid @ drop ti ts"
    by (simp add: mid_def) (metis append_take_drop_id drop_drop le_add_diff_inverse2)
  have si: "si = ss + width mid" and free: "Any \<notin> set mid"
    using inv tok by (auto simp: star_inv_def mid_def)
  have "tspec ci (drop ti ts) (drop (width mid) (drop k cs))"
    using tspec_Any_free [OF free] k(2) split by metis
  moreover have "drop ti ts = Any # drop (ti + 1) ts" using ti by (metis Cons_nth_drop_Suc Suc_eq_plus1)
  ultimately show ?thesis using tspec_Any_later [of ci "drop (ti + 1) ts" "width mid + k" cs si] si k(1)
    by (simp add: add.commute)
qed

lemma match_loop_correct:
  assumes "si \<le> length cs" "star_inv ts si ti star ss"
  shows "match_loop ci cs ts si ti star ss \<longleftrightarrow>
    tspec ci (drop ti ts) (drop si cs) \<or> star_rest ci cs ts star ss"
  using assms
proof (induction ci cs ts si ti star ss rule: match_loop.induct)
  case (1 ci cs ts si ti star ss)
  consider (any) "ti < length ts" "ts ! ti = Any"
    | (one) "ti < length ts" "ts ! ti = One" "si < length cs"
    | (lit) l where "ti < length ts" "ts ! ti = TLit l" "lit_at ci cs si l"
    | (finish) "length ts \<le> ti" "si = length cs"
    | (fail) "\<not> (ti < length ts \<and> ts ! ti = Any)" "\<not> (ti < length ts \<and> ts ! ti = One \<and> si < length cs)"
        "\<not> (ti < length ts \<and> lit_hit ci cs si (ts ! ti))" "\<not> (length ts \<le> ti \<and> si = length cs)"
    by (metis (no_types, lifting) lit_hit.elims(2) linorder_not_less)
  then show ?case
  proof cases
    case any
    then have dr: "drop ti ts = Any # drop (ti + 1) ts" by (metis Cons_nth_drop_Suc Suc_eq_plus1)
    have "match_loop ci cs ts si ti star ss \<longleftrightarrow>
        tspec ci (drop (ti + 1) ts) (drop si cs) \<or> star_rest ci cs ts (Some (ti + 1)) si"
      using 1(1) [OF _ "1.prems"(1)] any by (subst match_loop.simps) (simp add: star_inv_def)
    also have "\<dots> \<longleftrightarrow> tspec ci (drop ti ts) (drop si cs)"
      using tspec_Any_split [OF "1.prems"(1)] dr by (simp add: star_rest_def)
    finally show ?thesis using star_rest_Any [OF "1.prems"(2) any] by blast
  next
    case one
    then have dr: "drop ti ts = One # drop (ti + 1) ts" by (metis Cons_nth_drop_Suc Suc_eq_plus1)
    have inv: "star_inv ts (si + 1) (ti + 1) star ss"
      using star_inv_step [OF "1.prems"(2) one(1)] one by simp
    have "match_loop ci cs ts si ti star ss \<longleftrightarrow>
        tspec ci (drop (ti + 1) ts) (drop (si + 1) cs) \<or> star_rest ci cs ts star ss"
      using 1(2) [OF _ _ _ inv] one by (subst match_loop.simps) simp
    then show ?thesis using dr one(3) by (simp add: drop_Suc tl_drop)
  next
    case lit
    then have dr: "drop ti ts = TLit l # drop (ti + 1) ts" by (metis Cons_nth_drop_Suc Suc_eq_plus1)
    have inv: "star_inv ts (si + length l) (ti + 1) star ss"
      using star_inv_step [OF "1.prems"(2) lit(1)] lit by simp
    have at: "length l \<le> length (drop si cs) \<and> list_all2 (char_hit ci) (take (length l) (drop si cs)) l"
      using lit(3) lit_at_iff [OF "1.prems"(1)] by blast
    have "match_loop ci cs ts si ti star ss \<longleftrightarrow>
        tspec ci (drop (ti + 1) ts) (drop (si + length l) cs) \<or> star_rest ci cs ts star ss"
      using 1(3) inv lit at "1.prems"(1) by (subst match_loop.simps) auto
    then show ?thesis using dr at by (simp add: add.commute)
  next
    case finish
    then show ?thesis by (subst match_loop.simps) simp
  next
    case fail
    have resume: "match_loop ci cs ts si ti star ss = (case star of
        Some tok \<Rightarrow> if ss < length cs then match_loop ci cs ts (ss + 1) tok star (ss + 1) else False
      | None \<Rightarrow> False)"
      by (subst match_loop.simps) (simp only: fail if_False)
    have no: "\<not> tspec ci (drop ti ts) (drop si cs)"
    proof (cases "ti < length ts")
      case True
      then have "drop ti ts = ts ! ti # drop (ti + 1) ts" by (metis Cons_nth_drop_Suc Suc_eq_plus1)
      then show ?thesis using fail True lit_at_iff [OF "1.prems"(1)] by (cases "ts ! ti") auto
    next
      case False
      then show ?thesis using fail "1.prems"(1) by simp
    qed
    show ?thesis
    proof (cases star)
      case None
      then show ?thesis using resume no by (simp add: star_rest_def)
    next
      case (Some tok)
      have inv: "star_inv ts (ss + 1) tok star (ss + 1)"
        using "1.prems"(2) Some by (auto simp: star_inv_def)
      show ?thesis
      proof (cases "ss < length cs")
        case True
        have "match_loop ci cs ts si ti star ss \<longleftrightarrow>
            tspec ci (drop tok ts) (drop (ss + 1) cs) \<or> star_rest ci cs ts star (ss + 1)"
          using 1(4) [OF _ _ _ _ Some True] inv True fail resume Some by simp
        also have "\<dots> \<longleftrightarrow> star_rest ci cs ts star ss"
          using True Some
          by (simp add: star_rest_def) (metis Suc_leI Suc_lessD Suc_lessI lessI)
        finally show ?thesis using no by blast
      next
        case False
        then show ?thesis using resume no Some by (auto simp: star_rest_def)
      qed
    qed
  qed
qed

lemma generic_match_correct: "generic_match s ts ci \<longleftrightarrow> tspec ci ts s"
  unfolding generic_match_def
  by (subst match_loop_correct) (simp_all add: star_inv_def star_rest_def)

lemma tspec_TLit: "tspec ci (TLit l # ts) s \<longleftrightarrow> (\<exists>u v. s = u @ v \<and> list_all2 (char_hit ci) u l \<and> tspec ci ts v)"
proof
  assume "tspec ci (TLit l # ts) s"
  then show "\<exists>u v. s = u @ v \<and> list_all2 (char_hit ci) u l \<and> tspec ci ts v"
    by (intro exI [of _ "take (length l) s"] exI [of _ "drop (length l) s"]) simp
next
  assume "\<exists>u v. s = u @ v \<and> list_all2 (char_hit ci) u l \<and> tspec ci ts v"
  then obtain u v where "s = u @ v" "list_all2 (char_hit ci) u l" "tspec ci ts v" by blast
  moreover from this have "length l = length u" by (simp add: list_all2_lengthD)
  ultimately show "tspec ci (TLit l # ts) s" by simp
qed

lemma tspec_Any: "tspec ci (Any # ts) s \<longleftrightarrow> (\<exists>u v. s = u @ v \<and> tspec ci ts v)"
proof
  assume "tspec ci (Any # ts) s"
  then obtain k where "tspec ci ts (drop k s)" by auto
  then show "\<exists>u v. s = u @ v \<and> tspec ci ts v"
    by (intro exI [of _ "take k s"] exI [of _ "drop k s"]) simp
next
  assume "\<exists>u v. s = u @ v \<and> tspec ci ts v"
  then obtain u v where "s = u @ v" "tspec ci ts v" by blast
  then show "tspec ci (Any # ts) s" by (auto intro!: exI [of _ "length u"])
qed

lemma tspec_One: "tspec ci (One # ts) s \<longleftrightarrow> (\<exists>x v. s = x # v \<and> tspec ci ts v)"
  by (cases s) auto

declare tspec.simps [simp del]

lemmas tspec_rules [simp] = tspec.simps(1) tspec_TLit tspec_Any tspec_One

lemma tspec_append:
  "tspec ci (xs @ ys) s \<longleftrightarrow> (\<exists>u v. s = u @ v \<and> tspec ci xs u \<and> tspec ci ys v)"
proof (induction xs arbitrary: s)
  case (Cons t xs)
  then show ?case
    by (cases t) (simp_all,
        (metis append.assoc append_Cons)+)
qed simp

lemma list_all2_snoc2:
  "list_all2 P b (xs @ [c]) \<longleftrightarrow> (\<exists>b' x. b = b' @ [x] \<and> list_all2 P b' xs \<and> P x c)"
proof (cases b rule: rev_cases)
  case (snoc b' x)
  then show ?thesis using list_all2_rev [of P "b' @ [x]" "xs @ [c]"] list_all2_rev [of P b' xs] by auto
qed simp

lemma flush_append:
  "tspec ci (flush (buf @ [c]) out) u \<longleftrightarrow>
    (\<exists>v x. u = v @ [x] \<and> tspec ci (flush buf out) v \<and> char_hit ci x c)"
proof (cases "buf = []")
  case True
  then show ?thesis
    by (auto simp: flush_def tspec_append tspec_TLit list_all2_Cons2)
next
  case False
  then have "tspec ci (flush (buf @ [c]) out) u \<longleftrightarrow>
      (\<exists>a b. u = a @ b \<and> tspec ci out a \<and> (\<exists>b' x. b = b' @ [x] \<and> list_all2 (char_hit ci) b' buf \<and> char_hit ci x c))"
    by (simp add: flush_def tspec_append list_all2_snoc2)
  also have "\<dots> \<longleftrightarrow> (\<exists>v x. u = v @ [x] \<and> tspec ci (flush buf out) v \<and> char_hit ci x c)"
    using False by (simp add: flush_def tspec_append) (metis append.assoc)
  finally show ?thesis .
qed

lemma like_sem_percent:
  assumes "esc \<noteq> Some (CHR ''%'')"
  shows "like_sem ci esc (CHR ''%'' # p) s \<longleftrightarrow> (\<exists>u v. s = u @ v \<and> like_sem ci esc p v)"
proof (induction s)
  case Nil
  then show ?case using assms by simp
next
  case (Cons x s)
  have "like_sem ci esc (CHR ''%'' # p) (x # s) \<longleftrightarrow>
      like_sem ci esc p (x # s) \<or> like_sem ci esc (CHR ''%'' # p) s" using assms by simp
  also have "\<dots> \<longleftrightarrow> (\<exists>u v. x # s = u @ v \<and> like_sem ci esc p v)"
    unfolding Cons by (metis append_Cons append_Nil append_eq_Cons_conv)
  finally show ?case .
qed

lemma tspec_collapse_Any:
  assumes "out \<noteq> [] \<and> last out = Any"
  shows "tspec ci (out @ [Any]) u \<longleftrightarrow> tspec ci out u"
proof -
  obtain o' where "out = o' @ [Any]" using assms by (metis append_butlast_last_id)
  then show ?thesis by (simp add: tspec_append tspec_rules) 
      (metis append.assoc append_Nil2)
qed

lemma snoc_shift:
  "(\<exists>u v. s = u @ v \<and> (\<exists>w x. u = w @ [x] \<and> A w \<and> H x) \<and> B v) \<longleftrightarrow>
   (\<exists>u v. s = u @ v \<and> A u \<and> (\<exists>x w. v = x # w \<and> H x \<and> B w))"
proof
  assume "\<exists>u v. s = u @ v \<and> (\<exists>w x. u = w @ [x] \<and> A w \<and> H x) \<and> B v"
  then obtain w x v where "s = (w @ [x]) @ v" "A w" "H x" "B v" by blast
  then show "\<exists>u v. s = u @ v \<and> A u \<and> (\<exists>x w. v = x # w \<and> H x \<and> B w)"
    by (intro exI [of _ w] exI [of _ "x # v"]) simp
next
  assume "\<exists>u v. s = u @ v \<and> A u \<and> (\<exists>x w. v = x # w \<and> H x \<and> B w)"
  then obtain u x w where "s = u @ x # w" "A u" "H x" "B w" by blast
  then show "\<exists>u v. s = u @ v \<and> (\<exists>w x. u = w @ [x] \<and> A w \<and> H x) \<and> B v"
    by (intro exI [of _ "u @ [x]"] exI [of _ w]) simp
qed

lemma like_sem_char:
  assumes "esc \<noteq> Some c" "c \<noteq> CHR ''%''" "c \<noteq> CHR ''_''"
  shows "like_sem ci esc (c # p) v \<longleftrightarrow> (\<exists>x w. v = x # w \<and> char_hit ci x c \<and> like_sem ci esc p w)"
  using assms by (cases v) auto

lemma like_sem_escaped:
  "like_sem ci (Some c) (c # d # p) v \<longleftrightarrow>
    (\<exists>x w. v = x # w \<and> char_hit ci x d \<and> like_sem ci (Some c) p w)"
  by (cases v) auto

lemma like_sem_underscore:
  assumes "esc \<noteq> Some (CHR ''_'')"
  shows "like_sem ci esc (CHR ''_'' # p) v \<longleftrightarrow> (\<exists>x w. v = x # w \<and> True \<and> like_sem ci esc p w)"
  using assms by (cases v) auto

lemma tspec_snoc_One: "tspec ci (out @ [One]) u \<longleftrightarrow> (\<exists>w x. u = w @ [x] \<and> tspec ci out w \<and> True)"
  by (auto simp: tspec_append)

lemma flush_Nil [simp]: "flush [] out = out" by (simp add: flush_def)

lemma tokenise_go_correct:
  "tokenise_go esc p buf out = Inr ts \<Longrightarrow>
    tspec ci ts s \<longleftrightarrow> (\<exists>u v. s = u @ v \<and> tspec ci (flush buf out) u \<and> like_sem ci esc p v)"
proof (induction esc p buf out arbitrary: s rule: tokenise_go.induct)
  case (2 esc ch rest buf out)
  consider (esc) nxt rest' where "esc = Some ch" "rest = nxt # rest'"
    | (any) "esc \<noteq> Some ch" "ch = CHR ''%''"
    | (one) "esc \<noteq> Some ch" "ch = CHR ''_''"
    | (plain) "esc \<noteq> Some ch" "ch \<noteq> CHR ''%''" "ch \<noteq> CHR ''_''"
    using "2.prems" by (cases rest) (auto split: if_splits)
  then show ?case
  proof cases
    case esc
    then have "tspec ci ts s \<longleftrightarrow>
        (\<exists>u v. s = u @ v \<and> tspec ci (flush (buf @ [nxt]) out) u \<and> like_sem ci esc rest' v)"
      using 2(1) "2.prems" by simp
    also have "\<dots> \<longleftrightarrow> (\<exists>u v. s = u @ v \<and> tspec ci (flush buf out) u \<and> like_sem ci esc (ch # rest) v)"
      unfolding flush_append snoc_shift using esc like_sem_escaped by simp
    finally show ?thesis .
  next
    case any
    define out' where "out' = flush buf out"
    define out2 where "out2 = (if out' \<noteq> [] \<and> last out' = Any then out' else out' @ [Any])"
    have "tspec ci ts s \<longleftrightarrow> (\<exists>u v. s = u @ v \<and> tspec ci out2 u \<and> like_sem ci esc rest v)"
      using 2(2) "2.prems" any by (simp add: out2_def out'_def Let_def split: if_splits)
    also have "\<dots> \<longleftrightarrow> (\<exists>u v. s = u @ v \<and> tspec ci (out' @ [Any]) u \<and> like_sem ci esc rest v)"
      unfolding out2_def using tspec_collapse_Any by simp
    also have "\<dots> \<longleftrightarrow> (\<exists>u v w. s = u @ v @ w \<and> tspec ci out' u \<and> like_sem ci esc rest w)"
      by (simp add: tspec_append) (metis append.assoc append_Nil2)
    also have "\<dots> \<longleftrightarrow> (\<exists>u v. s = u @ v \<and> tspec ci (flush buf out) u \<and> like_sem ci esc (ch # rest) v)"
      using any like_sem_percent [of esc] by (simp add: out'_def del: like_sem.simps) metis
    finally show ?thesis .
  next
    case one
    then have "tspec ci ts s \<longleftrightarrow>
        (\<exists>u v. s = u @ v \<and> tspec ci (flush buf out @ [One]) u \<and> like_sem ci esc rest v)"
      using 2(3) "2.prems" by simp
    also have "\<dots> \<longleftrightarrow> (\<exists>u v. s = u @ v \<and> tspec ci (flush buf out) u \<and> like_sem ci esc (ch # rest) v)"
      unfolding tspec_snoc_One snoc_shift using one like_sem_underscore [of esc] by simp
    finally show ?thesis .
  next
    case plain
    then have "tspec ci ts s \<longleftrightarrow>
        (\<exists>u v. s = u @ v \<and> tspec ci (flush (buf @ [ch]) out) u \<and> like_sem ci esc rest v)"
      using 2(4) "2.prems" by simp
    also have "\<dots> \<longleftrightarrow> (\<exists>u v. s = u @ v \<and> tspec ci (flush buf out) u \<and> like_sem ci esc (ch # rest) v)"
      unfolding flush_append snoc_shift using like_sem_char [OF plain] by simp
    finally show ?thesis .
  qed
qed auto

lemma tokenise_correct:
  "tokenise p esc = Inr ts \<Longrightarrow> tspec ci ts s \<longleftrightarrow> like_sem ci esc p s"
  using tokenise_go_correct [of esc p "[]" "[]" ts ci s] by (simp add: tokenise_def)

text \<open>Literal stretches of a pattern and the fast-path shapes.\<close>

definition plain_for :: "char option \<Rightarrow> string \<Rightarrow> bool" where
  "plain_for esc p \<longleftrightarrow> (\<forall>c \<in> set p. esc \<noteq> Some c \<and> c \<noteq> CHR ''%'' \<and> c \<noteq> CHR ''_'')"

lemma like_sem_plain:
  assumes "plain_for esc p"
  shows "like_sem False esc (p @ q) s \<longleftrightarrow> (\<exists>v. s = p @ v \<and> like_sem False esc q v)"
  using assms
proof (induction p arbitrary: s)
  case (Cons c p)
  then have "plain_for esc p" "esc \<noteq> Some c" "c \<noteq> CHR ''%''" "c \<noteq> CHR ''_''"
    by (auto simp: plain_for_def)
  then show ?case using Cons.IH by (cases s) (auto simp: char_hit_def)
qed simp

lemma starts_with_iff: "starts_with s p \<longleftrightarrow> (\<exists>v. s = p @ v)"
  by (induction s p rule: starts_with.induct) auto

lemma ends_with_iff: "ends_with s p \<longleftrightarrow> (\<exists>u. s = u @ p)"
  unfolding ends_with_def starts_with_iff
  by (metis rev_append rev_rev_ident)

lemma contains_iff: "contains s p \<longleftrightarrow> (\<exists>u v. s = u @ p @ v)"
proof (induction s)
  case (Cons c s)
  then show ?case
    by (simp add: starts_with_iff) (metis append_Cons append_Nil append_eq_Cons_conv)
qed auto

lemma contains_iff_Nil: "contains [] p \<longleftrightarrow> p = []" by simp

lemma count_pct_zero: "filter (\<lambda>c. c = CHR ''%'') p = [] \<longleftrightarrow> CHR ''%'' \<notin> set p"
  by (auto simp: filter_empty_conv)

lemma plain_forI:
  assumes "CHR ''_'' \<notin> set p" "\<forall>c. esc = Some c \<longrightarrow> c \<notin> set p" "set q \<subseteq> set p"
    and "filter (\<lambda>c. c = CHR ''%'') q = []"
  shows "plain_for esc q"
  using assms unfolding plain_for_def count_pct_zero by blast

lemma classify_correct:
  assumes "classify p esc = Inr sh" "esc \<noteq> Some (CHR ''%'')"
  shows "matches \<lparr>shape = sh, case_insensitive = False\<rparr> s \<longleftrightarrow> like_sem False esc p s"
proof (cases sh)
  case (Generic ts)
  then have "tokenise p esc = Inr ts"
    using assms(1) by (auto simp: classify_def generic_shape_def Let_def split: if_splits option.splits)
  then show ?thesis using Generic by (simp add: matches_def generic_match_correct tokenise_correct)
next
  case (Exact q)
  then have "q = p" "plain_for esc p"
    using assms(1)
    by (auto simp: classify_def generic_shape_def Let_def plain_for_def count_pct_zero split: if_splits option.splits)
  then show ?thesis using Exact like_sem_plain [of esc p "[]" s] by (simp add: matches_def)
next
  case (Prefix q)
  then have q: "p \<noteq> []" "last p = CHR ''%''" "q = butlast p" "length (filter (\<lambda>c. c = CHR ''%'') p) = 1"
    "CHR ''_'' \<notin> set p" "\<forall>c. esc = Some c \<longrightarrow> c \<notin> set p"
    using assms(1) by (auto simp: classify_def generic_shape_def Let_def split: if_splits option.splits)
  then have p: "p = q @ [CHR ''%'']" by (metis append_butlast_last_id)
  then have "filter (\<lambda>c. c = CHR ''%'') q = []" using q(4) by simp
  then have "plain_for esc q" using plain_forI [OF q(5,6), of q] p by auto
  then show ?thesis using Prefix p like_sem_plain [of esc q "[CHR ''%'']" s]
      like_sem_percent [OF assms(2), of False "[]"]
    by (auto simp: matches_def starts_with_iff simp del: like_sem.simps(2))
next
  case (Suffix q)
  then have q: "p \<noteq> []" "hd p = CHR ''%''" "q = tl p" "length (filter (\<lambda>c. c = CHR ''%'') p) = 1"
    "CHR ''_'' \<notin> set p" "\<forall>c. esc = Some c \<longrightarrow> c \<notin> set p"
    using assms(1) by (auto simp: classify_def generic_shape_def Let_def split: if_splits option.splits)
  then have p: "p = CHR ''%'' # q" by (metis list.collapse)
  then have "filter (\<lambda>c. c = CHR ''%'') q = []" using q(4) by simp
  then have "plain_for esc q" using plain_forI [OF q(5,6), of q] p by auto
  then show ?thesis using Suffix p like_sem_plain [of esc q "[]"] like_sem_percent [OF assms(2), of False q s]
    by (auto simp: matches_def ends_with_iff simp del: like_sem.simps(2))
next
  case (Contains q)
  then have q: "p \<noteq> []" "hd p = CHR ''%''" "last (tl p) = CHR ''%''" "q = butlast (tl p)"
    "length (filter (\<lambda>c. c = CHR ''%'') p) = 2"
    "CHR ''_'' \<notin> set p" "\<forall>c. esc = Some c \<longrightarrow> c \<notin> set p"
    using assms(1) by (auto simp: classify_def generic_shape_def Let_def split: if_splits option.splits)
  then obtain t where t: "p = CHR ''%'' # t" by (metis list.collapse)
  then have "t \<noteq> []" using q(5) by auto
  then have p: "p = CHR ''%'' # q @ [CHR ''%'']" using t q(3,4) by (metis append_butlast_last_id list.sel(3))
  then have "filter (\<lambda>c. c = CHR ''%'') q = []" using q(5) by simp
  then have "plain_for esc q" using plain_forI [OF q(6,7), of q] p by auto
  then show ?thesis using Contains p like_sem_plain [of esc q "[CHR ''%'']"]
      like_sem_percent [OF assms(2), of False "q @ [CHR ''%'']" s] like_sem_percent [OF assms(2), of False "[]"]
    by (simp add: matches_def contains_iff del: like_sem.simps(2)) metis
qed


text \<open>Patterns that end in an escape character with nothing to escape.\<close>

fun dangling :: "char option \<Rightarrow> string \<Rightarrow> bool" where
  "dangling esc [] = False"
| "dangling esc (c # p) =
    (if esc = Some c then (case p of [] \<Rightarrow> True | d # p' \<Rightarrow> dangling esc p') else dangling esc p)"

lemma tokenise_go_total:
  "(\<exists>ts. tokenise_go esc p buf out = Inr ts) \<longleftrightarrow> \<not> dangling esc p"
  "dangling esc p \<Longrightarrow> tokenise_go esc p buf out = Inl PlanErr"
  by (induction esc p buf out rule: tokenise_go.induct) (auto simp: Let_def split: list.splits)

lemma dangling_absent: "(case esc of Some c \<Rightarrow> c \<notin> set p | None \<Rightarrow> True) \<Longrightarrow> \<not> dangling esc p"
  by (induction esc p rule: dangling.induct) (auto split: option.splits list.splits)

lemma generic_shape_total:
  "generic_shape p esc = (if dangling esc p then Inl PlanErr else Inr (Generic (projr (tokenise p esc))))"
  using tokenise_go_total [of esc p "[]" "[]"] by (auto simp: generic_shape_def tokenise_def)

lemma classify_total: "classify p esc = Inl e \<longleftrightarrow> e = PlanErr \<and> dangling esc p"
  using dangling_absent [of p esc]
  by (auto simp: classify_def generic_shape_total Let_def split: option.splits if_splits)

lemma like_meaning:
  assumes "compile_ci pattern esc ci = Inr m"
  shows "matches m s \<longleftrightarrow> like_sem ci esc pattern s"
proof -
  have esc: "esc \<noteq> Some (CHR ''%'')" using assms by (auto simp: compile_ci_def)
  obtain sh where sh: "(if ci then generic_shape pattern esc else classify pattern esc) = Inr sh"
    and m: "m = \<lparr>shape = sh, case_insensitive = ci\<rparr>"
    using assms by (auto simp: compile_ci_def split: if_splits)
  show ?thesis
  proof (cases ci)
    case True
    then obtain ts where "sh = Generic ts" "tokenise pattern esc = Inr ts"
      using sh by (auto simp: generic_shape_def)
    then show ?thesis using m True by (simp add: matches_def generic_match_correct tokenise_correct)
  next
    case False
    then show ?thesis using classify_correct [of pattern esc sh s] sh esc m by simp
  qed
qed

section \<open>Properties\<close>

text \<open>C2: a compiled pattern matches exactly the strings its declarative
  meaning accepts, for LIKE and for ILIKE, with and without an escape character: the
  exact/prefix/suffix/contains fast paths, the tokeniser and the greedy loop with one
  backtrack point are all equivalent to it.\<close>

theorem like_compiles_to_meaning:
  assumes "compile_ci pattern esc ci = Ok m"
  shows "matches m s \<longleftrightarrow> like_sem ci esc pattern s"
  using assms by (rule like_meaning)

theorem like_compiles_to_meaning_witness:
  "(\<exists>m. compile_ci ''a!%_%'' (Some (CHR ''!'')) True = Ok m \<and> matches m ''A%bc'')"
proof -
  obtain m where m: "compile_ci ''a!%_%'' (Some (CHR ''!'')) True = Ok m"
    by (simp add: compile_ci_def generic_shape_def tokenise_def flush_def)
  have "like_sem True (Some (CHR ''!'')) ''a!%_%'' ''A%bc''" by code_simp
  then show ?thesis using like_compiles_to_meaning [OF m] m by blast
qed


text \<open>C6: compiling a pattern fails with a plan error exactly when the escape
  character is a wildcard or the pattern ends with an escape character that escapes
  nothing; every other pattern compiles.\<close>

theorem like_compile_errors:
  "compile_ci pattern esc ci = Err e \<longleftrightarrow>
    e = PlanErr \<and> (esc = Some (CHR ''%'') \<or> esc = Some (CHR ''_'') \<or> dangling esc pattern)"
  using classify_total [of pattern esc e] classify_total [of pattern esc PlanErr]
  by (auto simp: compile_ci_def generic_shape_total bindR_def split: sum.splits if_splits)

text \<open>C7: LIKE over a column keeps its length, yields NULL exactly on the NULL
  cells, and on the others the truth of the pattern's meaning, negated for NOT LIKE.\<close>

theorem host_like_three_valued:
  assumes "host_like col pattern esc negated = Ok out"
  shows "out = map (map_option (\<lambda>s. like_sem False esc pattern s \<noteq> negated)) col"
proof -
  obtain m where m: "compile_ci pattern esc False = Inr m"
    and out: "out = map (map_option (\<lambda>s. if negated then \<not> matches m s else matches m s)) col"
    using assms by (auto simp: host_like_def compile_def)
  show ?thesis unfolding out using like_meaning [OF m] by (cases negated) simp_all
qed

theorem host_like_three_valued_witness:
  "host_like [Some ''abc'', None, Some ''xbc''] ''a%'' None True = Ok [Some False, None, Some True]"
proof -
  obtain out where out: "host_like [Some ''abc'', None, Some ''xbc''] ''a%'' None True = Ok out"
    by (simp add: host_like_def compile_def compile_ci_def classify_def)
  have "like_sem False None ''a%'' ''abc''" "\<not> like_sem False None ''a%'' ''xbc''" by code_simp+
  then show ?thesis using host_like_three_valued [OF out] out by simp
qed

end
