(* ===== verification/Strings.thy ===== *)
theory Strings
  imports Like_Match
begin

text \<open>
  The string functions of \<^verbatim>\<open>exec/string_ops_extended.rs\<close> (and the row-wise
  concatenation of \<^verbatim>\<open>exec/string_ops.rs\<close>), which the host evaluator applies cell by
  cell, and the dictionary-encoded variants (\<open>intern\<close>, \<open>dedup_transformed\<close>,
  \<open>concat_pure\<close>, \<open>substring_pure\<close>).  The last section relates the dictionary form to
  the row form by decoding, and states the laws of the scalar functions.
\<close>

section \<open>Parsing and characters\<close>

text \<open>\<^verbatim>\<open>char::is_whitespace\<close>, \<^verbatim>\<open>is_alphanumeric\<close> and the UTF-8 encoding of U+0000 to U+00FF.\<close>

definition is_whitespace :: "char \<Rightarrow> bool" where
  "is_whitespace c \<longleftrightarrow> (let n = of_char c :: nat in 9 \<le> n \<and> n \<le> 13 \<or> n = 32 \<or> n = 133 \<or> n = 160)"

definition is_alphanumeric :: "char \<Rightarrow> bool" where
  "is_alphanumeric c \<longleftrightarrow>
    (let n = of_char c :: nat
     in 48 \<le> n \<and> n \<le> 57 \<or> 65 \<le> n \<and> n \<le> 90 \<or> 97 \<le> n \<and> n \<le> 122
        \<or> n \<in> {170, 178, 179, 181, 185, 186, 188, 189, 190}
        \<or> 192 \<le> n \<and> n \<noteq> 215 \<and> n \<noteq> 247)"

definition utf8_bytes :: "string \<Rightarrow> nat list" where
  "utf8_bytes s =
    concat (map (\<lambda>c. let n = of_char c in if n < 128 then [n] else [192 + n div 64, 128 + n mod 64]) s)"

definition trim_start_matches :: "(char \<Rightarrow> bool) \<Rightarrow> string \<Rightarrow> string" where
  "trim_start_matches P s = dropWhile P s"

definition trim_end_matches :: "(char \<Rightarrow> bool) \<Rightarrow> string \<Rightarrow> string" where
  "trim_end_matches P s = rev (dropWhile P (rev s))"

definition trim_matches :: "(char \<Rightarrow> bool) \<Rightarrow> string \<Rightarrow> string" where
  "trim_matches P s = trim_end_matches P (trim_start_matches P s)"

definition str_trim :: "string \<Rightarrow> string" where
  "str_trim s = trim_matches is_whitespace s"

definition is_ascii_digit :: "char \<Rightarrow> bool" where
  "is_ascii_digit c \<longleftrightarrow> CHR ''0'' \<le> c \<and> c \<le> CHR ''9''"

definition digit_value :: "char \<Rightarrow> int" where
  "digit_value c = of_char c - 48"

definition parse_digits :: "string \<Rightarrow> int option" where
  "parse_digits s =
    (if s \<noteq> [] \<and> list_all is_ascii_digit s then Some (foldl (\<lambda>v c. v * 10 + digit_value c) 0 s) else None)"

text \<open>\<^verbatim>\<open>str::parse\<close> at a signed integer type of the given width and at \<^verbatim>\<open>usize\<close>.\<close>

definition parse_signed :: "nat \<Rightarrow> string \<Rightarrow> int option" where
  "parse_signed bits s =
    (let (neg, ds) = (case s of
           c # r \<Rightarrow> if c = CHR ''-'' then (True, r) else if c = CHR ''+'' then (False, r) else (False, s)
         | [] \<Rightarrow> (False, []))
     in case parse_digits ds of
          None \<Rightarrow> None
        | Some v \<Rightarrow> (let w = (if neg then - v else v)
                    in if - (2 ^ (bits - 1)) \<le> w \<and> w < 2 ^ (bits - 1) then Some w else None))"

definition parse_usize :: "string \<Rightarrow> nat option" where
  "parse_usize s =
    (let ds = (case s of c # r \<Rightarrow> if c = CHR ''+'' then r else s | [] \<Rightarrow> [])
     in case parse_digits ds of None \<Rightarrow> None | Some v \<Rightarrow> if v < 2 ^ 64 then Some (nat v) else None)"

section \<open>Scalar functions\<close>

definition sql_substring :: "string \<Rightarrow> 32 word \<Rightarrow> 32 word \<Rightarrow> string" where
  "sql_substring s start len =
    (if sint len \<le> 0 then []
     else let win_start = sint start;
              win_end = win_start + sint len;
              first_pos = max win_start 1
          in if win_end \<le> first_pos then []
             else take (nat (win_end - first_pos)) (drop (nat (first_pos - 1)) s))"

datatype TrimSide = TrimSideBoth | TrimSideLeading | TrimSideTrailing

fun trim_by :: "TrimSide \<Rightarrow> (char \<Rightarrow> bool) \<Rightarrow> string \<Rightarrow> string" where
  "trim_by TrimSideBoth P s = trim_matches P s"
| "trim_by TrimSideLeading P s = trim_start_matches P s"
| "trim_by TrimSideTrailing P s = trim_end_matches P s"

definition trim_str :: "string \<Rightarrow> TrimSide \<Rightarrow> string option \<Rightarrow> string" where
  "trim_str s side chars =
    (case chars of
       None \<Rightarrow> trim_by side is_whitespace s
     | Some cs \<Rightarrow> if cs = [] then s else trim_by side (\<lambda>c. c \<in> set cs) s)"

definition char_length_str :: "string \<Rightarrow> 64 word" where
  "char_length_str s = word_of_nat (length s)"

definition octet_length_str :: "string \<Rightarrow> 64 word" where
  "octet_length_str s = word_of_nat (length (utf8_bytes s))"

fun find_from :: "string \<Rightarrow> string \<Rightarrow> nat \<Rightarrow> nat option" where
  "find_from [] sub i = (if sub = [] then Some i else None)"
| "find_from (c # s) sub i = (if starts_with (c # s) sub then Some i else find_from s sub (i + 1))"

definition position_str :: "string \<Rightarrow> string \<Rightarrow> 64 word" where
  "position_str s sub =
    (if sub = [] then 1
     else case find_from s sub 0 of Some i \<Rightarrow> word_of_nat (i + 1) | None \<Rightarrow> 0)"

function replace_go :: "string \<Rightarrow> string \<Rightarrow> string \<Rightarrow> string" where
  "replace_go from to [] = []"
| "replace_go from to (c # s) =
    (if from \<noteq> [] \<and> starts_with (c # s) from
     then to @ replace_go from to (drop (length from) (c # s))
     else c # replace_go from to s)"
  by pat_completeness auto
termination by (relation "measure (\<lambda>(from, to, s). length s)") auto

definition replace_str :: "string \<Rightarrow> string \<Rightarrow> string \<Rightarrow> string" where
  "replace_str s from to = (if from = [] then s else replace_go from to s)"

definition left_str :: "string \<Rightarrow> 64 word \<Rightarrow> string" where
  "left_str s n =
    (let char_count = int (length s);
         k = (if sint n \<ge> 0 then min (sint n) char_count else max (char_count + sint n) 0)
     in take (nat k) s)"

text \<open>The count of \<open>right_str\<close> is negated at width 64, so the most negative count stays
  negative and is then read as a huge \<^verbatim>\<open>usize\<close>.\<close>

definition right_str :: "string \<Rightarrow> 64 word \<Rightarrow> string" where
  "right_str s n =
    (let char_count = int (length s);
         skip = (if sint n \<ge> 0 then max (char_count - sint n) 0 else min (sint (- n)) char_count)
     in drop (unat (word_of_int skip :: 64 word)) s)"

definition MAX_PAD_LEN :: nat where "MAX_PAD_LEN = 1048576"

definition parse_max_pad_len_env :: "string option \<Rightarrow> nat" where
  "parse_max_pad_len_env raw =
    (case raw of
       None \<Rightarrow> MAX_PAD_LEN
     | Some v \<Rightarrow>
         let trimmed = str_trim v in
         if trimmed = [] then MAX_PAD_LEN
         else (case parse_usize trimmed of
                 Some n \<Rightarrow> if n = 0 then MAX_PAD_LEN else n
               | None \<Rightarrow> MAX_PAD_LEN))"

datatype PadSide = PadLeft | PadRight

definition cycle_take :: "string \<Rightarrow> nat \<Rightarrow> string" where
  "cycle_take pad gap = map (\<lambda>i. pad ! (i mod length pad)) [0..<gap]"

definition pad_to_target :: "string \<Rightarrow> nat \<Rightarrow> string \<Rightarrow> PadSide \<Rightarrow> string" where
  "pad_to_target s target pad side =
    (if length s \<ge> target then take target s
     else if pad = [] then s
     else let fill = cycle_take pad (target - length s)
          in case side of PadLeft \<Rightarrow> fill @ s | PadRight \<Rightarrow> s @ fill)"

definition pad_str :: "nat \<Rightarrow> string \<Rightarrow> 64 word \<Rightarrow> string \<Rightarrow> PadSide \<Rightarrow> string" where
  "pad_str cap s len pad side =
    (if sint len \<le> 0 then [] else pad_to_target s (min (nat (sint len)) cap) pad side)"

definition pad_str_checked :: "nat \<Rightarrow> string \<Rightarrow> 64 word \<Rightarrow> string \<Rightarrow> PadSide \<Rightarrow> string BoltResult" where
  "pad_str_checked cap s len pad side =
    (if sint len \<le> 0 then Ok []
     else if nat (sint len) > cap then Err OtherErr
     else Ok (pad_to_target s (nat (sint len)) pad side))"

definition reverse_str :: "string \<Rightarrow> string" where "reverse_str s = rev s"

text \<open>Upper-casing maps two characters of the modelled range outside it, so the
  per-character map \<open>uc\<close> is an argument.\<close>

fun initcap_go :: "(char \<Rightarrow> string) \<Rightarrow> bool \<Rightarrow> string \<Rightarrow> string" where
  "initcap_go uc at_word_start [] = []"
| "initcap_go uc at_word_start (c # s) =
    (if is_alphanumeric c
     then (if at_word_start then uc c else [char_to_lowercase c]) @ initcap_go uc False s
     else c # initcap_go uc True s)"

definition initcap_str :: "(char \<Rightarrow> string) \<Rightarrow> string \<Rightarrow> string" where
  "initcap_str uc s = initcap_go uc True s"

definition concat_opt :: "string option \<Rightarrow> string option \<Rightarrow> string option" where
  "concat_opt l r = (case (l, r) of (Some a, Some b) \<Rightarrow> Some (a @ b) | _ \<Rightarrow> None)"

definition host_concat_option_strings ::
  "string option list \<Rightarrow> string option list \<Rightarrow> string option list BoltResult" where
  "host_concat_option_strings l r =
    (if length l \<noteq> length r then Err OtherErr
     else Ok (map2 concat_opt l r))"

section \<open>Dictionary-encoded strings\<close>

text \<open>A dictionary under construction: the entries in order and the lookup map from an
  entry to its 1-based index; index 0 encodes NULL.\<close>

type_synonym dict_state = "string list \<times> (string \<rightharpoonup> int)"

definition I32_MAX :: int where "I32_MAX = 2147483647"

definition intern :: "dict_state \<Rightarrow> string \<Rightarrow> (dict_state \<times> int) BoltResult" where
  "intern st s =
    (let (dict, lookup) = st in
     case lookup s of
       Some idx \<Rightarrow> Ok (st, idx)
     | None \<Rightarrow>
         let next_len = int (length dict) + 1 in
         if next_len > I32_MAX then Err OtherErr
         else Ok ((dict @ [s], lookup(s \<mapsto> next_len)), next_len))"

fun intern_all :: "dict_state \<Rightarrow> string list \<Rightarrow> (dict_state \<times> int list) BoltResult" where
  "intern_all st [] = Ok (st, [])"
| "intern_all st (s # ss) =
    bindR (intern st s) (\<lambda>(st', i). bindR (intern_all st' ss) (\<lambda>(st'', is). Ok (st'', i # is)))"

definition dedup_transformed :: "string list \<Rightarrow> (string list \<times> int list) BoltResult" where
  "dedup_transformed ts =
    bindR (intern_all ([], Map.empty) ts) (\<lambda>((dict, _), idxs). Ok (dict, 0 # idxs))"

definition dict_get :: "string list \<Rightarrow> int \<Rightarrow> string BoltResult" where
  "dict_get dict i = (if nat i - 1 < length dict then Ok (dict ! (nat i - 1)) else Err OtherErr)"

fun concat_rows :: "dict_state \<Rightarrow> string list \<Rightarrow> string list \<Rightarrow> (int \<times> int) list
    \<Rightarrow> (string list \<times> int list) BoltResult" where
  "concat_rows st ld rd [] = Ok (fst st, [])"
| "concat_rows st ld rd ((li, ri) # rows) =
    (if li < 0 \<or> ri < 0 then Err OtherErr
     else if li = 0 \<or> ri = 0
     then bindR (concat_rows st ld rd rows) (\<lambda>(d, out). Ok (d, 0 # out))
     else bindR (dict_get ld li) (\<lambda>l. bindR (dict_get rd ri) (\<lambda>r.
          bindR (intern st (l @ r)) (\<lambda>(st', i).
          bindR (concat_rows st' ld rd rows) (\<lambda>(d, out). Ok (d, i # out))))))"

definition concat_pure ::
  "string list \<Rightarrow> int list \<Rightarrow> string list \<Rightarrow> int list \<Rightarrow> (string list \<times> int list) BoltResult" where
  "concat_pure ld li rd ri =
    (if length li \<noteq> length ri then Err OtherErr else concat_rows ([], Map.empty) ld rd (zip li ri))"

definition substring_pure :: "string list \<Rightarrow> 32 word \<Rightarrow> 32 word \<Rightarrow> (string list \<times> int list) BoltResult" where
  "substring_pure dict start len = dedup_transformed (map (\<lambda>s. sql_substring s start len) dict)"

text \<open>The meaning of an index vector over a dictionary.\<close>

definition decode_index :: "string list \<Rightarrow> int \<Rightarrow> string option" where
  "decode_index dict i = (if i = 0 then None else Some (dict ! (nat i - 1)))"

definition index_ok :: "string list \<Rightarrow> int \<Rightarrow> bool" where
  "index_ok dict i \<longleftrightarrow> 0 \<le> i \<and> i \<le> int (length dict)"

definition dict_inv :: "dict_state \<Rightarrow> bool" where
  "dict_inv st \<longleftrightarrow> (let (dict, lookup) = st in
    distinct dict \<and> (\<forall>s. lookup s = (case position (\<lambda>t. t = s) dict of
                                          Some i \<Rightarrow> Some (int i + 1) | None \<Rightarrow> None)))"

section \<open>Lemmas\<close>

lemma concat_opt_simps [simp]:
  "concat_opt None y = None" "concat_opt x None = None" "concat_opt (Some a) (Some b) = Some (a @ b)"
  by (simp_all add: concat_opt_def split: option.splits)

lemma decode_index_simps [simp]:
  "decode_index d 0 = None" "i \<noteq> 0 \<Longrightarrow> decode_index d i = Some (d ! (nat i - 1))"
  by (simp_all add: decode_index_def)

lemma position_snoc:
  "position P (xs @ [x]) = (case position P xs of Some i \<Rightarrow> Some i | None \<Rightarrow> if P x then Some (length xs) else None)"
  by (induction xs) (auto split: option.splits)

lemma dict_inv_empty: "dict_inv ([], Map.empty)"
  by (simp add: dict_inv_def)

lemma intern_correct:
  assumes inv: "dict_inv st" and ok: "intern st s = Inr (st', i)"
  shows "dict_inv st' \<and> (\<exists>ext. fst st' = fst st @ ext)
    \<and> 1 \<le> i \<and> i \<le> int (length (fst st')) \<and> fst st' ! (nat i - 1) = s"
proof -
  obtain dict lookup where st: "st = (dict, lookup)" by fastforce
  have lk: "lookup t = (case position (\<lambda>u. u = t) dict of Some i \<Rightarrow> Some (int i + 1) | None \<Rightarrow> None)"
    and dist: "distinct dict" for t
    using inv st by (auto simp: dict_inv_def)
  show ?thesis
  proof (cases "lookup s")
    case (Some idx)
    then have res: "st' = st" "i = idx" using ok st by (auto simp: intern_def)
    from Some lk obtain k where "position (\<lambda>u. u = s) dict = Some k" "idx = int k + 1"
      by (auto split: option.splits)
    then show ?thesis using res inv st by (auto simp: position_Some_iff nat_add_distrib)
  next
    case None
    then have pos: "position (\<lambda>u. u = s) dict = None" using lk [of s] by (auto split: option.splits)
    then have new: "s \<notin> set dict" by (auto simp: position_None_iff)
    have res: "st' = (dict @ [s], lookup(s \<mapsto> int (length dict) + 1))" "i = int (length dict) + 1"
      using ok st None by (auto simp: intern_def Let_def split: if_splits)
    have "(lookup(s \<mapsto> int (length dict) + 1)) t = (case position (\<lambda>u. u = t) (dict @ [s]) of
        Some i \<Rightarrow> Some (int i + 1) | None \<Rightarrow> None)" for t
      by (cases "t = s") (auto simp: position_snoc pos lk split: option.splits)
    then have "dict_inv st'" using dist new res(1) by (simp add: dict_inv_def)
    then show ?thesis using res st by (auto simp: nat_add_distrib)
  qed
qed

lemma nth_prefix: "dict' = dict @ ext \<Longrightarrow> 1 \<le> i \<Longrightarrow> i \<le> int (length dict) \<Longrightarrow>
    dict' ! (nat i - 1) = dict ! (nat i - 1)"
  by (auto simp: nth_append)

lemma concat_rows_correct:
  assumes "dict_inv st" "concat_rows st ld rd rows = Inr (d, out)"
    and "\<forall>(li, ri) \<in> set rows. index_ok ld li \<and> index_ok rd ri"
  shows "distinct d \<and> (\<exists>ext. d = fst st @ ext) \<and> (\<forall>i \<in> set out. index_ok d i)
    \<and> map (decode_index d) out
      = map (\<lambda>(li, ri). concat_opt (decode_index ld li) (decode_index rd ri)) rows"
  using assms
proof (induction st ld rd rows arbitrary: out rule: concat_rows.induct)
  case (1 st ld rd)
  then show ?case by (auto simp: dict_inv_def)
next
  case (2 st ld rd li ri rows)
  have ok: "index_ok ld li" "index_ok rd ri" using 2 by auto
  then have nonneg: "\<not> (li < 0 \<or> ri < 0)" by (auto simp: index_ok_def)
  show ?case
  proof (cases "li = 0 \<or> ri = 0")
    case True
    then obtain out' where out': "concat_rows st ld rd rows = Inr (d, out')" "out = 0 # out'"
      using "2.prems"(2) nonneg by auto
    have "distinct d \<and> (\<exists>ext. d = fst st @ ext) \<and> (\<forall>i \<in> set out'. index_ok d i)
      \<and> map (decode_index d) out' = map (\<lambda>(li, ri). concat_opt (decode_index ld li) (decode_index rd ri)) rows"
      using "2.IH"(1) [OF nonneg True "2.prems"(1) out'(1)] "2.prems"(3) by auto
    then show ?thesis using out'(2) True by (auto simp: index_ok_def)
  next
    case False
    then have gets: "dict_get ld li = Inr (ld ! (nat li - 1))" "dict_get rd ri = Inr (rd ! (nat ri - 1))"
      using ok nonneg by (auto simp: dict_get_def index_ok_def)
    define s where "s = ld ! (nat li - 1) @ rd ! (nat ri - 1)"
    obtain st' i out' where st': "intern st s = Inr (st', i)"
      and rec: "concat_rows st' ld rd rows = Inr (d, out')" and out: "out = i # out'"
      using "2.prems"(2) nonneg False gets by (auto simp: s_def)
    note ic = intern_correct [OF "2.prems"(1) st']
    have IH: "distinct d \<and> (\<exists>ext. d = fst st' @ ext) \<and> (\<forall>i \<in> set out'. index_ok d i)
      \<and> map (decode_index d) out' = map (\<lambda>(li, ri). concat_opt (decode_index ld li) (decode_index rd ri)) rows"
      using "2.IH"(2) [OF nonneg False gets st' [unfolded s_def] refl _ rec] ic "2.prems"(3) by auto
    then obtain ext where ext: "d = fst st' @ ext" by blast
    have "index_ok d i" "decode_index d i = Some s"
      using ic ext nth_prefix [OF ext, of i] by (auto simp: index_ok_def)
    moreover have "decode_index ld li = Some (ld ! (nat li - 1))" "decode_index rd ri = Some (rd ! (nat ri - 1))"
      using False by auto
    ultimately show ?thesis using IH ic out s_def by auto
  qed
qed

lemma find_from_Some:
  "find_from s sub k = Some i \<longleftrightarrow>
    k \<le> i \<and> i - k \<le> length s \<and> starts_with (drop (i - k) s) sub \<and> (\<forall>j < i - k. \<not> starts_with (drop j s) sub)"
proof (induction s sub k rule: find_from.induct)
  case (1 sub k)
  then show ?case by (cases sub) auto
next
  case (2 c s sub k)
  show ?case
  proof (cases "starts_with (c # s) sub")
    case True
    have "\<not> (k \<le> i \<and> (\<forall>j < i - k. \<not> starts_with (drop j (c # s)) sub))" if "i \<noteq> k"
      using True that by (metis drop0 le_neq_implies_less zero_less_diff)
    then show ?thesis using True by (cases "i = k") auto
  next
    case False
    have "find_from (c # s) sub k = find_from s sub (k + 1)" using False by simp
    also have "\<dots> = Some i \<longleftrightarrow> k + 1 \<le> i \<and> i - (k + 1) \<le> length s
        \<and> starts_with (drop (i - (k + 1)) s) sub \<and> (\<forall>j < i - (k + 1). \<not> starts_with (drop j s) sub)"
      by (rule 2 [OF False])
    also have "\<dots> \<longleftrightarrow> k \<le> i \<and> i - k \<le> length (c # s) \<and> starts_with (drop (i - k) (c # s)) sub
        \<and> (\<forall>j < i - k. \<not> starts_with (drop j (c # s)) sub)"
    proof (cases "i - k")
      case 0
      then show ?thesis using False by auto
    next
      case (Suc m)
      then have "i - (k + 1) = m" "k + 1 \<le> i" by simp_all
      then show ?thesis using Suc False by (simp add: All_less_Suc2)
    qed
    finally show ?thesis .
  qed
qed

lemma sint_bounds64: "- (2 ^ 63) \<le> sint (n :: 64 word) \<and> sint n < 2 ^ 63"
  using sint_range_size [of n] by (simp add: word_size)

lemma sint_minus64: "sint (n :: 64 word) \<noteq> - (2 ^ 63) \<Longrightarrow> sint (- n) = - sint n"
  using sint_bounds64 [of n] by (simp add: sint_word_minus signed_take_bit_int_eq_self)

lemma unat_of_nonneg: "0 \<le> x \<Longrightarrow> x < 2 ^ 63 \<Longrightarrow> unat (word_of_int x :: 64 word) = nat x"
  by (simp add: unat_eq_nat_uint uint_word_of_int)

lemma filter_upt_window:
  "filter (\<lambda>p. a \<le> p \<and> p < b) [l..<u] = [max a l..<min b u]"
  by (induction u) (auto simp: max_def min_def not_less le_Suc_eq intro: upt_conv_Nil)

lemma map_nth_upt:
  "1 \<le> i \<Longrightarrow> j \<le> length s + 1 \<Longrightarrow> map (\<lambda>p. s ! (p - 1)) [i..<j] = take (j - i) (drop (i - 1) s)"
  by (intro nth_equalityI) auto

lemma contains_drop: "contains s p \<longleftrightarrow> (\<exists>i \<le> length s. starts_with (drop i s) p)"
proof
  assume "contains s p"
  then obtain u v where "s = u @ p @ v" by (auto simp: contains_iff)
  then show "\<exists>i \<le> length s. starts_with (drop i s) p"
    by (intro exI [of _ "length u"]) (auto simp: starts_with_iff)
next
  assume "\<exists>i \<le> length s. starts_with (drop i s) p"
  then show "contains s p" by (auto simp: contains_iff starts_with_iff) (metis append_take_drop_id)
qed

lemma unat_word64: "n < 2 ^ 64 \<Longrightarrow> unat (word_of_nat n :: 64 word) = n"
  by (simp add: unat_of_nat)

lemma find_from_None: "find_from s sub k = None \<longleftrightarrow> \<not> contains s sub"
proof -
  have "(\<exists>i. find_from s sub k = Some i) \<longleftrightarrow> contains s sub"
  proof
    assume "\<exists>i. find_from s sub k = Some i"
    then show "contains s sub" by (auto simp: find_from_Some contains_drop)
  next
    assume "contains s sub"
    then show "\<exists>i. find_from s sub k = Some i"
      by (induction s sub k rule: find_from.induct) auto
  qed
  then show ?thesis by auto
qed


lemma unat_position_str:
  assumes "sub \<noteq> []" "length s < 2 ^ 63"
  shows "unat (position_str s sub) = (case find_from s sub 0 of None \<Rightarrow> 0 | Some i \<Rightarrow> i + 1)"
proof (cases "find_from s sub 0")
  case (Some i)
  then have "i \<le> length s" using find_from_Some [of s sub 0 i] by simp
  then have "i + 1 < 2 ^ 64" using assms(2) by simp
  then show ?thesis using Some assms(1) unat_word64 [of "i + 1"] by (simp add: position_str_def)
qed (use assms(1) in \<open>simp add: position_str_def\<close>)

section \<open>Properties\<close>

text \<open>C4: concatenation over dictionary-encoded columns refines the
  row-wise concatenation: decoding the result gives, row by row, the concatenation of the
  decoded inputs with NULL as soon as one side is NULL; the new dictionary has no duplicate
  entry and every produced index is valid in it.\<close>

theorem dictionary_concat_refines:
  assumes "concat_pure ld li rd ri = Ok (d, out)"
    and "\<forall>i \<in> set li. index_ok ld i" and "\<forall>i \<in> set ri. index_ok rd i"
  shows "distinct d \<and> (\<forall>i \<in> set out. index_ok d i)
    \<and> host_concat_option_strings (map (decode_index ld) li) (map (decode_index rd) ri)
      = Ok (map (decode_index d) out)"
proof -
  have len: "length li = length ri" and rows: "concat_rows ([], Map.empty) ld rd (zip li ri) = Inr (d, out)"
    using assms(1) by (auto simp: concat_pure_def split: if_splits)
  have "\<forall>(l, r) \<in> set (zip li ri). index_ok ld l \<and> index_ok rd r"
    using assms(2,3) by (auto dest: set_zip_leftD set_zip_rightD)
  note c = concat_rows_correct [OF dict_inv_empty rows this]
  then show ?thesis using len
    by (simp add: host_concat_option_strings_def zip_map_map case_prod_beta' comp_def)
qed

theorem dictionary_concat_refines_witness:
  "\<exists>d out. concat_pure [''a''] [1, 0, 1] [''b'', ''''] [1, 1, 2] = Ok (d, out) \<and> distinct d
    \<and> map (decode_index d) out = [Some ''ab'', None, Some ''a'']"
proof -
  have ok: "concat_pure [''a''] [1, 0, 1] [''b'', ''''] [1, 1, 2] = Ok ([''ab'', ''a''], [1, 0, 2])"
    by (simp add: concat_pure_def dict_get_def intern_def I32_MAX_def)
  show ?thesis
    using dictionary_concat_refines [OF ok] ok
    by (simp add: index_ok_def host_concat_option_strings_def decode_index_def)
qed




text \<open>C11: SUBSTRING returns exactly the characters whose 1-based position lies in the
  half-open window from the start for the given length, positions before the first
  character included in the count.\<close>

theorem substring_window:
  "sql_substring s start len =
    map (\<lambda>p. s ! (p - 1)) (filter (\<lambda>p. sint start \<le> int p \<and> int p < sint start + sint len) [1..<length s + 1])"
proof -
  define a b where "a = nat (max (sint start) 1)" and "b = nat (sint start + sint len)"
  have "filter (\<lambda>p. sint start \<le> int p \<and> int p < sint start + sint len) [1..<length s + 1]
      = filter (\<lambda>p. a \<le> p \<and> p < b) [1..<length s + 1]"
    by (rule filter_cong) (auto simp: a_def b_def)
  also have "map (\<lambda>p. s ! (p - 1)) \<dots> = take (min b (length s + 1) - a) (drop (a - 1) s)"
    unfolding filter_upt_window by (subst map_nth_upt) (auto simp: a_def max_def)
  also have "\<dots> = take (b - a) (drop (a - 1) s)"
    by (cases "b \<le> length s + 1") (auto simp: min_def a_def)
  also have "\<dots> = sql_substring s start len"
    by (auto simp: sql_substring_def Let_def a_def b_def max_def nat_diff_distrib)
  finally show ?thesis by simp
qed


text \<open>C8: LPAD and RPAD never produce more characters than the configured cap, and with
  a non-empty fill and a positive target they produce exactly the target, clamped to the
  cap.\<close>

theorem pad_length_bound:
  "length (pad_str cap s len pad side) \<le> cap
   \<and> (pad \<noteq> [] \<and> sint len > 0 \<longrightarrow> length (pad_str cap s len pad side) = min (nat (sint len)) cap)"
  by (cases side) (auto simp: pad_str_def pad_to_target_def Let_def cycle_take_def)

theorem pad_length_bound_witness:
  "length (pad_str 10 ''ab'' 5 ''xy'' PadLeft) = 5"
  using pad_length_bound [of 10 "''ab''" 5 "''xy''" PadLeft] by simp



section \<open>Decimal numerals parse back\<close>

lemma digit_char: "a < 10 \<Longrightarrow> is_ascii_digit (char_of (48 + a :: nat)) \<and> digit_value (char_of (48 + a)) = int a
    \<and> char_of (48 + a) \<noteq> CHR ''+''"
proof -
  assume "a < 10"
  then have "a \<in> {0, 1, 2, 3, 4, 5, 6, 7, 8, 9}" by auto
  then show ?thesis
    by (elim insertE emptyE; hypsubst) (code_simp)+
qed

lemma digits_parse:
  "list_all is_ascii_digit (digits n) \<and> foldl (\<lambda>v c. v * 10 + digit_value c) 0 (digits n) = int n
    \<and> hd (digits n) \<noteq> CHR ''+''"
proof (induction n rule: digits.induct)
  case (1 n)
  show ?case
  proof (cases "n < 10")
    case True
    then show ?thesis using digit_char[of n] by (subst (1 2 3) digits.simps) simp
  next
    case False
    have "int (n div 10) * 10 + int (n mod 10) = int n" by presburger
    then show ?thesis using 1[OF False] False digit_char[of "n mod 10"] by (subst (1 2 3) digits.simps) auto
  qed
qed

lemma parse_usize_digits: "n < 2 ^ 64 \<Longrightarrow> parse_usize (digits n) = Some n"
  using digits_parse[of n] by (cases "digits n") (auto simp: parse_usize_def parse_digits_def)

end
