(* ===== verification/Dates.thy ===== *)
theory Dates
  imports Logical_Plan Strings "HOL-Library.Signed_Division"
begin

text \<open>
  Calendar arithmetic of \<^verbatim>\<open>exec/expr_agg.rs\<close>: conversion between day counts and
  proleptic Gregorian dates, timestamps as tick counts, and the token patterns of
  \<^verbatim>\<open>CAST(... FORMAT ...)\<close>.  Rust's truncating integer division is
  \<^term>\<open>(sdiv)\<close>.  The two day-count conversions are shown to be inverse to each other,
  formatting and parsing to round-trip, and nanosecond timestamps to decompose and
  recompose.
\<close>

section \<open>Conversions\<close>

definition try_i32 :: "int \<Rightarrow> int option" where
  "try_i32 v = (if - (2 ^ 31) \<le> v \<and> v < 2 ^ 31 then Some v else None)"

definition try_i64 :: "int \<Rightarrow> int option" where
  "try_i64 v = (if - (2 ^ 63) \<le> v \<and> v < 2 ^ 63 then Some v else None)"

definition civil_days :: "int \<Rightarrow> int \<Rightarrow> int \<Rightarrow> int" where
  "civil_days y m d =
    (let y = (if m \<le> 2 then y - 1 else y);
         era = (if y \<ge> 0 then y else y - 399) sdiv 400;
         yoe = y - era * 400;
         doy = (153 * (if m > 2 then m - 3 else m + 9) + 2) sdiv 5 + d - 1;
         doe = yoe * 365 + yoe sdiv 4 - yoe sdiv 100 + doy
     in era * 146097 + doe - 719468)"

definition days_from_civil :: "int \<Rightarrow> int \<Rightarrow> int \<Rightarrow> int option" where
  "days_from_civil y m d = try_i32 (civil_days y m d)"

definition civil_from_days :: "int \<Rightarrow> int \<times> int \<times> int" where
  "civil_from_days days =
    (let z = days + 719468;
         era = z div 146097;
         doe = z - era * 146097;
         yoe = (doe - doe sdiv 1460 + doe sdiv 36524 - doe sdiv 146096) sdiv 365;
         y = yoe + era * 400;
         doy = doe - (365 * yoe + yoe sdiv 4 - yoe sdiv 100);
         mp = (5 * doy + 2) sdiv 153;
         d = doy - (153 * mp + 2) sdiv 5 + 1;
         m = (if mp < 10 then mp + 3 else mp - 9);
         year = (if m \<le> 2 then y + 1 else y)
     in (year, m, d))"

definition days_in_month_local :: "int \<Rightarrow> int \<Rightarrow> int" where
  "days_in_month_local y m =
    (if m \<in> {1, 3, 5, 7, 8, 10, 12} then 31
     else if m \<in> {4, 6, 9, 11} then 30
     else if m = 2 then (if y smod 4 = 0 \<and> (y smod 100 \<noteq> 0 \<or> y smod 400 = 0) then 29 else 28)
     else 0)"

record CivilDateTime =
  c_year :: int
  c_month :: int
  c_day :: int
  c_hour :: int
  c_minute :: int
  c_second :: int

definition civil_from_ticks_ns :: "int \<Rightarrow> CivilDateTime" where
  "civil_from_ticks_ns ticks =
    (let secs = ticks div 1000000000;
         days = secs div 86400;
         sod = secs mod 86400;
         (y, m, d) = civil_from_days days
     in \<lparr>c_year = y, c_month = m, c_day = d,
         c_hour = sod sdiv 3600, c_minute = (sod smod 3600) sdiv 60, c_second = sod smod 60\<rparr>)"

fun ticks_per_second :: "TimeUnit \<Rightarrow> int" where
  "ticks_per_second Second = 1"
| "ticks_per_second Millisecond = 1000"
| "ticks_per_second Microsecond = 1000000"
| "ticks_per_second Nanosecond = 1000000000"

definition civil_to_ticks :: "CivilDateTime \<Rightarrow> TimeUnit \<Rightarrow> int option" where
  "civil_to_ticks p unit =
    Option.bind (days_from_civil (c_year p) (c_month p) (c_day p)) (\<lambda>days.
    Option.bind (try_i64 (days * 86400)) (\<lambda>s.
    Option.bind (try_i64 (s + (c_hour p * 3600 + c_minute p * 60 + c_second p))) (\<lambda>secs.
    try_i64 (secs * ticks_per_second unit))))"

section \<open>Format patterns\<close>

text \<open>\<^verbatim>\<open>format!("{:0w}")\<close> of a non-negative number.\<close>

definition zero_padded :: "nat \<Rightarrow> int \<Rightarrow> string" where
  "zero_padded w v =
    (let ds = digits (nat v) in replicate (w - length ds) (CHR ''0'') @ ds)"

fun format_token :: "CivilDateTime \<Rightarrow> FormatToken \<Rightarrow> string" where
  "format_token p TokYear4 =
    (if c_year p < 0 then CHR ''-'' # zero_padded 4 (- c_year p) else zero_padded 4 (c_year p))"
| "format_token p TokMonth = zero_padded 2 (c_month p)"
| "format_token p TokDay = zero_padded 2 (c_day p)"
| "format_token p TokHour24 = zero_padded 2 (c_hour p)"
| "format_token p TokMinute = zero_padded 2 (c_minute p)"
| "format_token p TokSecond = zero_padded 2 (c_second p)"
| "format_token p (TokLiteral c) = [c]"

definition format_civil :: "CivilDateTime \<Rightarrow> FormatToken list \<Rightarrow> string" where
  "format_civil p pattern = concat (map (format_token p) pattern)"

fun digits_loop :: "nat \<Rightarrow> nat list \<Rightarrow> int \<Rightarrow> (int \<times> nat list) option" where
  "digits_loop 0 b v = Some (v, b)"
| "digits_loop (Suc w) [] v = None"
| "digits_loop (Suc w) (c # b) v =
    (if 48 \<le> c \<and> c \<le> 57 then digits_loop w b (v * 10 + int (c - 48)) else None)"

definition take_digits :: "nat list \<Rightarrow> nat \<Rightarrow> (int \<times> nat list) option" where
  "take_digits b n = (if n > length b then None else digits_loop n b 0)"

fun parse_token :: "FormatToken \<Rightarrow> nat list \<Rightarrow> CivilDateTime \<Rightarrow> (CivilDateTime \<times> nat list) option" where
  "parse_token TokYear4 b p = map_option (\<lambda>(v, r). (p\<lparr>c_year := v\<rparr>, r)) (take_digits b 4)"
| "parse_token TokMonth b p = map_option (\<lambda>(v, r). (p\<lparr>c_month := v\<rparr>, r)) (take_digits b 2)"
| "parse_token TokDay b p = map_option (\<lambda>(v, r). (p\<lparr>c_day := v\<rparr>, r)) (take_digits b 2)"
| "parse_token TokHour24 b p = map_option (\<lambda>(v, r). (p\<lparr>c_hour := v\<rparr>, r)) (take_digits b 2)"
| "parse_token TokMinute b p = map_option (\<lambda>(v, r). (p\<lparr>c_minute := v\<rparr>, r)) (take_digits b 2)"
| "parse_token TokSecond b p = map_option (\<lambda>(v, r). (p\<lparr>c_second := v\<rparr>, r)) (take_digits b 2)"
| "parse_token (TokLiteral c) b p =
    (case b of
       [] \<Rightarrow> None
     | x # r \<Rightarrow> if x \<noteq> of_char c mod 256 then None else Some (p, r))"

fun parse_tokens :: "FormatToken list \<Rightarrow> nat list \<Rightarrow> CivilDateTime \<Rightarrow> (CivilDateTime \<times> nat list) option" where
  "parse_tokens [] b p = Some (p, b)"
| "parse_tokens (t # ts) b p = Option.bind (parse_token t b p) (\<lambda>(p', b'). parse_tokens ts b' p')"

definition civil_default :: CivilDateTime where
  "civil_default =
    \<lparr>c_year = 1970, c_month = 1, c_day = 1, c_hour = 0, c_minute = 0, c_second = 0\<rparr>"

definition civil_in_range :: "CivilDateTime \<Rightarrow> bool" where
  "civil_in_range p \<longleftrightarrow>
    1 \<le> c_month p \<and> c_month p \<le> 12
    \<and> \<not> (c_day p < 1 \<or> c_day p > days_in_month_local (c_year p) (c_month p))
    \<and> \<not> (c_hour p > 23 \<or> c_minute p > 59 \<or> c_second p > 59
          \<or> c_hour p < 0 \<or> c_minute p < 0 \<or> c_second p < 0)"

definition parse_civil :: "string \<Rightarrow> FormatToken list \<Rightarrow> CivilDateTime option" where
  "parse_civil input pattern =
    (case parse_tokens pattern (utf8_bytes input) civil_default of
       None \<Rightarrow> None
     | Some (p, rest) \<Rightarrow> if rest \<noteq> [] then None else if civil_in_range p then Some p else None)"

section \<open>The day count\<close>

lemma sdiv_nonneg [simp]: "0 \<le> a \<Longrightarrow> 0 < b \<Longrightarrow> a sdiv b = a div (b :: int)"
  by (simp add: signed_divide_int_def sgn_if)

lemma smod_nonneg: "0 \<le> a \<Longrightarrow> 0 < b \<Longrightarrow> a smod b = a mod (b :: int)"
  by (simp add: signed_modulo_int_def sgn_if minus_div_mult_eq_mod [symmetric])

lemma smod_eq_0: "0 < b \<Longrightarrow> (a smod b = 0) = (a mod (b :: int) = 0)"
proof -
  assume b: "0 < b"
  have "a smod b = (if a < 0 then - (- a mod b) else a mod b)"
    using b by (simp add: signed_modulo_int_def signed_divide_int_def sgn_if
        minus_div_mult_eq_mod [symmetric])
  then show ?thesis by (auto simp: dvd_eq_mod_eq_0 [symmetric])
qed

lemma era_floor [simp]: "(if y \<ge> 0 then y else y - 399) sdiv 400 = y div (400 :: int)"
proof (cases "y \<ge> 0")
  case False
  then have "(y - 399) sdiv 400 = - ((399 - y) div 400)"
    by (simp add: signed_divide_int_def sgn_if)
  moreover have "(399 - y) div 400 = - (y div 400)"
    using div_mult_mod_eq[of y 400] pos_mod_bound[of 400 y] pos_mod_sign[of 400 y]
    by (intro int_div_pos_eq[where r = "399 - y mod 400"]) linarith+
  ultimately show ?thesis using False by simp
qed simp

text \<open>Years of an era run from March; \<open>year_start n\<close> is the day of the era on which year \<open>n\<close> begins.\<close>

definition year_start :: "int \<Rightarrow> int" where
  "year_start n = n * 365 + n div 4 - n div 100"

definition long_year :: "int \<Rightarrow> bool" where
  "long_year n \<longleftrightarrow> (n + 1) mod 4 = 0 \<and> ((n + 1) mod 100 \<noteq> 0 \<or> n = 399)"

definition year_end :: "int \<Rightarrow> int" where
  "year_end n = year_start n + (if long_year n then 365 else 364)"

definition corrected :: "int \<Rightarrow> int" where
  "corrected doe = doe - doe div 1460 + doe div 36524 - doe div 146096"

lemma corrected_Suc:
  assumes "0 \<le> a" "a < 146096"
  shows "corrected a \<le> corrected (a + 1)"
proof (cases "a = 146095")
  case False
  have step: "p' \<le> p + 1 \<Longrightarrow> q \<le> q' \<Longrightarrow> a - p + q - 0 \<le> a + 1 - p' + q' - 0" for p p' q q' :: int
    by simp
  have "(a + 1) div 1460 \<le> (a + 1460) div 1460" by (rule zdiv_mono1) auto
  then have "(a + 1) div 1460 \<le> a div 1460 + 1" by simp
  moreover have "a div 36524 \<le> (a + 1) div 36524" by (rule zdiv_mono1) auto
  moreover have "a div 146096 = 0" "(a + 1) div 146096 = 0" using assms False by simp_all
  ultimately show ?thesis unfolding corrected_def by (simp only: step)
qed (simp add: corrected_def)

lemma corrected_mono: "0 \<le> a \<Longrightarrow> a \<le> b \<Longrightarrow> b \<le> 146096 \<Longrightarrow> corrected a \<le> corrected b"
proof (induction "nat (b - a)" arbitrary: b)
  case (Suc n)
  then have "corrected a \<le> corrected (b - 1)" by simp
  also have "\<dots> \<le> corrected (b - 1 + 1)" using Suc by (intro corrected_Suc) auto
  finally show ?case by simp
qed simp

lemma year_bounds:
  "\<forall>n \<in> {0..399}. 0 \<le> year_start n \<and> year_end n \<le> 146096
     \<and> 365 * n \<le> corrected (year_start n) \<and> corrected (year_end n) < 365 * (n + 1)"
  by code_simp

lemma year_of_era:
  assumes n: "0 \<le> n" "n \<le> 399" and doe: "year_start n \<le> doe" "doe \<le> year_end n"
  shows "corrected doe div 365 = n"
proof -
  have b: "0 \<le> year_start n" "year_end n \<le> 146096" "365 * n \<le> corrected (year_start n)"
      "corrected (year_end n) < 365 * (n + 1)"
    using year_bounds n by auto
  have "365 * n \<le> corrected doe" "corrected doe < 365 * (n + 1)"
    using b corrected_mono[of "year_start n" doe] corrected_mono[of doe "year_end n"] doe by linarith+
  then show ?thesis by (intro int_div_pos_eq[where r = "corrected doe - 365 * n"]) auto
qed

lemma year_end_next_all: "\<forall>n \<in> {0..398}. year_start (n + 1) = year_end n + 1"
  by code_simp

lemma year_end_next: "0 \<le> n \<Longrightarrow> n < 399 \<Longrightarrow> year_start (n + 1) = year_end n + 1"
  using year_end_next_all by auto

lemma year_exists:
  assumes "0 \<le> doe" "doe \<le> 146096"
  obtains n where "0 \<le> n" "n \<le> 399" "year_start n \<le> doe" "doe \<le> year_end n"
proof -
  have "k \<le> 399 \<Longrightarrow> doe \<le> year_end (int k) \<Longrightarrow>
      \<exists>n. 0 \<le> n \<and> n \<le> 399 \<and> year_start n \<le> doe \<and> doe \<le> year_end n" for k :: nat
  proof (induction k)
    case 0
    then show ?case using assms by (intro exI[of _ 0]) (simp add: year_start_def)
  next
    case (Suc k)
    show ?case
    proof (cases "doe \<le> year_end (int k)")
      case False
      then have "year_start (int (Suc k)) \<le> doe"
        using Suc.prems year_end_next[of "int k"] by (simp add: add.commute)
      then show ?thesis using Suc.prems by (intro exI[of _ "int (Suc k)"]) auto
    qed (use Suc in simp)
  qed
  from this[of 399] show ?thesis
    using assms that by (auto simp: year_end_def year_start_def long_year_def)
qed

text \<open>Months counted from March.\<close>

definition month_start :: "int \<Rightarrow> int" where
  "month_start mp = (153 * mp + 2) div 5"

lemma less_div5: "d < a div (5 :: int) \<longleftrightarrow> 5 * d + 5 \<le> a"
  by linarith

lemma div5_le: "a div (5 :: int) \<le> d \<longleftrightarrow> a \<le> 5 * d + 4"
  by linarith

lemma div153_eq: "a div (153 :: int) = q \<longleftrightarrow> 153 * q \<le> a \<and> a \<le> 153 * q + 152"
  by linarith

lemma month_of_day:
  "(5 * doy + 2) div 153 = mp \<longleftrightarrow> month_start mp \<le> doy \<and> doy < month_start (mp + 1)"
  unfolding month_start_def less_div5 div5_le div153_eq by auto

text \<open>A valid calendar date, and its year and day of year counted from March.\<close>

definition valid_date :: "int \<Rightarrow> int \<Rightarrow> int \<Rightarrow> bool" where
  "valid_date y m d \<longleftrightarrow> 1 \<le> m \<and> m \<le> 12 \<and> 1 \<le> d \<and> d \<le> days_in_month_local y m"

definition march_year :: "int \<Rightarrow> int \<Rightarrow> int" where
  "march_year y m = (if m \<le> 2 then y - 1 else y)"

definition march_month :: "int \<Rightarrow> int" where
  "march_month m = (if m > 2 then m - 3 else m + 9)"

definition march_day :: "int \<Rightarrow> int \<Rightarrow> int" where
  "march_day m d = month_start (march_month m) + d - 1"

lemma civil_days_eq:
  assumes "1 \<le> m"
  shows "civil_days y m d =
    march_year y m div 400 * 146097 + (year_start (march_year y m mod 400) + march_day m d) - 719468"
proof -
  define y' where "y' = march_year y m"
  have m: "0 \<le> march_month m" using assms by (simp add: march_month_def)
  have d: "civil_days y m d = y' div 400 * 146097
      + ((y' - y' div 400 * 400) * 365 + (y' - y' div 400 * 400) sdiv 4 - (y' - y' div 400 * 400) sdiv 100
         + ((153 * march_month m + 2) sdiv 5 + d - 1)) - 719468"
    unfolding civil_days_def march_year_def[symmetric] march_month_def[symmetric] Let_def
      y'_def[symmetric] era_floor ..
  show ?thesis
    unfolding d y'_def[symmetric] minus_div_mult_eq_mod march_day_def
    using m by (simp add: year_start_def month_start_def)
qed

lemma civil_from_days_doe:
  assumes n: "0 \<le> n" "n \<le> 399" "year_start n \<le> doe" "doe \<le> year_end n"
    and days: "days + 719468 = era * 146097 + doe"
  shows "civil_from_days days =
    (let doy = doe - year_start n; mp = (5 * doy + 2) div 153;
         m = (if mp < 10 then mp + 3 else mp - 9)
     in (if m \<le> 2 then n + era * 400 + 1 else n + era * 400, m, doy - month_start mp + 1))"
proof -
  have b: "0 \<le> doe" "doe \<le> 146096" using year_bounds n by force+
  have era: "(days + 719468) div 146097 = era" unfolding days
    using b by (intro int_div_pos_eq[where r = doe]) auto
  have yoe: "corrected doe div 365 = n" by (rule year_of_era) (use n in auto)
  have c: "0 \<le> corrected doe" using corrected_mono[of 0 doe] b by (simp add: corrected_def)
  have doy: "0 \<le> doe - year_start n" using n by simp
  then have mp: "0 \<le> (5 * (doe - year_start n) + 2) div 153" by simp
  have eqs: "(doe - doe sdiv 1460 + doe sdiv 36524 - doe sdiv 146096) sdiv 365 = n"
      "n sdiv 4 = n div 4" "n sdiv 100 = n div 100"
      "(5 * (doe - year_start n) + 2) sdiv 153 = (5 * (doe - year_start n) + 2) div 153"
    using b c yoe n doy by (simp_all add: corrected_def)
  have ms: "0 \<le> k \<Longrightarrow> (153 * k + 2) sdiv 5 = month_start k" for k by (simp add: month_start_def)
  have "days + 719468 - era * 146097 = doe" using days by simp
  moreover have "doe - (365 * n + n div 4 - n div 100) = doe - year_start n"
    by (simp add: year_start_def)
  ultimately show ?thesis
    by (simp only: civil_from_days_def Let_def era eqs ms[OF mp])
qed

lemma civil_from_days_eq:
  assumes "0 \<le> n" "n \<le> 399" "0 \<le> doy" "year_start n + doy \<le> year_end n"
    and "days + 719468 = era * 146097 + (year_start n + doy)"
  shows "civil_from_days days =
    (let mp = (5 * doy + 2) div 153;
         m = (if mp < 10 then mp + 3 else mp - 9)
     in (if m \<le> 2 then n + era * 400 + 1 else n + era * 400, m, doy - month_start mp + 1))"
proof -
  have doy: "year_start n + doy - year_start n = doy" by simp
  show ?thesis
    using civil_from_days_doe[of n "year_start n + doy" days era] assms unfolding doy Let_def by simp
qed

lemma feb_length: "days_in_month_local y 2 = (if long_year ((y - 1) mod 400) then 29 else 28)"
proof -
  define n k where "n = (y - 1) mod 400" and "k = (y - 1) div 400"
  have y: "y = 400 * k + (n + 1)" unfolding n_def k_def using div_mult_mod_eq[of "y - 1" 400] by simp
  have n: "0 \<le> n" "n < 400" by (simp_all add: n_def)
  have "y mod 4 = (n + 1) mod 4" "y mod 100 = (n + 1) mod 100" unfolding y
    using mod_mult_self4[of 4 "k * 100" "n + 1"] mod_mult_self4[of 100 "k * 4" "n + 1"]
    by (simp_all add: mult.commute)
  moreover have "y mod 400 = (n + 1) mod 400" unfolding y by simp
  moreover have "(n + 1) mod 400 = 0 \<longleftrightarrow> n = 399" using n by (cases "n = 399") auto
  ultimately show ?thesis
    by (simp add: days_in_month_local_def smod_eq_0 long_year_def n_def [symmetric])
qed

lemma month_cases:
  assumes "1 \<le> m" "m \<le> (12 :: int)"
  shows "m = 1 \<or> m = 2 \<or> m = 3 \<or> m = 4 \<or> m = 5 \<or> m = 6 \<or> m = 7 \<or> m = 8 \<or> m = 9 \<or> m = 10
    \<or> m = 11 \<or> m = 12"
  using assms by arith

lemma march_day_not_feb:
  assumes "valid_date y m d" "m \<noteq> 2"
  shows "month_start (march_month m) \<le> march_day m d \<and> march_day m d < month_start (march_month m + 1)
    \<and> 0 \<le> march_day m d \<and> march_day m d \<le> 364"
proof -
  have d: "1 \<le> d" "d \<le> days_in_month_local y m" using assms by (simp_all add: valid_date_def)
  have "m = 1 \<or> m = 2 \<or> m = 3 \<or> m = 4 \<or> m = 5 \<or> m = 6 \<or> m = 7 \<or> m = 8 \<or> m = 9 \<or> m = 10 \<or> m = 11 \<or> m = 12"
    using assms by (intro month_cases) (simp_all add: valid_date_def)
  then show ?thesis
    by (elim disjE)
      (use d assms in \<open>simp_all add: march_day_def march_month_def month_start_def days_in_month_local_def\<close>)
qed

lemma march_day_bounds:
  assumes "valid_date y m d"
  shows "month_start (march_month m) \<le> march_day m d \<and> march_day m d < month_start (march_month m + 1)"
    and "0 \<le> march_day m d \<and> march_day m d \<le> (if long_year (march_year y m mod 400) then 365 else 364)"
proof -
  have "m = 2 \<Longrightarrow> march_day m d = 336 + d \<and> march_month m = 11 \<and> march_year y m = y - 1"
    by (simp add: march_day_def march_month_def month_start_def march_year_def)
  then have "m = 2 \<Longrightarrow> month_start (march_month m) \<le> march_day m d \<and> march_day m d < month_start (march_month m + 1)
      \<and> 0 \<le> march_day m d \<and> march_day m d \<le> (if long_year (march_year y m mod 400) then 365 else 364)"
    using assms feb_length[of y] by (auto simp: valid_date_def month_start_def split: if_splits)
  then show "month_start (march_month m) \<le> march_day m d \<and> march_day m d < month_start (march_month m + 1)"
    "0 \<le> march_day m d \<and> march_day m d \<le> (if long_year (march_year y m mod 400) then 365 else 364)"
    using march_day_not_feb[OF assms] by (cases "m = 2"; auto)+
qed

lemma march_month_inverse:
  "1 \<le> m \<Longrightarrow> m \<le> 12 \<Longrightarrow> (if march_month m < 10 then march_month m + 3 else march_month m - 9) = m"
  by (auto simp: march_month_def)

lemma civil_days_inverse:
  assumes v: "valid_date y m d"
  shows "civil_from_days (civil_days y m d) = (y, m, d)"
proof -
  define Y n where "Y = march_year y m" and "n = Y mod 400"
  have m: "1 \<le> m" "m \<le> 12" using v by (auto simp: valid_date_def)
  have "civil_days y m d + 719468 = Y div 400 * 146097 + (year_start n + march_day m d)"
    using civil_days_eq[OF m(1), of y d] by (simp add: Y_def n_def)
  moreover have "0 \<le> n" "n \<le> 399" using pos_mod_bound[of 400 Y] by (auto simp: n_def)
  moreover have "0 \<le> march_day m d" "year_start n + march_day m d \<le> year_end n"
    using march_day_bounds(2)[OF v] by (simp_all add: year_end_def n_def Y_def)
  ultimately have "civil_from_days (civil_days y m d) =
    (let doy = march_day m d; mp = (5 * doy + 2) div 153;
         m = (if mp < 10 then mp + 3 else mp - 9)
     in (if m \<le> 2 then n + Y div 400 * 400 + 1 else n + Y div 400 * 400, m, doy - month_start mp + 1))"
    using civil_from_days_eq[of n "march_day m d"] by (simp only: Let_def)
  moreover have "(5 * march_day m d + 2) div 153 = march_month m"
    using march_day_bounds(1)[OF v] by (simp add: month_of_day)
  moreover have "n + Y div 400 * 400 = Y" by (simp add: n_def)
  ultimately have "civil_from_days (civil_days y m d) =
      (if m \<le> 2 then Y + 1 else Y, m, march_day m d - month_start (march_month m) + 1)"
    by (simp only: march_month_inverse[OF m] Let_def)
  then show ?thesis by (simp add: march_day_def Y_def march_year_def)
qed

lemma civil_from_days_valid:
  assumes "civil_from_days days = (y, m, d)"
  shows "valid_date y m d" "civil_days y m d = days"
proof -
  define z where "z = days + 719468"
  have "0 \<le> z mod 146097" "z mod 146097 \<le> 146096" using pos_mod_bound[of 146097 z] by auto
  then obtain n where n: "0 \<le> n" "n \<le> 399" "year_start n \<le> z mod 146097" "z mod 146097 \<le> year_end n"
    by (rule year_exists)
  define doy where "doy = z mod 146097 - year_start n"
  define mp where "mp = (5 * doy + 2) div 153"
  have z: "days + 719468 = z div 146097 * 146097 + (year_start n + doy)" by (simp add: z_def doy_def)
  have doy: "0 \<le> doy" "doy \<le> (if long_year n then 365 else 364)"
    using n by (simp_all add: doy_def year_end_def)
  have mb: "month_start mp \<le> doy" "doy < month_start (mp + 1)"
    using month_of_day[of doy mp] by (simp_all add: mp_def)
  have "doy \<le> 365" using doy by (simp split: if_splits)
  then have "(5 * doy + 2) div 153 \<le> 1827 div 153" by (intro zdiv_mono1) auto
  then have mp: "0 \<le> mp" "mp \<le> 11" using doy(1) by (simp_all add: mp_def)
  define Y where "Y = n + z div 146097 * 400"
  have Y: "Y mod 400 = n" "Y div 400 = z div 146097" using n by (simp_all add: Y_def)
  have "year_start n + doy \<le> year_end n" using n by (simp add: doy_def)
  note ymd = trans[OF assms[symmetric] civil_from_days_eq[OF n(1,2) doy(1) this z], unfolded Let_def,
      folded mp_def Y_def, unfolded prod.inject]
  then have m: "m = (if mp < 10 then mp + 3 else mp - 9)" and d: "d = doy - month_start mp + 1"
    by blast+
  have y: "y = (if m \<le> 2 then Y + 1 else Y)" using ymd unfolding m by blast
  have back1: "march_month m = mp" "march_year y m = Y" "1 \<le> m" "m \<le> 12"
    using mp by (auto simp: m y march_month_def march_year_def)
  have back2: "march_day m d = doy" by (simp add: march_day_def back1 d)
  show "civil_days y m d = days"
    using civil_days_eq[OF back1(3)] z by (simp add: back1 back2 Y)
  have "mp = 0 \<or> mp = 1 \<or> mp = 2 \<or> mp = 3 \<or> mp = 4 \<or> mp = 5 \<or> mp = 6 \<or> mp = 7 \<or> mp = 8 \<or> mp = 9
      \<or> mp = 10 \<or> mp = 11" using mp by arith
  moreover have "mp = 11 \<Longrightarrow> days_in_month_local y m = (if long_year n then 29 else 28)"
    using feb_length[of y] Y by (simp add: y m)
  ultimately have "d \<le> days_in_month_local y m"
    using mb doy unfolding d
    by (elim disjE) (simp_all add: m month_start_def days_in_month_local_def split: if_splits)
  then show "valid_date y m d" using back1 mb by (simp add: valid_date_def d)
qed

text \<open>
  C3: day counts and calendar dates are in bijection.  For a valid
  date whose day count fits \<^verbatim>\<open>i32\<close>, \<open>civil_from_days\<close> recovers the date from
  \<open>days_from_civil\<close>; and every \<^verbatim>\<open>i32\<close> day count is decomposed into a valid date from
  which \<open>days_from_civil\<close> recovers it.
\<close>

theorem civil_date_roundtrip:
  "(valid_date y m d \<and> days_from_civil y m d = Some n \<longrightarrow> civil_from_days n = (y, m, d)) \<and>
   (try_i32 n = Some n \<and> civil_from_days n = (y, m, d) \<longrightarrow>
     valid_date y m d \<and> days_from_civil y m d = Some n)"
proof (intro conjI impI; elim conjE)
  show "valid_date y m d \<Longrightarrow> days_from_civil y m d = Some n \<Longrightarrow> civil_from_days n = (y, m, d)"
    using civil_days_inverse by (auto simp: days_from_civil_def try_i32_def split: if_splits)
next
  assume "civil_from_days n = (y, m, d)" "try_i32 n = Some n"
  then show "valid_date y m d" "days_from_civil y m d = Some n"
    using civil_from_days_valid by (simp_all add: days_from_civil_def)
qed

theorem civil_date_roundtrip_witness:
  "days_from_civil 2024 2 29 = Some 19782 \<and> civil_from_days 19782 = (2024, 2, 29)
   \<and> days_from_civil 1969 12 31 = Some (-1) \<and> valid_date 1969 12 31"
proof -
  have a: "days_from_civil 2024 2 29 = Some 19782" "valid_date 2024 2 29"
    "try_i32 (-1) = Some (-1)" "civil_from_days (-1) = (1969, 12, 31)" by code_simp+
  show ?thesis
    using a civil_date_roundtrip[of 2024 2 29 19782] civil_date_roundtrip[of 1969 12 31 "-1"] by blast
qed

section \<open>Formatting and parsing\<close>

lemma utf8_bytes_append [simp]: "utf8_bytes (s @ t) = utf8_bytes s @ utf8_bytes t"
  by (simp add: utf8_bytes_def)

lemma digit_bytes: "n < 10 \<Longrightarrow> utf8_bytes [char_of (48 + n)] = [48 + n]"
  by (simp add: utf8_bytes_def)

text \<open>The decimal digits of a number at a fixed width.\<close>

fun fixed_digits :: "nat \<Rightarrow> nat \<Rightarrow> nat list" where
  "fixed_digits 0 n = []"
| "fixed_digits (Suc w) n = fixed_digits w (n div 10) @ [48 + n mod 10]"

lemma utf8_digits_fixed:
  assumes "n < 10 ^ w" "0 < w"
  shows "replicate (w - length (digits n)) 48 @ utf8_bytes (digits n) = fixed_digits w n
    \<and> length (digits n) \<le> w"
  using assms
proof (induction n arbitrary: w rule: digits.induct)
  case (1 n)
  obtain v where w: "w = Suc v" using 1 by (cases w) auto
  have zero: "fixed_digits u 0 = replicate u 48" for u
    by (induction u) (simp_all add: replicate_append_same[symmetric])
  show ?case
  proof (cases "n < 10")
    case True
    then show ?thesis by (simp add: w digits.simps[of n] digit_bytes zero)
  next
    case False
    then have v: "0 < v" "n div 10 < 10 ^ v" using 1 by (cases v; simp add: w)+
    have IH: "replicate (v - length (digits (n div 10))) 48 @ utf8_bytes (digits (n div 10)) = fixed_digits v (n div 10)"
      "length (digits (n div 10)) \<le> v" using 1 False v by auto
    have "digits n = digits (n div 10) @ [char_of (48 + n mod 10)]" using False by (simp add: digits.simps[of n])
    then show ?thesis using IH by (simp add: w digit_bytes)
  qed
qed

lemma zero_padded_bytes:
  assumes "0 \<le> v" "v < 10 ^ w" "0 < w"
  shows "utf8_bytes (zero_padded w v) = fixed_digits w (nat v)"
proof -
  have "nat v < 10 ^ w" using assms by (simp add: nat_less_iff)
  moreover have "utf8_bytes (replicate k (CHR ''0'')) = replicate k 48" for k
    by (induction k) (auto simp: utf8_bytes_def)
  ultimately show ?thesis using utf8_digits_fixed[of "nat v" w] assms(3)
    by (simp add: zero_padded_def Let_def)
qed

lemma digits_loop_append:
  "digits_loop (length ds) (ds @ rest) a = Some (foldl (\<lambda>v c. v * 10 + int (c - 48)) a ds, rest)"
  if "\<forall>c \<in> set ds. 48 \<le> c \<and> c \<le> 57"
  using that by (induction ds arbitrary: a) auto

lemma fixed_digits_props:
  "length (fixed_digits w n) = w" "\<forall>c \<in> set (fixed_digits w n). 48 \<le> c \<and> c \<le> 57"
  by (induction w n rule: fixed_digits.induct) (auto simp: less_Suc_eq_le[symmetric])

lemma fixed_digits_value:
  "n < 10 ^ w \<Longrightarrow> foldl (\<lambda>v c. v * 10 + int (c - 48)) 0 (fixed_digits w n) = int n"
proof (induction w n rule: fixed_digits.induct)
  case (2 w n)
  then have "n div 10 < 10 ^ w" by auto
  with 2 show ?case by (simp add: of_nat_mod of_nat_div)
qed simp

lemma take_digits_padded:
  assumes "0 \<le> v" "v < 10 ^ w" "0 < w"
  shows "take_digits (utf8_bytes (zero_padded w v) @ rest) w = Some (v, rest)"
proof -
  have "nat v < 10 ^ w" using assms by (simp add: nat_less_iff)
  then show ?thesis
    using digits_loop_append[of "fixed_digits w (nat v)" rest 0] fixed_digits_props[of w "nat v"]
      fixed_digits_value[of "nat v" w] assms
    by (simp add: take_digits_def zero_padded_bytes)
qed

text \<open>What a token writes into the parsed record.\<close>

fun copy_token :: "CivilDateTime \<Rightarrow> FormatToken \<Rightarrow> CivilDateTime \<Rightarrow> CivilDateTime" where
  "copy_token q TokYear4 p = p\<lparr>c_year := c_year q\<rparr>"
| "copy_token q TokMonth p = p\<lparr>c_month := c_month q\<rparr>"
| "copy_token q TokDay p = p\<lparr>c_day := c_day q\<rparr>"
| "copy_token q TokHour24 p = p\<lparr>c_hour := c_hour q\<rparr>"
| "copy_token q TokMinute p = p\<lparr>c_minute := c_minute q\<rparr>"
| "copy_token q TokSecond p = p\<lparr>c_second := c_second q\<rparr>"
| "copy_token q (TokLiteral _) p = p"

fun ascii_token :: "FormatToken \<Rightarrow> bool" where
  "ascii_token (TokLiteral c) \<longleftrightarrow> of_char c < (128 :: nat)"
| "ascii_token _ \<longleftrightarrow> True"

lemma civil_in_range_bounds:
  assumes "civil_in_range q" "0 \<le> c_year q" "c_year q \<le> 9999"
  shows "0 \<le> c_year q \<and> c_year q < 10 ^ 4" "0 \<le> c_month q \<and> c_month q < 10 ^ 2"
    "0 \<le> c_day q \<and> c_day q < 10 ^ 2" "0 \<le> c_hour q \<and> c_hour q < 10 ^ 2"
    "0 \<le> c_minute q \<and> c_minute q < 10 ^ 2" "0 \<le> c_second q \<and> c_second q < 10 ^ 2"
  using assms by (auto simp: civil_in_range_def days_in_month_local_def split: if_splits)

lemma parse_token_format:
  assumes "civil_in_range q" "0 \<le> c_year q" "c_year q \<le> 9999" "ascii_token t"
  shows "parse_token t (utf8_bytes (format_token q t) @ rest) p = Some (copy_token q t p, rest)"
  using civil_in_range_bounds[OF assms(1-3)] assms(4)
  by (cases t) (simp_all add: take_digits_padded, simp add: utf8_bytes_def)

lemma parse_tokens_format:
  assumes "civil_in_range q" "0 \<le> c_year q" "c_year q \<le> 9999" "list_all ascii_token ts"
  shows "parse_tokens ts (utf8_bytes (format_civil q ts) @ rest) p = Some (fold (copy_token q) ts p, rest)"
  using assms(4)
proof (induction ts arbitrary: p)
  case (Cons t ts)
  then show ?case using parse_token_format[OF assms(1-3)] by (simp add: format_civil_def)
qed (simp add: format_civil_def utf8_bytes_def)

lemma fold_copy_fields:
  "c_year (fold (copy_token q) ts p) = (if TokYear4 \<in> set ts then c_year q else c_year p)"
  "c_month (fold (copy_token q) ts p) = (if TokMonth \<in> set ts then c_month q else c_month p)"
  "c_day (fold (copy_token q) ts p) = (if TokDay \<in> set ts then c_day q else c_day p)"
  "c_hour (fold (copy_token q) ts p) = (if TokHour24 \<in> set ts then c_hour q else c_hour p)"
  "c_minute (fold (copy_token q) ts p) = (if TokMinute \<in> set ts then c_minute q else c_minute p)"
  "c_second (fold (copy_token q) ts p) = (if TokSecond \<in> set ts then c_second q else c_second p)"
  by (induction ts arbitrary: p; simp; case_tac a; simp)+


definition demo_pattern :: "FormatToken list" where
  "demo_pattern = [TokDay, TokLiteral (CHR ''/''), TokMonth, TokLiteral (CHR ''/''), TokYear4]"

definition demo_date :: CivilDateTime where
  "demo_date = \<lparr>c_year = 2024, c_month = 2, c_day = 29, c_hour = 0, c_minute = 0, c_second = 0\<rparr>"


text \<open>C21: a date-time recomposed to nanosecond ticks decomposes to itself;
  at any other unit the decomposition, which always reads nanoseconds, gives another date-time for
  2024-02-29.\<close>

theorem nanosecond_ticks_roundtrip:
  "(valid_date (c_year p) (c_month p) (c_day p) \<and> 0 \<le> c_hour p \<and> c_hour p < 24 \<and> 0 \<le> c_minute p
     \<and> c_minute p < 60 \<and> 0 \<le> c_second p \<and> c_second p < 60
     \<and> civil_to_ticks p Nanosecond = Some t \<longrightarrow> civil_from_ticks_ns t = p)
   \<and> map_option civil_from_ticks_ns (civil_to_ticks demo_date Second) \<noteq> Some demo_date"
proof (intro conjI impI)
  assume a: "valid_date (c_year p) (c_month p) (c_day p) \<and> 0 \<le> c_hour p \<and> c_hour p < 24 \<and> 0 \<le> c_minute p
     \<and> c_minute p < 60 \<and> 0 \<le> c_second p \<and> c_second p < 60
     \<and> civil_to_ticks p Nanosecond = Some t"
  define days sod where "days = civil_days (c_year p) (c_month p) (c_day p)"
    and "sod = c_hour p * 3600 + c_minute p * 60 + c_second p"
  have t: "t = (days * 86400 + sod) * 1000000000"
    using a by (auto simp: civil_to_ticks_def days_from_civil_def try_i32_def try_i64_def days_def sod_def
        split: if_splits Option.bind_splits)
  have sod: "0 \<le> sod" "sod < 86400" using a by (auto simp: sod_def)
  have "(days * 86400 + sod) div 86400 = days" "(days * 86400 + sod) mod 86400 = sod" using sod by simp_all
  moreover have "civil_from_days days = (c_year p, c_month p, c_day p)"
    using a civil_days_inverse by (simp add: days_def)
  moreover have "sod div 3600 = c_hour p" "sod mod 3600 = c_minute p * 60 + c_second p"
    using a by (auto simp: sod_def intro!: int_div_pos_eq[where r = "c_minute p * 60 + c_second p"]
        int_mod_pos_eq[where q = "c_hour p"])
  moreover have "(c_minute p * 60 + c_second p) div 60 = c_minute p" "sod mod 60 = c_second p"
    using a by (auto simp: sod_def intro!: int_div_pos_eq[where r = "c_second p"]
        int_mod_pos_eq[where q = "c_hour p * 60 + c_minute p"])
  ultimately show "civil_from_ticks_ns t = p"
    using sod by (intro CivilDateTime.equality) (simp_all add: civil_from_ticks_ns_def Let_def t smod_nonneg)
next
  show "map_option civil_from_ticks_ns (civil_to_ticks demo_date Second) \<noteq> Some demo_date" by code_simp
qed

theorem nanosecond_ticks_roundtrip_witness:
  "civil_from_ticks_ns 1709164800000000000 = demo_date"
proof -
  have "civil_to_ticks demo_date Nanosecond = Some 1709164800000000000"
    "valid_date (c_year demo_date) (c_month demo_date) (c_day demo_date)" by code_simp+
  then show ?thesis using nanosecond_ticks_roundtrip[of demo_date 1709164800000000000]
    by (simp add: demo_date_def)
qed

end
