(* ===== verification/Host_Values.thy ===== *)
theory Host_Values
  imports Typing Floats Dates
begin

text \<open>
  Cells of the host evaluator (\<^verbatim>\<open>exec/expr_agg.rs\<close>): the per-row arithmetic, bit
  operations, comparisons and casts that its columnar loops apply.  A cell is a
  \<open>Value option\<close> with \<open>None\<close> for SQL NULL; machine integers are words (wrapping), floats
  are bit patterns.  The \<open>unreachable!\<close> arms of the source, which no caller enters, give
  NULL or the first operand here.
\<close>

datatype Value =
    VBool bool
  | VI32 "32 word"
  | VI64 "64 word"
  | VF32 f32
  | VF64 f64
  | VUtf8 string

fun val_dtype :: "Value \<Rightarrow> DataType" where
  "val_dtype (VBool _) = Bool"
| "val_dtype (VI32 _) = Int32"
| "val_dtype (VI64 _) = Int64"
| "val_dtype (VF32 _) = Float32"
| "val_dtype (VF64 _) = Float64"
| "val_dtype (VUtf8 _) = Utf8"

section \<open>Integers\<close>

text \<open>\<^verbatim>\<open>checked_div\<close> and \<^verbatim>\<open>checked_rem\<close>: NULL on a zero divisor and on \<^verbatim>\<open>MIN / -1\<close>.\<close>

definition div_defined :: "'a::len word \<Rightarrow> 'a word \<Rightarrow> bool" where
  "div_defined x y \<longleftrightarrow> y \<noteq> 0 \<and> \<not> (sint x = - (2 ^ (LENGTH('a) - 1)) \<and> sint y = - 1)"

definition checked_div :: "'a::len word \<Rightarrow> 'a word \<Rightarrow> 'a word option" where
  "checked_div x y = (if div_defined x y then Some (word_of_int (sint x sdiv sint y)) else None)"

definition checked_rem :: "'a::len word \<Rightarrow> 'a word \<Rightarrow> 'a word option" where
  "checked_rem x y = (if div_defined x y then Some (word_of_int (sint x smod sint y)) else None)"

definition int_arith :: "BinaryOp \<Rightarrow> 'a::len word \<Rightarrow> 'a word \<Rightarrow> 'a word option" where
  "int_arith op x y =
    (case op of
       Add \<Rightarrow> Some (x + y)
     | Sub \<Rightarrow> Some (x - y)
     | Mul \<Rightarrow> Some (x * y)
     | Div \<Rightarrow> checked_div x y
     | _ \<Rightarrow> None)"

text \<open>A shift count outside the width gives 0 for \<^verbatim>\<open><<\<close> and the sign fill for \<^verbatim>\<open>>>\<close>.\<close>

definition shl_word :: "'a::len word \<Rightarrow> 'a word \<Rightarrow> 'a word" where
  "shl_word x y =
    (if 0 \<le> sint y \<and> sint y < int LENGTH('a) then push_bit (nat (sint y)) x else 0)"

definition shr_word :: "'a::len word \<Rightarrow> 'a word \<Rightarrow> 'a word" where
  "shr_word x y =
    (if 0 \<le> sint y \<and> sint y < int LENGTH('a) then word_of_int (sint x div 2 ^ nat (sint y))
     else word_of_int (sint x div 2 ^ (LENGTH('a) - 1)))"

unbundle bit_operations_syntax

definition int_bitop :: "BinaryOp \<Rightarrow> 'a::len word \<Rightarrow> 'a word \<Rightarrow> 'a word option" where
  "int_bitop op x y =
    (case op of
       Mod \<Rightarrow> checked_rem x y
     | BitAnd \<Rightarrow> Some (x AND y)
     | BitOr \<Rightarrow> Some (x OR y)
     | BitXor \<Rightarrow> Some (x XOR y)
     | Shl \<Rightarrow> Some (shl_word x y)
     | Shr \<Rightarrow> Some (shr_word x y)
     | _ \<Rightarrow> None)"

section \<open>Floats and comparisons\<close>

definition float_op :: "BinaryOp \<Rightarrow> fp \<Rightarrow> fp \<Rightarrow> fp" where
  "float_op op =
    (case op of
       Add \<Rightarrow> fp_add
     | Sub \<Rightarrow> fp_sub
     | Mul \<Rightarrow> fp_mul
     | Div \<Rightarrow> fp_div
     | _ \<Rightarrow> (\<lambda>x y. x))"

text \<open>\<^verbatim>\<open>apply_cmp\<close> over the type's \<^verbatim>\<open>PartialEq\<close> and \<^verbatim>\<open>PartialOrd\<close>.\<close>

definition apply_cmp :: "('a \<Rightarrow> 'a \<Rightarrow> bool) \<Rightarrow> ('a \<Rightarrow> 'a \<Rightarrow> bool) \<Rightarrow> BinaryOp \<Rightarrow> 'a \<Rightarrow> 'a \<Rightarrow> bool" where
  "apply_cmp eq lt op x y =
    (case op of
       Eq \<Rightarrow> eq x y
     | NotEq \<Rightarrow> \<not> eq x y
     | Lt \<Rightarrow> lt x y
     | LtEq \<Rightarrow> lt x y \<or> eq x y
     | Gt \<Rightarrow> lt y x
     | GtEq \<Rightarrow> lt y x \<or> eq y x
     | _ \<Rightarrow> False)"

definition sint_less :: "'a::len word \<Rightarrow> 'a word \<Rightarrow> bool" where
  "sint_less x y \<longleftrightarrow> sint x < sint y"

definition f32_eq :: "f32 \<Rightarrow> f32 \<Rightarrow> bool" where "f32_eq x y = fp_eq (f32_dec x) (f32_dec y)"
definition f32_lt :: "f32 \<Rightarrow> f32 \<Rightarrow> bool" where "f32_lt x y = fp_lt (f32_dec x) (f32_dec y)"
definition f64_eq :: "f64 \<Rightarrow> f64 \<Rightarrow> bool" where "f64_eq x y = fp_eq (f64_dec x) (f64_dec y)"
definition f64_lt :: "f64 \<Rightarrow> f64 \<Rightarrow> bool" where "f64_lt x y = fp_lt (f64_dec x) (f64_dec y)"

section \<open>Casts of one value\<close>

definition i32_of_bool :: "bool \<Rightarrow> 32 word" where "i32_of_bool b = (if b then 1 else 0)"
definition i64_of_bool :: "bool \<Rightarrow> 64 word" where "i64_of_bool b = (if b then 1 else 0)"
definition f32_of_bool :: "bool \<Rightarrow> f32" where "f32_of_bool b = f32_of_int (if b then 1 else 0)"
definition f64_of_bool :: "bool \<Rightarrow> f64" where "f64_of_bool b = f64_of_int (if b then 1 else 0)"

definition i32_as_i64 :: "32 word \<Rightarrow> 64 word" where "i32_as_i64 x = word_of_int (sint x)"
definition i64_as_i32 :: "64 word \<Rightarrow> 32 word" where "i64_as_i32 x = word_of_int (sint x)"
definition f32_as_i32 :: "f32 \<Rightarrow> 32 word" where "f32_as_i32 x = word_of_int (fp_as_int 32 (f32_dec x))"
definition f32_as_i64 :: "f32 \<Rightarrow> 64 word" where "f32_as_i64 x = word_of_int (fp_as_int 64 (f32_dec x))"
definition f64_as_i32 :: "f64 \<Rightarrow> 32 word" where "f64_as_i32 x = word_of_int (fp_as_int 32 (f64_dec x))"
definition f64_as_i64 :: "f64 \<Rightarrow> 64 word" where "f64_as_i64 x = word_of_int (fp_as_int 64 (f64_dec x))"
definition f32_nonzero :: "f32 \<Rightarrow> bool" where "f32_nonzero x \<longleftrightarrow> \<not> f32_eq x 0"
definition f64_nonzero :: "f64 \<Rightarrow> bool" where "f64_nonzero x \<longleftrightarrow> \<not> f64_eq x 0"

fun value_to_i32 :: "Value \<Rightarrow> 32 word BoltResult" where
  "value_to_i32 (VBool b) = Ok (i32_of_bool b)"
| "value_to_i32 (VI32 x) = Ok x"
| "value_to_i32 (VI64 x) = Ok (i64_as_i32 x)"
| "value_to_i32 (VF32 x) = Ok (f32_as_i32 x)"
| "value_to_i32 (VF64 x) = Ok (f64_as_i32 x)"
| "value_to_i32 (VUtf8 _) = Err OtherErr"

fun value_to_i64 :: "Value \<Rightarrow> 64 word BoltResult" where
  "value_to_i64 (VBool b) = Ok (i64_of_bool b)"
| "value_to_i64 (VI32 x) = Ok (i32_as_i64 x)"
| "value_to_i64 (VI64 x) = Ok x"
| "value_to_i64 (VF32 x) = Ok (f32_as_i64 x)"
| "value_to_i64 (VF64 x) = Ok (f64_as_i64 x)"
| "value_to_i64 (VUtf8 _) = Err OtherErr"

fun value_to_f32 :: "Value \<Rightarrow> f32 BoltResult" where
  "value_to_f32 (VBool b) = Ok (f32_of_bool b)"
| "value_to_f32 (VI32 x) = Ok (f32_of_int (sint x))"
| "value_to_f32 (VI64 x) = Ok (f32_of_int (sint x))"
| "value_to_f32 (VF32 x) = Ok x"
| "value_to_f32 (VF64 x) = Ok (f32_of_f64 x)"
| "value_to_f32 (VUtf8 _) = Err OtherErr"

fun value_to_f64 :: "Value \<Rightarrow> f64 BoltResult" where
  "value_to_f64 (VBool b) = Ok (f64_of_bool b)"
| "value_to_f64 (VI32 x) = Ok (f64_of_int (sint x))"
| "value_to_f64 (VI64 x) = Ok (f64_of_int (sint x))"
| "value_to_f64 (VF32 x) = Ok (f64_of_f32 x)"
| "value_to_f64 (VF64 x) = Ok x"
| "value_to_f64 (VUtf8 _) = Err OtherErr"

fun value_to_bool :: "Value \<Rightarrow> bool BoltResult" where
  "value_to_bool (VBool b) = Ok b"
| "value_to_bool (VI32 x) = Ok (x \<noteq> 0)"
| "value_to_bool (VI64 x) = Ok (x \<noteq> 0)"
| "value_to_bool (VF32 x) = Ok (f32_nonzero x)"
| "value_to_bool (VF64 x) = Ok (f64_nonzero x)"
| "value_to_bool (VUtf8 _) = Err OtherErr"

text \<open>
  \<open>cast_value\<close> is \<open>cast_column\<close> on one non-NULL cell.  Temporal types live as their integer
  storage.
\<close>

definition cast_value :: "Value \<Rightarrow> DataType \<Rightarrow> Value BoltResult" where
  "cast_value v to =
    (if val_dtype v = to then Ok v
     else case to of
       Bool \<Rightarrow> bindR (value_to_bool v) (\<lambda>x. Ok (VBool x))
     | Int32 \<Rightarrow> bindR (value_to_i32 v) (\<lambda>x. Ok (VI32 x))
     | Int64 \<Rightarrow> bindR (value_to_i64 v) (\<lambda>x. Ok (VI64 x))
     | Float32 \<Rightarrow> bindR (value_to_f32 v) (\<lambda>x. Ok (VF32 x))
     | Float64 \<Rightarrow> bindR (value_to_f64 v) (\<lambda>x. Ok (VF64 x))
     | Utf8 \<Rightarrow> Err OtherErr
     | Decimal128 _ _ \<Rightarrow> Err PlanErr
     | Date32 \<Rightarrow>
         (case v of
            VI32 _ \<Rightarrow> Ok v
          | VI64 x \<Rightarrow> Ok (VI32 (i64_as_i32 x))
          | _ \<Rightarrow> Err TypeErr)
     | Timestamp _ _ \<Rightarrow> (case v of VI64 _ \<Rightarrow> Ok v | _ \<Rightarrow> Err TypeErr))"

section \<open>Safe casts\<close>

text \<open>\<^verbatim>\<open>str::parse::<f64>\<close>: an optional sign, then \<^verbatim>\<open>inf\<close>, \<^verbatim>\<open>infinity\<close>, \<^verbatim>\<open>nan\<close> in any case, or a decimal
  number with optional fraction and exponent; the exponent's accumulator stops growing at
  \<^verbatim>\<open>0x10000\<close>.\<close>

definition parse_exponent :: "string \<Rightarrow> int option" where
  "parse_exponent s =
    (case s of
       [] \<Rightarrow> Some 0
     | c # r \<Rightarrow>
         if c \<noteq> CHR ''e'' \<and> c \<noteq> CHR ''E'' then None
         else let (neg, ds) = (case r of
                    d # r' \<Rightarrow> if d = CHR ''-'' then (True, r') else if d = CHR ''+'' then (False, r') else (False, r)
                  | [] \<Rightarrow> (False, []))
              in if ds = [] \<or> \<not> list_all is_ascii_digit ds then None
                 else let e = foldl (\<lambda>e d. if e < 65536 then 10 * e + digit_value d else e) 0 ds
                      in Some (if neg then - e else e))"

definition pow10 :: "int \<Rightarrow> rat" where
  "pow10 k = (if k \<ge> 0 then 10 ^ nat k else 1 / 10 ^ nat (- k))"

definition parse_decimal :: "bool \<Rightarrow> string \<Rightarrow> fp option" where
  "parse_decimal neg s =
    (let ip = takeWhile is_ascii_digit s;
         r1 = dropWhile is_ascii_digit s;
         (fpart, r2) = (case r1 of
            c # r \<Rightarrow> if c = CHR ''.'' then (takeWhile is_ascii_digit r, dropWhile is_ascii_digit r)
                     else ([], r1)
          | [] \<Rightarrow> ([], []))
     in if ip = [] \<and> fpart = [] then None
        else case parse_exponent r2 of
               None \<Rightarrow> None
             | Some e \<Rightarrow>
                 Some (Fin neg (of_int (foldl (\<lambda>v c. v * 10 + digit_value c) 0 (ip @ fpart))
                                * pow10 (e - int (length fpart)))))"

definition parse_float :: "string \<Rightarrow> fp option" where
  "parse_float s =
    (let (neg, r) = (case s of
           c # r \<Rightarrow> if c = CHR ''-'' then (True, r) else if c = CHR ''+'' then (False, r) else (False, s)
         | [] \<Rightarrow> (False, []));
         l = map to_ascii_lowercase r
     in if l = ''inf'' \<or> l = ''infinity'' then Some (Inf neg)
        else if l = ''nan'' then Some NaN
        else parse_decimal neg r)"

definition parse_bool_loose :: "string \<Rightarrow> bool option" where
  "parse_bool_loose s =
    (let t = map to_ascii_lowercase (str_trim s)
     in if t \<in> {''true'', ''t'', ''1'', ''yes'', ''y''} then Some True
        else if t \<in> {''false'', ''f'', ''0'', ''no'', ''n''} then Some False
        else None)"

text \<open>The bounds are converted to \<^verbatim>\<open>f64\<close> before the comparison.\<close>

definition float_to_int_checked :: "fp \<Rightarrow> int \<Rightarrow> int \<Rightarrow> int option" where
  "float_to_int_checked x lo hi =
    (if \<not> fp_is_finite x then None
     else let t = rat_trunc (fp_val x)
          in if of_int t < fp_val (f64_dec (f64_of_int lo)) \<or> of_int t > fp_val (f64_dec (f64_of_int hi))
             then None else Some t)"

definition float_to_i32 :: "fp \<Rightarrow> 32 word option" where
  "float_to_i32 x =
    map_option (\<lambda>t. word_of_int (max (- (2 ^ 31)) (min (2 ^ 31 - 1) t)))
      (float_to_int_checked x (- (2 ^ 31)) (2 ^ 31 - 1))"

definition float_to_i64 :: "fp \<Rightarrow> 64 word option" where
  "float_to_i64 x =
    map_option (\<lambda>t. word_of_int (max (- (2 ^ 63)) (min (2 ^ 63 - 1) t)))
      (float_to_int_checked x (- (2 ^ 63)) (2 ^ 63 - 1))"

definition i64_try_i32 :: "64 word \<Rightarrow> 32 word option" where
  "i64_try_i32 x = map_option word_of_int (try_i32 (sint x))"

fun safe_to_i32 :: "Value \<Rightarrow> 32 word option" where
  "safe_to_i32 (VBool b) = Some (i32_of_bool b)"
| "safe_to_i32 (VI32 x) = Some x"
| "safe_to_i32 (VI64 x) = i64_try_i32 x"
| "safe_to_i32 (VF32 x) = float_to_i32 (f32_dec x)"
| "safe_to_i32 (VF64 x) = float_to_i32 (f64_dec x)"
| "safe_to_i32 (VUtf8 s) = map_option word_of_int (parse_signed 32 (str_trim s))"

fun safe_to_i64 :: "Value \<Rightarrow> 64 word option" where
  "safe_to_i64 (VBool b) = Some (i64_of_bool b)"
| "safe_to_i64 (VI32 x) = Some (i32_as_i64 x)"
| "safe_to_i64 (VI64 x) = Some x"
| "safe_to_i64 (VF32 x) = float_to_i64 (f32_dec x)"
| "safe_to_i64 (VF64 x) = float_to_i64 (f64_dec x)"
| "safe_to_i64 (VUtf8 s) = map_option word_of_int (parse_signed 64 (str_trim s))"

text \<open>\<open>safe_cast_value\<close> is \<open>safe_cast_column\<close> on one non-NULL cell.\<close>

definition safe_cast_value :: "Value \<Rightarrow> DataType \<Rightarrow> Value option BoltResult" where
  "safe_cast_value v to =
    (if val_dtype v = to then Ok (Some v)
     else case to of
       Int32 \<Rightarrow> Ok (map_option VI32 (safe_to_i32 v))
     | Int64 \<Rightarrow> Ok (map_option VI64 (safe_to_i64 v))
     | Float32 \<Rightarrow>
         (case v of
            VUtf8 s \<Rightarrow> Ok (map_option (\<lambda>x. VF32 (f32_enc x)) (parse_float (str_trim s)))
          | _ \<Rightarrow> bindR (value_to_f32 v) (\<lambda>x. Ok (Some (VF32 x))))
     | Float64 \<Rightarrow>
         (case v of
            VUtf8 s \<Rightarrow> Ok (map_option (\<lambda>x. VF64 (f64_enc x)) (parse_float (str_trim s)))
          | _ \<Rightarrow> bindR (value_to_f64 v) (\<lambda>x. Ok (Some (VF64 x))))
     | Bool \<Rightarrow>
         (case v of
            VUtf8 s \<Rightarrow> Ok (map_option VBool (parse_bool_loose s))
          | _ \<Rightarrow> bindR (value_to_bool v) (\<lambda>x. Ok (Some (VBool x))))
     | Utf8 \<Rightarrow> Err OtherErr
     | Decimal128 _ _ \<Rightarrow> Err PlanErr
     | Date32 \<Rightarrow> Err TypeErr
     | Timestamp _ _ \<Rightarrow> Err TypeErr)"

section \<open>Operators on two cells\<close>

definition ext_unify_numeric :: "DataType \<Rightarrow> DataType \<Rightarrow> DataType BoltResult" where
  "ext_unify_numeric a b =
    (if a = b then Ok a
     else if a = Float64 \<or> b = Float64 then Ok Float64
     else if a = Float32 \<and> b = Int64 \<or> a = Int64 \<and> b = Float32 then Ok Float64
     else if a = Float32 \<or> b = Float32 then Ok Float32
     else if a = Int64 \<or> b = Int64 then Ok Int64
     else if a = Int32 \<or> b = Int32 then Ok Int32
     else Err OtherErr)"

fun and3 :: "bool option \<Rightarrow> bool option \<Rightarrow> bool option" where
  "and3 (Some False) _ = Some False"
| "and3 _ (Some False) = Some False"
| "and3 (Some True) (Some True) = Some True"
| "and3 _ _ = None"

fun or3 :: "bool option \<Rightarrow> bool option \<Rightarrow> bool option" where
  "or3 (Some True) _ = Some True"
| "or3 _ (Some True) = Some True"
| "or3 (Some False) (Some False) = Some False"
| "or3 _ _ = None"

definition not3 :: "bool option \<Rightarrow> bool option" where
  "not3 = map_option HOL.Not"

definition logical3 :: "BinaryOp \<Rightarrow> bool option \<Rightarrow> bool option \<Rightarrow> bool option" where
  "logical3 op x y = (case op of And \<Rightarrow> and3 x y | Or \<Rightarrow> or3 x y | _ \<Rightarrow> None)"

text \<open>Both operands already cast to one numeric type.\<close>

fun arith_same :: "BinaryOp \<Rightarrow> Value \<Rightarrow> Value \<Rightarrow> Value option BoltResult" where
  "arith_same op (VI32 x) (VI32 y) = Ok (map_option VI32 (int_arith op x y))"
| "arith_same op (VI64 x) (VI64 y) = Ok (map_option VI64 (int_arith op x y))"
| "arith_same op (VF32 x) (VF32 y) = Ok (Some (VF32 (f32_arith (float_op op) x y)))"
| "arith_same op (VF64 x) (VF64 y) = Ok (Some (VF64 (f64_arith (float_op op) x y)))"
| "arith_same op _ _ = Err OtherErr"

fun bitop_same :: "BinaryOp \<Rightarrow> Value \<Rightarrow> Value \<Rightarrow> Value option BoltResult" where
  "bitop_same op (VI32 x) (VI32 y) = Ok (map_option VI32 (int_bitop op x y))"
| "bitop_same op (VI64 x) (VI64 y) = Ok (map_option VI64 (int_bitop op x y))"
| "bitop_same op _ _ = Err OtherErr"

fun cmp_same :: "BinaryOp \<Rightarrow> Value \<Rightarrow> Value \<Rightarrow> bool BoltResult" where
  "cmp_same op (VBool x) (VBool y) = Ok (apply_cmp (=) (<) op x y)"
| "cmp_same op (VI32 x) (VI32 y) = Ok (apply_cmp (=) sint_less op x y)"
| "cmp_same op (VI64 x) (VI64 y) = Ok (apply_cmp (=) sint_less op x y)"
| "cmp_same op (VF32 x) (VF32 y) = Ok (apply_cmp f32_eq f32_lt op x y)"
| "cmp_same op (VF64 x) (VF64 y) = Ok (apply_cmp f64_eq f64_lt op x y)"
| "cmp_same op (VUtf8 x) (VUtf8 y) = Ok (apply_cmp (=) (<) op x y)"
| "cmp_same op _ _ = Err OtherErr"

definition val_arith :: "BinaryOp \<Rightarrow> Value \<Rightarrow> Value \<Rightarrow> Value option BoltResult" where
  "val_arith op a b =
    (if \<not> is_numeric (val_dtype a) \<or> \<not> is_numeric (val_dtype b) then Err OtherErr
     else bindR (ext_unify_numeric (val_dtype a) (val_dtype b)) (\<lambda>u.
          bindR (cast_value a u) (\<lambda>x. bindR (cast_value b u) (\<lambda>y. arith_same op x y))))"

definition integer_op_target :: "BinaryOp \<Rightarrow> DataType \<Rightarrow> DataType \<Rightarrow> DataType" where
  "integer_op_target op l r =
    (if is_shift op then l else if l = Int64 \<or> r = Int64 then Int64 else Int32)"

definition val_integer_op :: "BinaryOp \<Rightarrow> Value \<Rightarrow> Value \<Rightarrow> Value option BoltResult" where
  "val_integer_op op a b =
    (if \<not> is_int (val_dtype a) \<or> \<not> is_int (val_dtype b) then Err TypeErr
     else let t = integer_op_target op (val_dtype a) (val_dtype b)
          in bindR (cast_value a t) (\<lambda>x. bindR (cast_value b t) (\<lambda>y. bitop_same op x y)))"

definition val_cmp :: "BinaryOp \<Rightarrow> Value \<Rightarrow> Value \<Rightarrow> bool BoltResult" where
  "val_cmp op a b =
    (if is_numeric (val_dtype a) \<and> is_numeric (val_dtype b)
     then bindR (ext_unify_numeric (val_dtype a) (val_dtype b)) (\<lambda>u.
          bindR (cast_value a u) (\<lambda>x. bindR (cast_value b u) (\<lambda>y. cmp_same op x y)))
     else if val_dtype a \<noteq> val_dtype b then Err OtherErr
     else cmp_same op a b)"

end
