(* ===== verification/Host_Eval.thy ===== *)
theory Host_Eval
  imports Host_Values
begin

text \<open>
  The columnar host evaluator of \<^verbatim>\<open>exec/expr_agg.rs\<close>: \<open>HostColumn\<close>, the column casts, the
  binary and unary operators, CASE, LIKE, CAST FORMAT, the string functions, \<open>eval_inner\<close>
  and \<open>eval_expr\<close>.  Arguments of a scalar function are passed as their evaluation results
  and inspected in the source's order.  \<open>HostConfig\<close> holds the two inputs from outside the
  expression: the upper-casing of a character (Unicode tables) and the padding cap (an
  environment variable).
  The last sections give a row-at-a-time reference \<open>eval_row\<close> and show that evaluating a
  batch is evaluating each of its rows.
\<close>

section \<open>Columns\<close>

datatype HostColumn =
    CBool "bool option list"
  | CI32 "32 word option list"
  | CI64 "64 word option list"
  | CF32 "f32 option list"
  | CF64 "f64 option list"
  | CUtf8 "string option list"

fun len :: "HostColumn \<Rightarrow> nat" where
  "len (CBool v) = length v"
| "len (CI32 v) = length v"
| "len (CI64 v) = length v"
| "len (CF32 v) = length v"
| "len (CF64 v) = length v"
| "len (CUtf8 v) = length v"

fun col_dtype :: "HostColumn \<Rightarrow> DataType" where
  "col_dtype (CBool _) = Bool"
| "col_dtype (CI32 _) = Int32"
| "col_dtype (CI64 _) = Int64"
| "col_dtype (CF32 _) = Float32"
| "col_dtype (CF64 _) = Float64"
| "col_dtype (CUtf8 _) = Utf8"

definition any_null :: "'a option list \<Rightarrow> bool" where "any_null v = list_ex (\<lambda>x. x = None) v"
definition any_some :: "'a option list \<Rightarrow> bool" where "any_some v = list_ex (\<lambda>x. x \<noteq> None) v"

fun has_nulls :: "HostColumn \<Rightarrow> bool" where
  "has_nulls (CBool v) = any_null v"
| "has_nulls (CI32 v) = any_null v"
| "has_nulls (CI64 v) = any_null v"
| "has_nulls (CF32 v) = any_null v"
| "has_nulls (CF64 v) = any_null v"
| "has_nulls (CUtf8 v) = any_null v"

definition ensure_no_surviving_nulls :: "HostColumn \<Rightarrow> unit BoltResult" where
  "ensure_no_surviving_nulls c = (if has_nulls c then Err OtherErr else Ok ())"

fun column_has_non_null :: "HostColumn \<Rightarrow> bool" where
  "column_has_non_null (CBool v) = any_some v"
| "column_has_non_null (CI32 v) = any_some v"
| "column_has_non_null (CI64 v) = any_some v"
| "column_has_non_null (CF32 v) = any_some v"
| "column_has_non_null (CF64 v) = any_some v"
| "column_has_non_null (CUtf8 v) = any_some v"

fun null_column :: "DataType \<Rightarrow> nat \<Rightarrow> HostColumn" where
  "null_column Bool n = CBool (replicate n None)"
| "null_column Int32 n = CI32 (replicate n None)"
| "null_column Date32 n = CI32 (replicate n None)"
| "null_column Int64 n = CI64 (replicate n None)"
| "null_column (Timestamp _ _) n = CI64 (replicate n None)"
| "null_column Float32 n = CF32 (replicate n None)"
| "null_column Float64 n = CF64 (replicate n None)"
| "null_column Utf8 n = CUtf8 (replicate n None)"
| "null_column (Decimal128 _ _) n = CI64 (replicate n None)"

section \<open>Casts\<close>

fun cast_to_i32 :: "HostColumn \<Rightarrow> 32 word option list BoltResult" where
  "cast_to_i32 (CBool v) = Ok (map (map_option i32_of_bool) v)"
| "cast_to_i32 (CI32 v) = Ok v"
| "cast_to_i32 (CI64 v) = Ok (map (map_option i64_as_i32) v)"
| "cast_to_i32 (CF32 v) = Ok (map (map_option f32_as_i32) v)"
| "cast_to_i32 (CF64 v) = Ok (map (map_option f64_as_i32) v)"
| "cast_to_i32 (CUtf8 v) = Err OtherErr"

fun cast_to_i64 :: "HostColumn \<Rightarrow> 64 word option list BoltResult" where
  "cast_to_i64 (CBool v) = Ok (map (map_option i64_of_bool) v)"
| "cast_to_i64 (CI32 v) = Ok (map (map_option i32_as_i64) v)"
| "cast_to_i64 (CI64 v) = Ok v"
| "cast_to_i64 (CF32 v) = Ok (map (map_option f32_as_i64) v)"
| "cast_to_i64 (CF64 v) = Ok (map (map_option f64_as_i64) v)"
| "cast_to_i64 (CUtf8 v) = Err OtherErr"

fun cast_to_f32 :: "HostColumn \<Rightarrow> f32 option list BoltResult" where
  "cast_to_f32 (CBool v) = Ok (map (map_option f32_of_bool) v)"
| "cast_to_f32 (CI32 v) = Ok (map (map_option (\<lambda>x. f32_of_int (sint x))) v)"
| "cast_to_f32 (CI64 v) = Ok (map (map_option (\<lambda>x. f32_of_int (sint x))) v)"
| "cast_to_f32 (CF32 v) = Ok v"
| "cast_to_f32 (CF64 v) = Ok (map (map_option f32_of_f64) v)"
| "cast_to_f32 (CUtf8 v) = Err OtherErr"

fun cast_to_f64 :: "HostColumn \<Rightarrow> f64 option list BoltResult" where
  "cast_to_f64 (CBool v) = Ok (map (map_option f64_of_bool) v)"
| "cast_to_f64 (CI32 v) = Ok (map (map_option (\<lambda>x. f64_of_int (sint x))) v)"
| "cast_to_f64 (CI64 v) = Ok (map (map_option (\<lambda>x. f64_of_int (sint x))) v)"
| "cast_to_f64 (CF32 v) = Ok (map (map_option f64_of_f32) v)"
| "cast_to_f64 (CF64 v) = Ok v"
| "cast_to_f64 (CUtf8 v) = Err OtherErr"

fun cast_to_bool :: "HostColumn \<Rightarrow> bool option list BoltResult" where
  "cast_to_bool (CBool v) = Ok v"
| "cast_to_bool (CI32 v) = Ok (map (map_option (\<lambda>x. x \<noteq> 0)) v)"
| "cast_to_bool (CI64 v) = Ok (map (map_option (\<lambda>x. x \<noteq> 0)) v)"
| "cast_to_bool (CF32 v) = Ok (map (map_option f32_nonzero) v)"
| "cast_to_bool (CF64 v) = Ok (map (map_option f64_nonzero) v)"
| "cast_to_bool (CUtf8 v) = Err OtherErr"

fun cast_to_utf8 :: "HostColumn \<Rightarrow> string option list BoltResult" where
  "cast_to_utf8 (CUtf8 v) = Ok v"
| "cast_to_utf8 _ = Err OtherErr"

definition cast_column :: "HostColumn \<Rightarrow> DataType \<Rightarrow> HostColumn BoltResult" where
  "cast_column col to =
    (if col_dtype col = to then Ok col
     else case to of
       Bool \<Rightarrow> bindR (cast_to_bool col) (\<lambda>v. Ok (CBool v))
     | Int32 \<Rightarrow> bindR (cast_to_i32 col) (\<lambda>v. Ok (CI32 v))
     | Int64 \<Rightarrow> bindR (cast_to_i64 col) (\<lambda>v. Ok (CI64 v))
     | Float32 \<Rightarrow> bindR (cast_to_f32 col) (\<lambda>v. Ok (CF32 v))
     | Float64 \<Rightarrow> bindR (cast_to_f64 col) (\<lambda>v. Ok (CF64 v))
     | Utf8 \<Rightarrow> bindR (cast_to_utf8 col) (\<lambda>v. Ok (CUtf8 v))
     | Decimal128 _ _ \<Rightarrow> Err PlanErr
     | Date32 \<Rightarrow>
         (case col of
            CI32 _ \<Rightarrow> Ok col
          | CI64 _ \<Rightarrow> bindR (cast_to_i32 col) (\<lambda>v. Ok (CI32 v))
          | _ \<Rightarrow> Err TypeErr)
     | Timestamp _ _ \<Rightarrow> (case col of CI64 _ \<Rightarrow> Ok col | _ \<Rightarrow> Err TypeErr))"

fun safe_cast_to_i32 :: "HostColumn \<Rightarrow> 32 word option list BoltResult" where
  "safe_cast_to_i32 (CBool v) = Ok (map (map_option i32_of_bool) v)"
| "safe_cast_to_i32 (CI32 v) = Ok v"
| "safe_cast_to_i32 (CI64 v) = Ok (map (\<lambda>x. Option.bind x i64_try_i32) v)"
| "safe_cast_to_i32 (CF32 v) = Ok (map (\<lambda>x. Option.bind x (\<lambda>y. float_to_i32 (f32_dec y))) v)"
| "safe_cast_to_i32 (CF64 v) = Ok (map (\<lambda>x. Option.bind x (\<lambda>y. float_to_i32 (f64_dec y))) v)"
| "safe_cast_to_i32 (CUtf8 v) =
    Ok (map (\<lambda>x. Option.bind x (\<lambda>s. map_option word_of_int (parse_signed 32 (str_trim s)))) v)"

fun safe_cast_to_i64 :: "HostColumn \<Rightarrow> 64 word option list BoltResult" where
  "safe_cast_to_i64 (CBool v) = Ok (map (map_option i64_of_bool) v)"
| "safe_cast_to_i64 (CI32 v) = Ok (map (map_option i32_as_i64) v)"
| "safe_cast_to_i64 (CI64 v) = Ok v"
| "safe_cast_to_i64 (CF32 v) = Ok (map (\<lambda>x. Option.bind x (\<lambda>y. float_to_i64 (f32_dec y))) v)"
| "safe_cast_to_i64 (CF64 v) = Ok (map (\<lambda>x. Option.bind x (\<lambda>y. float_to_i64 (f64_dec y))) v)"
| "safe_cast_to_i64 (CUtf8 v) =
    Ok (map (\<lambda>x. Option.bind x (\<lambda>s. map_option word_of_int (parse_signed 64 (str_trim s)))) v)"

fun safe_cast_to_f32 :: "HostColumn \<Rightarrow> f32 option list BoltResult" where
  "safe_cast_to_f32 (CUtf8 v) =
    Ok (map (\<lambda>x. Option.bind x (\<lambda>s. map_option f32_enc (parse_float (str_trim s)))) v)"
| "safe_cast_to_f32 c = cast_to_f32 c"

fun safe_cast_to_f64 :: "HostColumn \<Rightarrow> f64 option list BoltResult" where
  "safe_cast_to_f64 (CUtf8 v) =
    Ok (map (\<lambda>x. Option.bind x (\<lambda>s. map_option f64_enc (parse_float (str_trim s)))) v)"
| "safe_cast_to_f64 c = cast_to_f64 c"

fun safe_cast_to_bool :: "HostColumn \<Rightarrow> bool option list BoltResult" where
  "safe_cast_to_bool (CUtf8 v) = Ok (map (\<lambda>x. Option.bind x parse_bool_loose) v)"
| "safe_cast_to_bool c = cast_to_bool c"

definition safe_cast_column :: "HostColumn \<Rightarrow> DataType \<Rightarrow> HostColumn BoltResult" where
  "safe_cast_column col to =
    (if col_dtype col = to then Ok col
     else case to of
       Int32 \<Rightarrow> bindR (safe_cast_to_i32 col) (\<lambda>v. Ok (CI32 v))
     | Int64 \<Rightarrow> bindR (safe_cast_to_i64 col) (\<lambda>v. Ok (CI64 v))
     | Float32 \<Rightarrow> bindR (safe_cast_to_f32 col) (\<lambda>v. Ok (CF32 v))
     | Float64 \<Rightarrow> bindR (safe_cast_to_f64 col) (\<lambda>v. Ok (CF64 v))
     | Bool \<Rightarrow> bindR (safe_cast_to_bool col) (\<lambda>v. Ok (CBool v))
     | Utf8 \<Rightarrow> bindR (cast_to_utf8 col) (\<lambda>v. Ok (CUtf8 v))
     | Decimal128 _ _ \<Rightarrow> Err PlanErr
     | Date32 \<Rightarrow> Err TypeErr
     | Timestamp _ _ \<Rightarrow> Err TypeErr)"

section \<open>Binary and unary operators\<close>

definition zip_with :: "('a \<Rightarrow> 'b \<Rightarrow> 'c option) \<Rightarrow> 'a option list \<Rightarrow> 'b option list \<Rightarrow> 'c option list" where
  "zip_with f a b = map2 (\<lambda>x y. case (x, y) of (Some u, Some v) \<Rightarrow> f u v | _ \<Rightarrow> None) a b"

definition zip_arith_int :: "BinaryOp \<Rightarrow> 'a::len word option list \<Rightarrow> 'a word option list \<Rightarrow> 'a word option list" where
  "zip_arith_int op = zip_with (int_arith op)"

definition zip_integer :: "BinaryOp \<Rightarrow> 'a::len word option list \<Rightarrow> 'a word option list \<Rightarrow> 'a word option list" where
  "zip_integer op = zip_with (int_bitop op)"

definition zip_arith_f32 :: "BinaryOp \<Rightarrow> f32 option list \<Rightarrow> f32 option list \<Rightarrow> f32 option list" where
  "zip_arith_f32 op = zip_with (\<lambda>x y. Some (f32_arith (float_op op) x y))"

definition zip_arith_f64 :: "BinaryOp \<Rightarrow> f64 option list \<Rightarrow> f64 option list \<Rightarrow> f64 option list" where
  "zip_arith_f64 op = zip_with (\<lambda>x y. Some (f64_arith (float_op op) x y))"

definition zip_cmp :: "('a \<Rightarrow> 'a \<Rightarrow> bool) \<Rightarrow> ('a \<Rightarrow> 'a \<Rightarrow> bool) \<Rightarrow> BinaryOp
    \<Rightarrow> 'a option list \<Rightarrow> 'a option list \<Rightarrow> bool option list" where
  "zip_cmp eq lt op = zip_with (\<lambda>x y. Some (apply_cmp eq lt op x y))"

fun arith_columns :: "BinaryOp \<Rightarrow> HostColumn \<Rightarrow> HostColumn \<Rightarrow> HostColumn BoltResult" where
  "arith_columns op (CI32 a) (CI32 b) = Ok (CI32 (zip_arith_int op a b))"
| "arith_columns op (CI64 a) (CI64 b) = Ok (CI64 (zip_arith_int op a b))"
| "arith_columns op (CF32 a) (CF32 b) = Ok (CF32 (zip_arith_f32 op a b))"
| "arith_columns op (CF64 a) (CF64 b) = Ok (CF64 (zip_arith_f64 op a b))"
| "arith_columns op _ _ = Err OtherErr"

definition eval_arithmetic :: "BinaryOp \<Rightarrow> HostColumn \<Rightarrow> HostColumn \<Rightarrow> HostColumn BoltResult" where
  "eval_arithmetic op lhs rhs =
    (if \<not> is_numeric (col_dtype lhs) \<or> \<not> is_numeric (col_dtype rhs) then Err OtherErr
     else bindR (ext_unify_numeric (col_dtype lhs) (col_dtype rhs)) (\<lambda>unified.
          bindR (cast_column lhs unified) (\<lambda>l. bindR (cast_column rhs unified) (\<lambda>r.
          arith_columns op l r))))"

fun integer_columns :: "BinaryOp \<Rightarrow> HostColumn \<Rightarrow> HostColumn \<Rightarrow> HostColumn BoltResult" where
  "integer_columns op (CI32 a) (CI32 b) = Ok (CI32 (zip_integer op a b))"
| "integer_columns op (CI64 a) (CI64 b) = Ok (CI64 (zip_integer op a b))"
| "integer_columns op _ _ = Err OtherErr"

definition eval_integer_op :: "BinaryOp \<Rightarrow> HostColumn \<Rightarrow> HostColumn \<Rightarrow> HostColumn BoltResult" where
  "eval_integer_op op lhs rhs =
    (if \<not> is_int (col_dtype lhs) \<or> \<not> is_int (col_dtype rhs) then Err TypeErr
     else let target = integer_op_target op (col_dtype lhs) (col_dtype rhs)
          in bindR (cast_column lhs target) (\<lambda>l. bindR (cast_column rhs target) (\<lambda>r.
             integer_columns op l r)))"

fun cmp_columns :: "BinaryOp \<Rightarrow> HostColumn \<Rightarrow> HostColumn \<Rightarrow> HostColumn BoltResult" where
  "cmp_columns op (CBool a) (CBool b) = Ok (CBool (zip_cmp (=) (<) op a b))"
| "cmp_columns op (CI32 a) (CI32 b) = Ok (CBool (zip_cmp (=) sint_less op a b))"
| "cmp_columns op (CI64 a) (CI64 b) = Ok (CBool (zip_cmp (=) sint_less op a b))"
| "cmp_columns op (CF32 a) (CF32 b) = Ok (CBool (zip_cmp f32_eq f32_lt op a b))"
| "cmp_columns op (CF64 a) (CF64 b) = Ok (CBool (zip_cmp f64_eq f64_lt op a b))"
| "cmp_columns op (CUtf8 a) (CUtf8 b) = Ok (CBool (zip_cmp (=) (<) op a b))"
| "cmp_columns op _ _ = Err OtherErr"

definition eval_comparison :: "BinaryOp \<Rightarrow> HostColumn \<Rightarrow> HostColumn \<Rightarrow> HostColumn BoltResult" where
  "eval_comparison op lhs rhs =
    (if is_numeric (col_dtype lhs) \<and> is_numeric (col_dtype rhs)
     then bindR (ext_unify_numeric (col_dtype lhs) (col_dtype rhs)) (\<lambda>unified.
          bindR (cast_column lhs unified) (\<lambda>l. bindR (cast_column rhs unified) (\<lambda>r.
          cmp_columns op l r)))
     else if col_dtype lhs \<noteq> col_dtype rhs then Err OtherErr
     else cmp_columns op lhs rhs)"

definition coerce_all_null_to_bool :: "HostColumn \<Rightarrow> HostColumn" where
  "coerce_all_null_to_bool col =
    (if col_dtype col \<in> {Int32, Int64, Float32, Float64} \<and> \<not> column_has_non_null col
     then CBool (replicate (len col) None) else col)"

definition eval_logical :: "BinaryOp \<Rightarrow> HostColumn \<Rightarrow> HostColumn \<Rightarrow> HostColumn BoltResult" where
  "eval_logical op lhs rhs =
    (case (coerce_all_null_to_bool lhs, coerce_all_null_to_bool rhs) of
       (CBool a, CBool b) \<Rightarrow> Ok (CBool (map2 (logical3 op) a b))
     | _ \<Rightarrow> Err OtherErr)"

definition eval_string :: "BinaryOp \<Rightarrow> HostColumn \<Rightarrow> HostColumn \<Rightarrow> HostColumn BoltResult" where
  "eval_string op lhs rhs =
    (if op \<noteq> Concat then Err OtherErr
     else case (lhs, rhs) of
       (CUtf8 a, CUtf8 b) \<Rightarrow> bindR (host_concat_option_strings a b) (\<lambda>out. Ok (CUtf8 out))
     | _ \<Rightarrow> Err TypeErr)"

definition eval_binary :: "BinaryOp \<Rightarrow> HostColumn \<Rightarrow> HostColumn \<Rightarrow> nat \<Rightarrow> HostColumn BoltResult" where
  "eval_binary op l r n_rows =
    (if len l \<noteq> n_rows \<or> len r \<noteq> n_rows then Err OtherErr
     else if is_arithmetic op then eval_arithmetic op l r
     else if is_integer_op op then eval_integer_op op l r
     else if is_comparison op then eval_comparison op l r
     else if is_logical op then eval_logical op l r
     else if is_string op then eval_string op l r
     else Err OtherErr)"

definition is_null_to_bool :: "UnaryOp \<Rightarrow> bool \<Rightarrow> bool" where
  "is_null_to_bool op was_null =
    (case op of IsNull \<Rightarrow> was_null | IsNotNull \<Rightarrow> \<not> was_null | UnaryOp.Not \<Rightarrow> False)"

definition null_test_cells :: "UnaryOp \<Rightarrow> 'a option list \<Rightarrow> bool option list" where
  "null_test_cells op v = map (\<lambda>c. Some (is_null_to_bool op (c = None))) v"

fun null_test_column :: "UnaryOp \<Rightarrow> HostColumn \<Rightarrow> bool option list" where
  "null_test_column op (CBool v) = null_test_cells op v"
| "null_test_column op (CI32 v) = null_test_cells op v"
| "null_test_column op (CI64 v) = null_test_cells op v"
| "null_test_column op (CF32 v) = null_test_cells op v"
| "null_test_column op (CF64 v) = null_test_cells op v"
| "null_test_column op (CUtf8 v) = null_test_cells op v"

definition eval_unary :: "UnaryOp \<Rightarrow> HostColumn \<Rightarrow> nat \<Rightarrow> HostColumn BoltResult" where
  "eval_unary op col n_rows =
    (if len col \<noteq> n_rows then Err OtherErr
     else if op = UnaryOp.Not then
       (case col of CBool v \<Rightarrow> Ok (CBool (map not3 v)) | _ \<Rightarrow> Err OtherErr)
     else Ok (CBool (null_test_column op col)))"

section \<open>CASE\<close>

fun case_branches :: "nat \<Rightarrow> (HostColumn BoltResult \<times> HostColumn BoltResult) list
    \<Rightarrow> (bool option list list \<times> HostColumn list) BoltResult" where
  "case_branches n [] = Ok ([], [])"
| "case_branches n ((cond, val) # bs) =
    bindR cond (\<lambda>c.
      case c of
        CBool v \<Rightarrow>
          if length v = n
          then bindR val (\<lambda>t. bindR (case_branches n bs) (\<lambda>(cs, ts). Ok (v # cs, t # ts)))
          else Err OtherErr
      | _ \<Rightarrow> Err TypeErr)"

definition case_target_step :: "DataType option \<Rightarrow> HostColumn \<Rightarrow> DataType option BoltResult" where
  "case_target_step acc col =
    (let dt = col_dtype col in
     case acc of
       None \<Rightarrow> Ok (Some dt)
     | Some prev \<Rightarrow>
         if prev = dt then Ok (Some prev)
         else if is_numeric prev \<and> is_numeric dt then bindR (ext_unify_numeric prev dt) (\<lambda>u. Ok (Some u))
         else Err TypeErr)"

definition case_target :: "HostColumn list \<Rightarrow> DataType BoltResult" where
  "case_target cols =
    bindR (foldR case_target_step None (filter column_has_non_null cols)) (\<lambda>acc.
      Ok (case acc of None \<Rightarrow> Int64 | Some t \<Rightarrow> t))"

definition coerce_case_column :: "HostColumn \<Rightarrow> DataType \<Rightarrow> nat \<Rightarrow> HostColumn BoltResult" where
  "coerce_case_column col target n =
    (if len col \<noteq> n then Err OtherErr
     else if \<not> column_has_non_null col then Ok (null_column target n)
     else cast_column col target)"

definition select_cells :: "bool option list list \<Rightarrow> 'a option list list \<Rightarrow> 'a option list \<Rightarrow> nat
    \<Rightarrow> 'a option list" where
  "select_cells conds vals els n =
    map (\<lambda>row. case position (\<lambda>c. c ! row = Some True) conds of
                 Some i \<Rightarrow> vals ! i ! row
               | None \<Rightarrow> els ! row) [0..<n]"

fun as_bools :: "HostColumn \<Rightarrow> bool option list BoltResult" where
  "as_bools (CBool v) = Ok v" | "as_bools _ = Err OtherErr"
fun as_i32s :: "HostColumn \<Rightarrow> 32 word option list BoltResult" where
  "as_i32s (CI32 v) = Ok v" | "as_i32s _ = Err OtherErr"
fun as_i64s :: "HostColumn \<Rightarrow> 64 word option list BoltResult" where
  "as_i64s (CI64 v) = Ok v" | "as_i64s _ = Err OtherErr"
fun as_f32s :: "HostColumn \<Rightarrow> f32 option list BoltResult" where
  "as_f32s (CF32 v) = Ok v" | "as_f32s _ = Err OtherErr"
fun as_f64s :: "HostColumn \<Rightarrow> f64 option list BoltResult" where
  "as_f64s (CF64 v) = Ok v" | "as_f64s _ = Err OtherErr"
fun as_utf8s :: "HostColumn \<Rightarrow> string option list BoltResult" where
  "as_utf8s (CUtf8 v) = Ok v" | "as_utf8s _ = Err OtherErr"

definition select_case_values :: "(HostColumn \<Rightarrow> 'a option list BoltResult) \<Rightarrow> ('a option list \<Rightarrow> HostColumn)
    \<Rightarrow> bool option list list \<Rightarrow> HostColumn list \<Rightarrow> HostColumn \<Rightarrow> nat \<Rightarrow> HostColumn BoltResult" where
  "select_case_values proj con conds vals els n =
    bindR (mapR proj vals) (\<lambda>vs. bindR (proj els) (\<lambda>e. Ok (con (select_cells conds vs e n))))"

definition select_case :: "DataType \<Rightarrow> bool option list list \<Rightarrow> HostColumn list \<Rightarrow> HostColumn \<Rightarrow> nat
    \<Rightarrow> HostColumn BoltResult" where
  "select_case target conds vals els n =
    (case target of
       Bool \<Rightarrow> select_case_values as_bools CBool conds vals els n
     | Int32 \<Rightarrow> select_case_values as_i32s CI32 conds vals els n
     | Date32 \<Rightarrow> select_case_values as_i32s CI32 conds vals els n
     | Int64 \<Rightarrow> select_case_values as_i64s CI64 conds vals els n
     | Timestamp _ _ \<Rightarrow> select_case_values as_i64s CI64 conds vals els n
     | Float32 \<Rightarrow> select_case_values as_f32s CF32 conds vals els n
     | Float64 \<Rightarrow> select_case_values as_f64s CF64 conds vals els n
     | Utf8 \<Rightarrow> select_case_values as_utf8s CUtf8 conds vals els n
     | Decimal128 _ _ \<Rightarrow> Err TypeErr)"

definition eval_case :: "(HostColumn BoltResult \<times> HostColumn BoltResult) list
    \<Rightarrow> HostColumn BoltResult option \<Rightarrow> nat \<Rightarrow> HostColumn BoltResult" where
  "eval_case branches else_branch n =
    (if branches = [] then Err PlanErr
     else bindR (case_branches n branches) (\<lambda>(conds, vals).
          bindR (optR (\<lambda>r. r) else_branch) (\<lambda>els.
          bindR (case_target (vals @ (case els of None \<Rightarrow> [] | Some e \<Rightarrow> [e]))) (\<lambda>target.
          bindR (mapR (\<lambda>c. coerce_case_column c target n) vals) (\<lambda>vals'.
          bindR (optR (\<lambda>c. coerce_case_column c target n) els) (\<lambda>els'.
          select_case target conds vals'
            (case els' of None \<Rightarrow> null_column target n | Some e \<Rightarrow> e) n))))))"

section \<open>LIKE and CAST FORMAT\<close>

definition eval_like :: "HostColumn \<Rightarrow> string \<Rightarrow> char option \<Rightarrow> bool \<Rightarrow> bool \<Rightarrow> nat \<Rightarrow> HostColumn BoltResult" where
  "eval_like raw pattern escape negated ci n =
    (case raw of
       CUtf8 utf8 \<Rightarrow>
         if length utf8 \<noteq> n then Err OtherErr
         else bindR (compile_ci pattern escape ci) (\<lambda>matcher.
              Ok (CBool (map (map_option (\<lambda>s. let m = matches matcher s in if negated then \<not> m else m)) utf8)))
     | _ \<Rightarrow> Err TypeErr)"

definition format_days :: "FormatToken list \<Rightarrow> 32 word \<Rightarrow> string" where
  "format_days pattern days =
    (let (y, m, d) = civil_from_days (sint days)
     in format_civil \<lparr>c_year = y, c_month = m, c_day = d, c_hour = 0, c_minute = 0, c_second = 0\<rparr> pattern)"

definition format_ticks :: "FormatToken list \<Rightarrow> 64 word \<Rightarrow> string" where
  "format_ticks pattern ticks = format_civil (civil_from_ticks_ns (sint ticks)) pattern"

definition parse_date :: "FormatToken list \<Rightarrow> string \<Rightarrow> 32 word BoltResult" where
  "parse_date pattern s =
    bindR (okOrR (parse_civil (str_trim s) pattern) OtherErr) (\<lambda>parts.
    bindR (okOrR (days_from_civil (c_year parts) (c_month parts) (c_day parts)) OtherErr) (\<lambda>days.
    Ok (word_of_int days)))"

definition parse_timestamp :: "TimeUnit \<Rightarrow> FormatToken list \<Rightarrow> string \<Rightarrow> 64 word BoltResult" where
  "parse_timestamp unit pattern s =
    bindR (okOrR (parse_civil (str_trim s) pattern) OtherErr) (\<lambda>parts.
    bindR (okOrR (civil_to_ticks parts unit) OtherErr) (\<lambda>ticks. Ok (word_of_int ticks)))"

definition eval_cast_format :: "HostColumn \<Rightarrow> DataType \<Rightarrow> FormatToken list \<Rightarrow> bool \<Rightarrow> HostColumn BoltResult" where
  "eval_cast_format inner target pattern to_text =
    (if to_text then
       (case inner of
          CI32 v \<Rightarrow> Ok (CUtf8 (map (map_option (format_days pattern)) v))
        | CI64 v \<Rightarrow> Ok (CUtf8 (map (map_option (format_ticks pattern)) v))
        | _ \<Rightarrow> Err TypeErr)
     else
       (case inner of
          CUtf8 utf8 \<Rightarrow>
            (case target of
               Date32 \<Rightarrow> bindR (mapR (optR (parse_date pattern)) utf8) (\<lambda>out. Ok (CI32 out))
             | Timestamp unit _ \<Rightarrow>
                 bindR (mapR (optR (parse_timestamp unit pattern)) utf8) (\<lambda>out. Ok (CI64 out))
             | _ \<Rightarrow> Err TypeErr)
        | _ \<Rightarrow> Err TypeErr))"

section \<open>String functions\<close>

record HostConfig =
  uc :: "char \<Rightarrow> string"
  pad_cap :: nat

text \<open>Indexing \<open>args\<close> past its end panics in the source; it is an error value here.\<close>

definition arg_at :: "'a BoltResult list \<Rightarrow> nat \<Rightarrow> 'a BoltResult" where
  "arg_at rs i = (if i < length rs then rs ! i else Err OtherErr)"

fun utf8_of :: "HostColumn \<Rightarrow> string option list BoltResult" where
  "utf8_of (CUtf8 v) = Ok v"
| "utf8_of _ = Err TypeErr"

fun i64_of :: "HostColumn \<Rightarrow> 64 word option list BoltResult" where
  "i64_of (CI64 v) = Ok v"
| "i64_of (CI32 v) = Ok (map (map_option i32_as_i64) v)"
| "i64_of _ = Err TypeErr"

definition eval_utf8_arg :: "HostColumn BoltResult list \<Rightarrow> nat \<Rightarrow> string option list BoltResult" where
  "eval_utf8_arg rs i = bindR (arg_at rs i) utf8_of"

definition eval_i64_arg :: "HostColumn BoltResult list \<Rightarrow> nat \<Rightarrow> 64 word option list BoltResult" where
  "eval_i64_arg rs i = bindR (arg_at rs i) i64_of"

definition clamp_i64_to_i32 :: "64 word \<Rightarrow> 32 word" where
  "clamp_i64_to_i32 v =
    (if sint v > 2 ^ 31 - 1 then word_of_int (2 ^ 31 - 1)
     else if sint v < - (2 ^ 31) then word_of_int (- (2 ^ 31))
     else word_of_int (sint v))"

definition lift2 :: "('a \<Rightarrow> 'b \<Rightarrow> 'c) \<Rightarrow> 'a option \<Rightarrow> 'b option \<Rightarrow> 'c option" where
  "lift2 f x y = (case (x, y) of (Some a, Some b) \<Rightarrow> Some (f a b) | _ \<Rightarrow> None)"

definition lift3 :: "('a \<Rightarrow> 'b \<Rightarrow> 'c \<Rightarrow> 'd) \<Rightarrow> 'a option \<Rightarrow> 'b option \<Rightarrow> 'c option \<Rightarrow> 'd option" where
  "lift3 f x y z = (case (x, y, z) of (Some a, Some b, Some c) \<Rightarrow> Some (f a b c) | _ \<Rightarrow> None)"

definition substring_cell :: "string \<Rightarrow> 64 word \<Rightarrow> 64 word \<Rightarrow> string" where
  "substring_cell s st k = sql_substring s (clamp_i64_to_i32 st) (clamp_i64_to_i32 k)"

definition trim_side :: "ScalarFnKind \<Rightarrow> TrimSide" where
  "trim_side kind =
    (case kind of FnTrimLeading \<Rightarrow> TrimSideLeading | FnTrimTrailing \<Rightarrow> TrimSideTrailing | _ \<Rightarrow> TrimSideBoth)"

definition to_uppercase :: "HostConfig \<Rightarrow> string \<Rightarrow> string" where
  "to_uppercase cfg s = concat (map (uc cfg) s)"

definition to_lowercase :: "string \<Rightarrow> string" where
  "to_lowercase s = map char_to_lowercase s"

text \<open>Concatenation of all arguments of a row, NULL at the first NULL.\<close>

fun concat_cells :: "string option list \<Rightarrow> string option" where
  "concat_cells [] = Some []"
| "concat_cells (c # cs) = concat_opt c (concat_cells cs)"

definition eval_substring :: "HostColumn BoltResult list \<Rightarrow> nat \<Rightarrow> HostColumn BoltResult" where
  "eval_substring rs n =
    (if length rs \<noteq> 2 \<and> length rs \<noteq> 3 then Err PlanErr
     else bindR (eval_utf8_arg rs 0) (\<lambda>src.
          bindR (eval_i64_arg rs 1) (\<lambda>start.
          bindR (if length rs = 3 then eval_i64_arg rs 2
                 else Ok (replicate n (Some (word_of_int (2 ^ 31 - 1))))) (\<lambda>lens.
          Ok (CUtf8 (map (\<lambda>i. lift3 substring_cell (src ! i) (start ! i) (lens ! i)) [0..<n]))))))"

definition trim_cell :: "TrimSide \<Rightarrow> string option \<Rightarrow> string option option \<Rightarrow> string option" where
  "trim_cell side s chars =
    (case s of
       None \<Rightarrow> None
     | Some s \<Rightarrow>
         (case chars of
            Some (Some cset) \<Rightarrow> Some (trim_str s side (Some cset))
          | Some None \<Rightarrow> None
          | None \<Rightarrow> Some (trim_str s side None)))"

definition eval_trim :: "TrimSide \<Rightarrow> HostColumn BoltResult list \<Rightarrow> nat \<Rightarrow> HostColumn BoltResult" where
  "eval_trim side rs n =
    (if rs = [] \<or> length rs > 2 then Err PlanErr
     else bindR (eval_utf8_arg rs 0) (\<lambda>src.
          if length rs = 2
          then bindR (eval_utf8_arg rs 1) (\<lambda>chars.
               Ok (CUtf8 (map (\<lambda>i. trim_cell side (src ! i) (Some (chars ! i))) [0..<n])))
          else Ok (CUtf8 (map (\<lambda>i. trim_cell side (src ! i) None) [0..<n]))))"

definition eval_scalar_fn :: "HostConfig \<Rightarrow> ScalarFnKind \<Rightarrow> HostColumn BoltResult list \<Rightarrow> nat
    \<Rightarrow> HostColumn BoltResult" where
  "eval_scalar_fn cfg kind rs n =
    (case kind of
       FnSubstring \<Rightarrow> eval_substring rs n
     | FnTrimBoth \<Rightarrow> eval_trim (trim_side kind) rs n
     | FnTrimLeading \<Rightarrow> eval_trim (trim_side kind) rs n
     | FnTrimTrailing \<Rightarrow> eval_trim (trim_side kind) rs n
     | FnOctetLength \<Rightarrow>
         bindR (eval_utf8_arg rs 0) (\<lambda>src. Ok (CI64 (map (map_option octet_length_str) src)))
     | FnPosition \<Rightarrow>
         bindR (eval_utf8_arg rs 0) (\<lambda>s. bindR (eval_utf8_arg rs 1) (\<lambda>sub.
         Ok (CI64 (map (\<lambda>i. lift2 position_str (s ! i) (sub ! i)) [0..<n]))))
     | FnReplace \<Rightarrow>
         bindR (eval_utf8_arg rs 0) (\<lambda>s. bindR (eval_utf8_arg rs 1) (\<lambda>from.
         bindR (eval_utf8_arg rs 2) (\<lambda>to.
         Ok (CUtf8 (map (\<lambda>i. lift3 replace_str (s ! i) (from ! i) (to ! i)) [0..<n])))))
     | FnLeft \<Rightarrow>
         bindR (eval_utf8_arg rs 0) (\<lambda>s. bindR (eval_i64_arg rs 1) (\<lambda>k.
         Ok (CUtf8 (map (\<lambda>i. lift2 left_str (s ! i) (k ! i)) [0..<n]))))
     | FnRight \<Rightarrow>
         bindR (eval_utf8_arg rs 0) (\<lambda>s. bindR (eval_i64_arg rs 1) (\<lambda>k.
         Ok (CUtf8 (map (\<lambda>i. lift2 right_str (s ! i) (k ! i)) [0..<n]))))
     | FnLpad \<Rightarrow>
         bindR (eval_utf8_arg rs 0) (\<lambda>s. bindR (eval_i64_arg rs 1) (\<lambda>l.
         bindR (eval_utf8_arg rs 2) (\<lambda>p.
         Ok (CUtf8 (map (\<lambda>i. lift3 (\<lambda>s l p. pad_str (pad_cap cfg) s l p PadLeft) (s ! i) (l ! i) (p ! i)) [0..<n])))))
     | FnRpad \<Rightarrow>
         bindR (eval_utf8_arg rs 0) (\<lambda>s. bindR (eval_i64_arg rs 1) (\<lambda>l.
         bindR (eval_utf8_arg rs 2) (\<lambda>p.
         Ok (CUtf8 (map (\<lambda>i. lift3 (\<lambda>s l p. pad_str (pad_cap cfg) s l p PadRight) (s ! i) (l ! i) (p ! i)) [0..<n])))))
     | FnReverse \<Rightarrow>
         bindR (eval_utf8_arg rs 0) (\<lambda>s. Ok (CUtf8 (map (map_option reverse_str) s)))
     | FnInitcap \<Rightarrow>
         bindR (eval_utf8_arg rs 0) (\<lambda>s. Ok (CUtf8 (map (map_option (initcap_str (uc cfg))) s)))
     | FnUpper \<Rightarrow>
         bindR (eval_utf8_arg rs 0) (\<lambda>s. Ok (CUtf8 (map (map_option (to_uppercase cfg)) s)))
     | FnLower \<Rightarrow>
         bindR (eval_utf8_arg rs 0) (\<lambda>s. Ok (CUtf8 (map (map_option to_lowercase) s)))
     | FnLength \<Rightarrow>
         bindR (eval_utf8_arg rs 0) (\<lambda>s. Ok (CI64 (map (map_option char_length_str) s)))
     | FnConcat \<Rightarrow>
         bindR (mapR (\<lambda>r. bindR r utf8_of) rs) (\<lambda>cols.
         Ok (CUtf8 (map (\<lambda>i. concat_cells (map (\<lambda>c. c ! i) cols)) [0..<n]))))"

section \<open>The evaluator\<close>

type_synonym ColumnEnv = "string \<rightharpoonup> HostColumn"

definition eval_column :: "ColumnEnv \<Rightarrow> nat \<Rightarrow> string \<Rightarrow> HostColumn BoltResult" where
  "eval_column env n nm =
    bindR (okOrR (env nm) PlanErr) (\<lambda>col. if len col \<noteq> n then Err OtherErr else Ok col)"

fun eval_literal :: "Literal \<Rightarrow> nat \<Rightarrow> HostColumn BoltResult" where
  "eval_literal LNull n = Ok (CI64 (replicate n None))"
| "eval_literal (LBool b) n = Ok (CBool (replicate n (Some b)))"
| "eval_literal (LInt32 v) n = Ok (CI32 (replicate n (Some v)))"
| "eval_literal (LInt64 v) n = Ok (CI64 (replicate n (Some v)))"
| "eval_literal (LFloat32 v) n = Ok (CF32 (replicate n (Some v)))"
| "eval_literal (LFloat64 v) n = Ok (CF64 (replicate n (Some v)))"
| "eval_literal (LUtf8 s) n = Ok (CUtf8 (replicate n (Some s)))"
| "eval_literal (LDecimal128 _ _ _) n = Err PlanErr"
| "eval_literal (LDate32 v) n = Ok (CI32 (replicate n (Some v)))"
| "eval_literal (LTimestamp v _ _) n = Ok (CI64 (replicate n (Some v)))"

fun eval_inner :: "HostConfig \<Rightarrow> ColumnEnv \<Rightarrow> nat \<Rightarrow> Expr \<Rightarrow> HostColumn BoltResult" where
  "eval_inner cfg env n (Column nm) = eval_column env n nm"
| "eval_inner cfg env n (Lit l) = eval_literal l n"
| "eval_inner cfg env n (Alias e _) = eval_inner cfg env n e"
| "eval_inner cfg env n (Binary op l r) =
    bindR (eval_inner cfg env n l) (\<lambda>a. bindR (eval_inner cfg env n r) (\<lambda>b. eval_binary op a b n))"
| "eval_inner cfg env n (Unary op e) = bindR (eval_inner cfg env n e) (\<lambda>c. eval_unary op c n)"
| "eval_inner cfg env n (Case branches else_branch) =
    eval_case (map (\<lambda>b. (eval_inner cfg env n (fst b), eval_inner cfg env n (snd b))) branches)
      (map_option (eval_inner cfg env n) else_branch) n"
| "eval_inner cfg env n (Like e pattern escape negated ci) =
    bindR (eval_inner cfg env n e) (\<lambda>c. eval_like c pattern escape negated ci n)"
| "eval_inner cfg env n (Cast e target safe) =
    bindR (eval_inner cfg env n e) (\<lambda>c. if safe then safe_cast_column c target else cast_column c target)"
| "eval_inner cfg env n (CastFormat e target pattern to_text) =
    bindR (eval_inner cfg env n e) (\<lambda>c. eval_cast_format c target pattern to_text)"
| "eval_inner cfg env n (ScalarFn kind args) =
    eval_scalar_fn cfg kind (map (eval_inner cfg env n) args) n"
| "eval_inner cfg env n (Extract _ _) = Err PlanErr"
| "eval_inner cfg env n (DateTrunc _ _) = Err PlanErr"
| "eval_inner cfg env n (ScalarSubquery _) = Err PlanErr"
| "eval_inner cfg env n (InSubquery _ _ _) = Err PlanErr"

definition eval_expr :: "HostConfig \<Rightarrow> ColumnEnv \<Rightarrow> nat \<Rightarrow> Expr \<Rightarrow> DataType \<Rightarrow> HostColumn BoltResult" where
  "eval_expr cfg env n e out_dtype =
    bindR (eval_inner cfg env n e) (\<lambda>raw.
    if len raw \<noteq> n then Err OtherErr
    else if col_dtype raw = out_dtype then Ok raw else cast_column raw out_dtype)"

fun try_bare_column :: "Expr \<Rightarrow> string option" where
  "try_bare_column (Column nm) = Some nm"
| "try_bare_column (Alias e _) = try_bare_column e"
| "try_bare_column _ = None"

fun agg_inner :: "Expr AggregateExpr \<Rightarrow> Expr" where
  "agg_inner (AggCount e) = e"
| "agg_inner (AggSum e) = e"
| "agg_inner (AggMin e) = e"
| "agg_inner (AggMax e) = e"
| "agg_inner (AggAvg e) = e"
| "agg_inner (AggVarPop e) = e"
| "agg_inner (AggVarSamp e) = e"
| "agg_inner (AggStddevPop e) = e"
| "agg_inner (AggStddevSamp e) = e"

definition materialize_agg_input :: "HostConfig \<Rightarrow> ColumnEnv \<Rightarrow> nat \<Rightarrow> Expr AggregateExpr \<Rightarrow> DataType
    \<Rightarrow> HostColumn BoltResult" where
  "materialize_agg_input cfg env n agg expected = eval_expr cfg env n (agg_inner agg) expected"

end
