(* ===== verification/Row_Eval.thy ===== *)
theory Row_Eval
  imports Host_Eval
begin

text \<open>
  A row-at-a-time reference for the host evaluator and the proof that the columnar code
  refines it.  \<open>eval_row\<close> gives the SQL meaning of an expression on one row: errors are
  strict, NULL propagates through arithmetic, comparisons and functions, the logical
  connectives are Kleene's.  It is the semantics the optimizer theories preserve.
\<close>

section \<open>The reference\<close>

type_synonym RowEnv = "string \<rightharpoonup> Value option"

definition lift_row :: "(Value \<Rightarrow> Value \<Rightarrow> Value option BoltResult) \<Rightarrow> Value option \<Rightarrow> Value option
    \<Rightarrow> Value option BoltResult" where
  "lift_row f x y = (case (x, y) of (Some a, Some b) \<Rightarrow> f a b | _ \<Rightarrow> Ok None)"

fun row_bool :: "Value option \<Rightarrow> bool option BoltResult" where
  "row_bool None = Ok None"
| "row_bool (Some (VBool b)) = Ok (Some b)"
| "row_bool _ = Err OtherErr"

fun row_utf8 :: "Value option \<Rightarrow> string option BoltResult" where
  "row_utf8 None = Ok None"
| "row_utf8 (Some (VUtf8 s)) = Ok (Some s)"
| "row_utf8 _ = Err TypeErr"

fun row_i64 :: "Value option \<Rightarrow> 64 word option BoltResult" where
  "row_i64 None = Ok None"
| "row_i64 (Some (VI64 x)) = Ok (Some x)"
| "row_i64 (Some (VI32 x)) = Ok (Some (i32_as_i64 x))"
| "row_i64 _ = Err TypeErr"

definition row_binary :: "BinaryOp \<Rightarrow> Value option \<Rightarrow> Value option \<Rightarrow> Value option BoltResult" where
  "row_binary op x y =
    (if is_arithmetic op then lift_row (val_arith op) x y
     else if is_integer_op op then lift_row (val_integer_op op) x y
     else if is_comparison op
     then lift_row (\<lambda>a b. bindR (val_cmp op a b) (\<lambda>t. Ok (Some (VBool t)))) x y
     else if is_logical op
     then bindR (row_bool x) (\<lambda>a. bindR (row_bool y) (\<lambda>b. Ok (map_option VBool (logical3 op a b))))
     else bindR (row_utf8 x) (\<lambda>a. bindR (row_utf8 y) (\<lambda>b. Ok (map_option VUtf8 (concat_opt a b)))))"

definition row_unary :: "UnaryOp \<Rightarrow> Value option \<Rightarrow> Value option BoltResult" where
  "row_unary op x =
    (case op of
       UnaryOp.Not \<Rightarrow> bindR (row_bool x) (\<lambda>b. Ok (map_option VBool (not3 b)))
     | IsNull \<Rightarrow> Ok (Some (VBool (x = None)))
     | IsNotNull \<Rightarrow> Ok (Some (VBool (x \<noteq> None))))"

definition row_like :: "Value option \<Rightarrow> string \<Rightarrow> char option \<Rightarrow> bool \<Rightarrow> bool \<Rightarrow> Value option BoltResult" where
  "row_like x pattern escape negated ci =
    bindR (row_utf8 x) (\<lambda>s. bindR (compile_ci pattern escape ci) (\<lambda>m.
    Ok (map_option (\<lambda>s. VBool (let h = matches m s in if negated then \<not> h else h)) s)))"

definition row_cast :: "Value option \<Rightarrow> DataType \<Rightarrow> bool \<Rightarrow> Value option BoltResult" where
  "row_cast x target safe =
    (case x of
       None \<Rightarrow> Ok None
     | Some v \<Rightarrow> if safe then safe_cast_value v target else bindR (cast_value v target) (\<lambda>w. Ok (Some w)))"

definition row_cast_format :: "Value option \<Rightarrow> DataType \<Rightarrow> FormatToken list \<Rightarrow> bool \<Rightarrow> Value option BoltResult" where
  "row_cast_format x target pattern to_text =
    (case x of
       None \<Rightarrow> Ok None
     | Some v \<Rightarrow>
         if to_text then
           (case v of
              VI32 d \<Rightarrow> Ok (Some (VUtf8 (format_days pattern d)))
            | VI64 t \<Rightarrow> Ok (Some (VUtf8 (format_ticks pattern t)))
            | _ \<Rightarrow> Err TypeErr)
         else
           (case (v, target) of
              (VUtf8 s, Date32) \<Rightarrow> bindR (parse_date pattern s) (\<lambda>d. Ok (Some (VI32 d)))
            | (VUtf8 s, Timestamp unit _) \<Rightarrow> bindR (parse_timestamp unit pattern s) (\<lambda>t. Ok (Some (VI64 t)))
            | _ \<Rightarrow> Err TypeErr))"

definition row_utf8_arg :: "Value option BoltResult list \<Rightarrow> nat \<Rightarrow> string option BoltResult" where
  "row_utf8_arg rs i = bindR (arg_at rs i) row_utf8"

definition row_i64_arg :: "Value option BoltResult list \<Rightarrow> nat \<Rightarrow> 64 word option BoltResult" where
  "row_i64_arg rs i = bindR (arg_at rs i) row_i64"

definition utf8_result :: "string option \<Rightarrow> Value option BoltResult" where
  "utf8_result s = Ok (map_option VUtf8 s)"

definition i64_result :: "64 word option \<Rightarrow> Value option BoltResult" where
  "i64_result x = Ok (map_option VI64 x)"

definition row_trim :: "TrimSide \<Rightarrow> Value option BoltResult list \<Rightarrow> Value option BoltResult" where
  "row_trim side rs =
    (if rs = [] \<or> length rs > 2 then Err PlanErr
     else bindR (row_utf8_arg rs 0) (\<lambda>s.
          if length rs = 2 then bindR (row_utf8_arg rs 1) (\<lambda>cs. utf8_result (trim_cell side s (Some cs)))
          else utf8_result (trim_cell side s None)))"

definition row_scalar_fn :: "HostConfig \<Rightarrow> ScalarFnKind \<Rightarrow> Value option BoltResult list
    \<Rightarrow> Value option BoltResult" where
  "row_scalar_fn cfg kind rs =
    (case kind of
       FnSubstring \<Rightarrow>
         if length rs \<noteq> 2 \<and> length rs \<noteq> 3 then Err PlanErr
         else bindR (row_utf8_arg rs 0) (\<lambda>s. bindR (row_i64_arg rs 1) (\<lambda>st.
              bindR (if length rs = 3 then row_i64_arg rs 2 else Ok (Some (word_of_int (2 ^ 31 - 1)))) (\<lambda>k.
              utf8_result (lift3 substring_cell s st k))))
     | FnTrimBoth \<Rightarrow> row_trim (trim_side kind) rs
     | FnTrimLeading \<Rightarrow> row_trim (trim_side kind) rs
     | FnTrimTrailing \<Rightarrow> row_trim (trim_side kind) rs
     | FnOctetLength \<Rightarrow> bindR (row_utf8_arg rs 0) (\<lambda>s. i64_result (map_option octet_length_str s))
     | FnPosition \<Rightarrow>
         bindR (row_utf8_arg rs 0) (\<lambda>s. bindR (row_utf8_arg rs 1) (\<lambda>sub.
         i64_result (lift2 position_str s sub)))
     | FnReplace \<Rightarrow>
         bindR (row_utf8_arg rs 0) (\<lambda>s. bindR (row_utf8_arg rs 1) (\<lambda>from. bindR (row_utf8_arg rs 2) (\<lambda>to.
         utf8_result (lift3 replace_str s from to))))
     | FnLeft \<Rightarrow>
         bindR (row_utf8_arg rs 0) (\<lambda>s. bindR (row_i64_arg rs 1) (\<lambda>k. utf8_result (lift2 left_str s k)))
     | FnRight \<Rightarrow>
         bindR (row_utf8_arg rs 0) (\<lambda>s. bindR (row_i64_arg rs 1) (\<lambda>k. utf8_result (lift2 right_str s k)))
     | FnLpad \<Rightarrow>
         bindR (row_utf8_arg rs 0) (\<lambda>s. bindR (row_i64_arg rs 1) (\<lambda>l. bindR (row_utf8_arg rs 2) (\<lambda>p.
         utf8_result (lift3 (\<lambda>s l p. pad_str (pad_cap cfg) s l p PadLeft) s l p))))
     | FnRpad \<Rightarrow>
         bindR (row_utf8_arg rs 0) (\<lambda>s. bindR (row_i64_arg rs 1) (\<lambda>l. bindR (row_utf8_arg rs 2) (\<lambda>p.
         utf8_result (lift3 (\<lambda>s l p. pad_str (pad_cap cfg) s l p PadRight) s l p))))
     | FnReverse \<Rightarrow> bindR (row_utf8_arg rs 0) (\<lambda>s. utf8_result (map_option reverse_str s))
     | FnInitcap \<Rightarrow> bindR (row_utf8_arg rs 0) (\<lambda>s. utf8_result (map_option (initcap_str (uc cfg)) s))
     | FnUpper \<Rightarrow> bindR (row_utf8_arg rs 0) (\<lambda>s. utf8_result (map_option (to_uppercase cfg) s))
     | FnLower \<Rightarrow> bindR (row_utf8_arg rs 0) (\<lambda>s. utf8_result (map_option to_lowercase s))
     | FnLength \<Rightarrow> bindR (row_utf8_arg rs 0) (\<lambda>s. i64_result (map_option char_length_str s))
     | FnConcat \<Rightarrow> bindR (mapR (\<lambda>r. bindR r row_utf8) rs) (\<lambda>cs. utf8_result (concat_cells cs)))"

fun row_literal :: "Literal \<Rightarrow> Value option BoltResult" where
  "row_literal LNull = Ok None"
| "row_literal (LBool b) = Ok (Some (VBool b))"
| "row_literal (LInt32 v) = Ok (Some (VI32 v))"
| "row_literal (LInt64 v) = Ok (Some (VI64 v))"
| "row_literal (LFloat32 v) = Ok (Some (VF32 v))"
| "row_literal (LFloat64 v) = Ok (Some (VF64 v))"
| "row_literal (LUtf8 s) = Ok (Some (VUtf8 s))"
| "row_literal (LDecimal128 _ _ _) = Err PlanErr"
| "row_literal (LDate32 v) = Ok (Some (VI32 v))"
| "row_literal (LTimestamp v _ _) = Ok (Some (VI64 v))"

text \<open>The first arm whose condition is true; an arm that is UNKNOWN does not fire.\<close>

fun first_true :: "(bool option \<times> Value option) list \<Rightarrow> Value option \<Rightarrow> Value option" where
  "first_true [] els = els"
| "first_true ((c, v) # bs) els = (if c = Some True then v else first_true bs els)"

definition row_case :: "(Value option BoltResult \<times> Value option BoltResult) list
    \<Rightarrow> Value option BoltResult option \<Rightarrow> Value option BoltResult" where
  "row_case branches else_branch =
    (if branches = [] then Err PlanErr
     else bindR (mapR (\<lambda>(c, v). bindR c (\<lambda>x. bindR (row_bool x) (\<lambda>b. bindR v (\<lambda>w. Ok (b, w))))) branches) (\<lambda>bs.
          bindR (case else_branch of None \<Rightarrow> Ok None | Some r \<Rightarrow> r) (\<lambda>els.
          Ok (first_true bs els))))"

fun eval_row :: "HostConfig \<Rightarrow> RowEnv \<Rightarrow> Expr \<Rightarrow> Value option BoltResult" where
  "eval_row cfg \<rho> (Column nm) = okOrR (\<rho> nm) PlanErr"
| "eval_row cfg \<rho> (Lit l) = row_literal l"
| "eval_row cfg \<rho> (Alias e _) = eval_row cfg \<rho> e"
| "eval_row cfg \<rho> (Binary op l r) =
    bindR (eval_row cfg \<rho> l) (\<lambda>a. bindR (eval_row cfg \<rho> r) (\<lambda>b. row_binary op a b))"
| "eval_row cfg \<rho> (Unary op e) = bindR (eval_row cfg \<rho> e) (row_unary op)"
| "eval_row cfg \<rho> (Case branches else_branch) =
    row_case (map (\<lambda>b. (eval_row cfg \<rho> (fst b), eval_row cfg \<rho> (snd b))) branches)
      (map_option (eval_row cfg \<rho>) else_branch)"
| "eval_row cfg \<rho> (Like e pattern escape negated ci) =
    bindR (eval_row cfg \<rho> e) (\<lambda>x. row_like x pattern escape negated ci)"
| "eval_row cfg \<rho> (Cast e target safe) = bindR (eval_row cfg \<rho> e) (\<lambda>x. row_cast x target safe)"
| "eval_row cfg \<rho> (CastFormat e target pattern to_text) =
    bindR (eval_row cfg \<rho> e) (\<lambda>x. row_cast_format x target pattern to_text)"
| "eval_row cfg \<rho> (ScalarFn kind args) = row_scalar_fn cfg kind (map (eval_row cfg \<rho>) args)"
| "eval_row cfg \<rho> (Extract _ _) = Err PlanErr"
| "eval_row cfg \<rho> (DateTrunc _ _) = Err PlanErr"
| "eval_row cfg \<rho> (ScalarSubquery _) = Err PlanErr"
| "eval_row cfg \<rho> (InSubquery _ _ _) = Err PlanErr"

section \<open>Rows of a batch\<close>

fun cell :: "HostColumn \<Rightarrow> nat \<Rightarrow> Value option" where
  "cell (CBool v) i = map_option VBool (v ! i)"
| "cell (CI32 v) i = map_option VI32 (v ! i)"
| "cell (CI64 v) i = map_option VI64 (v ! i)"
| "cell (CF32 v) i = map_option VF32 (v ! i)"
| "cell (CF64 v) i = map_option VF64 (v ! i)"
| "cell (CUtf8 v) i = map_option VUtf8 (v ! i)"

definition row_env :: "ColumnEnv \<Rightarrow> nat \<Rightarrow> RowEnv" where
  "row_env env i nm = map_option (\<lambda>c. cell c i) (env nm)"

section \<open>Columnar operators act cell by cell\<close>

lemma cell_dtype: "cell c i = Some v \<Longrightarrow> val_dtype v = col_dtype c"
  by (cases c) auto

lemma zip_with_nth [simp]:
  "i < length a \<Longrightarrow> i < length b \<Longrightarrow>
    zip_with f a b ! i = (case (a ! i, b ! i) of (Some u, Some v) \<Rightarrow> f u v | _ \<Rightarrow> None)"
  by (simp add: zip_with_def)

lemma zip_with_length [simp]: "length (zip_with f a b) = min (length a) (length b)"
  by (simp add: zip_with_def)

lemmas zip_defs = zip_arith_int_def zip_integer_def zip_arith_f32_def zip_arith_f64_def zip_cmp_def

lemma cast_column_len: "cast_column c t = Ok c' \<Longrightarrow> len c' = len c"
  by (cases c; cases t) (auto simp: cast_column_def split: if_splits)

lemma cast_column_cell:
  assumes "cast_column c t = Ok c'" "i < len c"
  shows "row_cast (cell c i) t False = Ok (cell c' i)"
  using assms
  by (cases c; cases t)
    (auto simp: cast_column_def cast_value_def row_cast_def split: if_splits option.splits)

lemma safe_cast_column_len: "safe_cast_column c t = Ok c' \<Longrightarrow> len c' = len c"
  by (cases c; cases t) (auto simp: safe_cast_column_def split: if_splits)

lemma safe_cast_column_cell:
  assumes "safe_cast_column c t = Ok c'" "i < len c"
  shows "row_cast (cell c i) t True = Ok (cell c' i)"
  using assms
  by (cases c; cases t)
    (auto simp: safe_cast_column_def safe_cast_value_def row_cast_def option.map_comp comp_def
      split: if_splits option.splits)

lemma cast_zip_cell:
  assumes l: "cast_column lhs u = Ok l" and r: "cast_column rhs u = Ok r"
    and i: "i < len lhs" "i < len rhs"
    and g: "lift_row g (cell l i) (cell r i) = Ok v"
  shows "lift_row (\<lambda>a b. bindR (cast_value a u) (\<lambda>x. bindR (cast_value b u) (g x)))
    (cell lhs i) (cell rhs i) = Ok v"
  using cast_column_cell[OF l i(1)] cast_column_cell[OF r i(2)] g
  by (auto simp: lift_row_def row_cast_def split: option.splits)

lemma lift_row_cong:
  assumes "\<And>a b. x = Some a \<Longrightarrow> y = Some b \<Longrightarrow> f a b = g a b"
  shows "lift_row f x y = lift_row g x y"
  using assms by (auto simp: lift_row_def split: option.splits)

lemma arith_columns_cell:
  assumes "arith_columns op l r = Ok c" "i < len l" "i < len r"
  shows "lift_row (arith_same op) (cell l i) (cell r i) = Ok (cell c i)"
  using assms by (cases l; cases r) (auto simp: lift_row_def zip_defs split: option.splits)

lemma arith_columns_len: "arith_columns op l r = Ok c \<Longrightarrow> len c = min (len l) (len r)"
  by (cases l; cases r) (auto simp: zip_defs)

lemma eval_arithmetic_cell:
  assumes "eval_arithmetic op lhs rhs = Ok c" "i < len lhs" "i < len rhs"
  shows "lift_row (val_arith op) (cell lhs i) (cell rhs i) = Ok (cell c i)"
proof -
  obtain u l r where u: "is_numeric (col_dtype lhs)" "is_numeric (col_dtype rhs)"
      "ext_unify_numeric (col_dtype lhs) (col_dtype rhs) = Ok u"
    and cl: "cast_column lhs u = Ok l" and cr: "cast_column rhs u = Ok r"
    and c: "arith_columns op l r = Ok c"
    using assms(1) by (auto simp: eval_arithmetic_def split: if_splits)
  have "lift_row (arith_same op) (cell l i) (cell r i) = Ok (cell c i)"
    using arith_columns_cell[OF c] assms(2,3) cast_column_len[OF cl] cast_column_len[OF cr] by simp
  from cast_zip_cell[OF cl cr assms(2,3) this] show ?thesis
    by (subst lift_row_cong[where g = "\<lambda>a b. bindR (cast_value a u) (\<lambda>x. bindR (cast_value b u) (arith_same op x))"])
      (auto dest!: cell_dtype simp: val_arith_def u)
qed

lemma integer_columns_cell:
  assumes "integer_columns op l r = Ok c" "i < len l" "i < len r"
  shows "lift_row (bitop_same op) (cell l i) (cell r i) = Ok (cell c i)"
  using assms by (cases l; cases r) (auto simp: lift_row_def zip_defs split: option.splits)

lemma integer_columns_len: "integer_columns op l r = Ok c \<Longrightarrow> len c = min (len l) (len r)"
  by (cases l; cases r) (auto simp: zip_defs)

lemma eval_integer_op_cell:
  assumes "eval_integer_op op lhs rhs = Ok c" "i < len lhs" "i < len rhs"
  shows "lift_row (val_integer_op op) (cell lhs i) (cell rhs i) = Ok (cell c i)"
proof -
  define t where "t = integer_op_target op (col_dtype lhs) (col_dtype rhs)"
  obtain l r where d: "is_int (col_dtype lhs)" "is_int (col_dtype rhs)"
    and cl: "cast_column lhs t = Ok l" and cr: "cast_column rhs t = Ok r"
    and c: "integer_columns op l r = Ok c"
    using assms(1) by (auto simp: eval_integer_op_def Let_def t_def split: if_splits)
  have "lift_row (bitop_same op) (cell l i) (cell r i) = Ok (cell c i)"
    using integer_columns_cell[OF c] assms(2,3) cast_column_len[OF cl] cast_column_len[OF cr] by simp
  from cast_zip_cell[OF cl cr assms(2,3) this] show ?thesis
    by (subst lift_row_cong[where g = "\<lambda>a b. bindR (cast_value a t) (\<lambda>x. bindR (cast_value b t) (bitop_same op x))"])
      (auto dest!: cell_dtype simp: val_integer_op_def d t_def[symmetric])
qed

lemma cmp_columns_cell:
  assumes "cmp_columns op l r = Ok c" "i < len l" "i < len r"
  shows "lift_row (\<lambda>a b. bindR (cmp_same op a b) (\<lambda>t. Ok (Some (VBool t)))) (cell l i) (cell r i)
    = Ok (cell c i)"
  using assms by (cases l; cases r) (auto simp: lift_row_def zip_defs split: option.splits)

lemma cmp_columns_len: "cmp_columns op l r = Ok c \<Longrightarrow> len c = min (len l) (len r)"
  by (cases l; cases r) (auto simp: zip_defs)

lemma eval_comparison_cell:
  assumes "eval_comparison op lhs rhs = Ok c" "i < len lhs" "i < len rhs"
  shows "lift_row (\<lambda>a b. bindR (val_cmp op a b) (\<lambda>t. Ok (Some (VBool t)))) (cell lhs i) (cell rhs i)
    = Ok (cell c i)"
proof (cases "is_numeric (col_dtype lhs) \<and> is_numeric (col_dtype rhs)")
  case True
  then obtain u l r where u: "ext_unify_numeric (col_dtype lhs) (col_dtype rhs) = Ok u"
    and cl: "cast_column lhs u = Ok l" and cr: "cast_column rhs u = Ok r"
    and c: "cmp_columns op l r = Ok c"
    using assms(1) by (auto simp: eval_comparison_def)
  have "lift_row (\<lambda>a b. bindR (cmp_same op a b) (\<lambda>t. Ok (Some (VBool t)))) (cell l i) (cell r i)
      = Ok (cell c i)"
    using cmp_columns_cell[OF c] assms(2,3) cast_column_len[OF cl] cast_column_len[OF cr] by simp
  note cast_zip_cell[OF cl cr assms(2,3) this]
  moreover have "bindR (val_cmp op a b) k =
      bindR (cast_value a u) (\<lambda>x. bindR (cast_value b u) (\<lambda>y. bindR (cmp_same op x y) k))"
    if "cell lhs i = Some a" "cell rhs i = Some b" for a b and k :: "bool \<Rightarrow> Value option BoltResult"
    using that[THEN cell_dtype] u True by (auto simp: val_cmp_def bindR_def split: sum.splits)
  ultimately show ?thesis
    by (subst lift_row_cong[where g = "\<lambda>a b. bindR (cast_value a u) (\<lambda>x. bindR (cast_value b u)
        (\<lambda>y. bindR (cmp_same op x y) (\<lambda>t. Ok (Some (VBool t)))))"]) auto
next
  case False
  then have c: "cmp_columns op lhs rhs = Ok c" and d: "col_dtype lhs = col_dtype rhs"
    using assms(1) by (auto simp: eval_comparison_def split: if_splits)
  have "val_cmp op a b = cmp_same op a b" if "cell lhs i = Some a" "cell rhs i = Some b" for a b
    using that[THEN cell_dtype] False d by (simp add: val_cmp_def)
  then show ?thesis using cmp_columns_cell[OF c assms(2,3)]
    by (subst lift_row_cong[where g = "\<lambda>a b. bindR (cmp_same op a b) (\<lambda>t. Ok (Some (VBool t)))"]) auto
qed

lemma any_someI: "v ! i = Some x \<Longrightarrow> i < length v \<Longrightarrow> any_some v"
  unfolding any_some_def list_ex_iff by (metis nth_mem option.distinct(1))

lemma non_null_cell: "cell c i \<noteq> None \<Longrightarrow> i < len c \<Longrightarrow> column_has_non_null c"
  by (cases c) (auto intro: any_someI)

lemma row_bool_cell: "row_bool (map_option VBool x) = Ok x"
  by (cases x) auto

lemma coerce_len [simp]: "len (coerce_all_null_to_bool c) = len c"
  by (simp add: coerce_all_null_to_bool_def)

lemma coerce_bool_cell:
  assumes "coerce_all_null_to_bool c = CBool v" "i < len c"
  shows "row_bool (cell c i) = Ok (v ! i)" "length v = len c"
proof -
  show l: "length v = len c" using coerce_len[of c] unfolding assms(1) by simp
  show "row_bool (cell c i) = Ok (v ! i)"
  proof (cases "c = CBool v")
    case False
    then have "v = replicate (len c) None" "\<not> column_has_non_null c"
      using assms(1) by (auto simp: coerce_all_null_to_bool_def split: if_splits)
    then show ?thesis using non_null_cell[of c i] assms(2) by (cases "cell c i") auto
  qed (simp add: row_bool_cell)
qed

lemma eval_logical_cell:
  assumes "eval_logical op lhs rhs = Ok c" "i < len lhs" "i < len rhs"
  shows "bindR (row_bool (cell lhs i)) (\<lambda>a. bindR (row_bool (cell rhs i)) (\<lambda>b.
    Ok (map_option VBool (logical3 op a b)))) = Ok (cell c i)"
proof -
  obtain a b where a: "coerce_all_null_to_bool lhs = CBool a" and b: "coerce_all_null_to_bool rhs = CBool b"
    and c: "c = CBool (map2 (logical3 op) a b)"
    using assms(1) by (auto simp: eval_logical_def split: HostColumn.splits)
  show ?thesis
    using coerce_bool_cell[OF a assms(2)] coerce_bool_cell[OF b assms(3)] assms(2,3) by (simp add: c)
qed

lemma eval_string_cell:
  assumes "eval_string op lhs rhs = Ok c" "i < len lhs" "i < len rhs"
  shows "bindR (row_utf8 (cell lhs i)) (\<lambda>a. bindR (row_utf8 (cell rhs i)) (\<lambda>b.
    Ok (map_option VUtf8 (concat_opt a b)))) = Ok (cell c i)"
proof -
  obtain a b where ab: "lhs = CUtf8 a" "rhs = CUtf8 b" and c: "c = CUtf8 (map2 concat_opt a b)"
    using assms(1)
    by (auto simp: eval_string_def host_concat_option_strings_def split: HostColumn.splits if_splits)
  have "row_utf8 (map_option VUtf8 x) = Ok x" for x by (cases x) auto
  then show ?thesis using assms(2,3) by (simp add: c ab)
qed

lemma eval_binary_len:
  assumes "eval_binary op l r n = Ok c"
  shows "len c = n"
proof -
  have n: "len l = n" "len r = n" using assms by (auto simp: eval_binary_def split: if_splits)
  have "eval_logical op l r = Ok c \<Longrightarrow> len c = n"
    using n coerce_len[of l] coerce_len[of r]
    by (auto simp: eval_logical_def simp del: coerce_len split: HostColumn.splits)
  then show ?thesis using assms n
    by (auto simp: eval_binary_def eval_arithmetic_def eval_integer_op_def eval_comparison_def Let_def
        eval_string_def host_concat_option_strings_def
        split: if_splits HostColumn.splits
        dest!: cast_column_len arith_columns_len integer_columns_len cmp_columns_len)
qed

lemma eval_binary_cell:
  assumes "eval_binary op l r n = Ok c" "i < n"
  shows "row_binary op (cell l i) (cell r i) = Ok (cell c i)"
proof -
  have n: "i < len l" "i < len r" using assms by (auto simp: eval_binary_def split: if_splits)
  show ?thesis using assms(1) eval_logical_cell[OF _ n, of op c] eval_string_cell[OF _ n, of op c]
    by (auto simp: eval_binary_def row_binary_def eval_arithmetic_cell eval_integer_op_cell
        eval_comparison_cell n split: if_splits)
qed

lemma null_test_len [simp]: "length (null_test_column op c) = len c"
  by (cases c) (auto simp: null_test_cells_def)

lemma null_test_nth: "i < len c \<Longrightarrow> null_test_column op c ! i = Some (is_null_to_bool op (cell c i = None))"
  by (cases c) (auto simp: null_test_cells_def)

lemma eval_unary_len: "eval_unary op c n = Ok c' \<Longrightarrow> len c' = n"
  by (auto simp: eval_unary_def split: if_splits HostColumn.splits)

lemma eval_unary_cell:
  assumes "eval_unary op c n = Ok c'" "i < n"
  shows "row_unary op (cell c i) = Ok (cell c' i)"
proof (cases op)
  case Not
  then obtain v where v: "c = CBool v" "c' = CBool (map not3 v)" "length v = n"
    using assms(1) by (auto simp: eval_unary_def split: if_splits HostColumn.splits)
  then show ?thesis using assms(2) Not by (cases "v ! i") (auto simp: row_unary_def)
qed (use assms in \<open>auto simp: eval_unary_def row_unary_def null_test_nth is_null_to_bool_def split: if_splits\<close>)

lemma row_utf8_cell: "row_utf8 (map_option VUtf8 x) = Ok x"
  by (cases x) auto

lemma eval_like_len: "eval_like c p e neg ci n = Ok c' \<Longrightarrow> len c' = n"
  by (auto simp: eval_like_def split: HostColumn.splits if_splits)

lemma eval_like_cell:
  assumes "eval_like c p e neg ci n = Ok c'" "i < n"
  shows "row_like (cell c i) p e neg ci = Ok (cell c' i)"
  using assms
  by (cases neg) (auto simp: eval_like_def row_like_def row_utf8_cell option.map_comp comp_def
      split: HostColumn.splits if_splits)

lemma map_option_Some_eq: "Some a = x \<Longrightarrow> Some (f a) = map_option f x"
  by auto

lemma mapR_nth: "mapR f xs = Ok ys \<Longrightarrow> i < length xs \<Longrightarrow> f (xs ! i) = Ok (ys ! i)"
  by (simp add: mapR_Ok_iff list_all2_conv_all_nth)

lemma eval_cast_format_len:
  "eval_cast_format c t p txt = Ok c' \<Longrightarrow> len c' = len c"
  by (auto simp: eval_cast_format_def split: HostColumn.splits DataType.splits if_splits dest: mapR_length)

lemma eval_cast_format_cell:
  assumes "eval_cast_format c t p txt = Ok c'" "i < len c"
  shows "row_cast_format (cell c i) t p txt = Ok (cell c' i)"
  using assms
  by (auto simp: eval_cast_format_def row_cast_format_def
      split: HostColumn.splits DataType.splits if_splits option.splits dest!: mapR_nth[of _ _ _ i]
      intro!: map_option_Some_eq)

text \<open>Scalar functions: the row results stand for the columns' cells at row \<open>i\<close>.\<close>

definition rows_of :: "HostColumn BoltResult list \<Rightarrow> Value option BoltResult list \<Rightarrow> nat \<Rightarrow> nat \<Rightarrow> bool" where
  "rows_of rs vs n i \<longleftrightarrow> list_all2 (\<lambda>r v. \<forall>c. r = Ok c \<longrightarrow> len c = n \<and> v = Ok (cell c i)) rs vs"

lemma rows_of_length: "rows_of rs vs n i \<Longrightarrow> length vs = length rs"
  by (simp add: rows_of_def list_all2_lengthD)

lemma arg_at_row:
  assumes "rows_of rs vs n i" "arg_at rs k = Ok c"
  shows "arg_at vs k = Ok (cell c i)" "len c = n"
  using assms by (auto simp: rows_of_def arg_at_def list_all2_conv_all_nth split: if_splits)

lemma utf8_of_row: "utf8_of c = Ok v \<Longrightarrow> i < len c \<Longrightarrow> row_utf8 (cell c i) = Ok (v ! i) \<and> length v = len c"
  by (cases c) (auto simp: row_utf8_cell)

lemma row_i64_cell:
  "row_i64 (map_option VI64 x) = Ok x" "row_i64 (map_option VI32 y) = Ok (map_option i32_as_i64 y)"
  by (cases x; simp) (cases y; simp)

lemma i64_of_row: "i64_of c = Ok v \<Longrightarrow> i < len c \<Longrightarrow> row_i64 (cell c i) = Ok (v ! i) \<and> length v = len c"
  by (cases c) (auto simp: row_i64_cell)

lemma utf8_arg_row:
  assumes "rows_of rs vs n i" "eval_utf8_arg rs k = Ok v" "i < n"
  shows "row_utf8_arg vs k = Ok (v ! i) \<and> length v = n"
  using assms(2,3) arg_at_row[OF assms(1)] utf8_of_row
  by (fastforce simp: eval_utf8_arg_def row_utf8_arg_def)

lemma i64_arg_row:
  assumes "rows_of rs vs n i" "eval_i64_arg rs k = Ok v" "i < n"
  shows "row_i64_arg vs k = Ok (v ! i) \<and> length v = n"
  using assms(2,3) arg_at_row[OF assms(1)] i64_of_row
  by (fastforce simp: eval_i64_arg_def row_i64_arg_def)

lemma utf8_args_row:
  assumes "rows_of rs vs n i" "mapR (\<lambda>r. bindR r utf8_of) rs = Ok cols" "i < n"
  shows "mapR (\<lambda>r. bindR r row_utf8) vs = Ok (map (\<lambda>c. c ! i) cols)"
  using assms unfolding rows_of_def
proof (induction rs vs arbitrary: cols rule: list_all2_induct)
  case (Cons r rs v vs)
  then show ?case using utf8_of_row by fastforce
qed simp

lemmas scalar_fn_defs = eval_scalar_fn_def row_scalar_fn_def eval_substring_def eval_trim_def
  row_trim_def utf8_result_def i64_result_def

lemma option_map_nth: "i < length v \<Longrightarrow> map_option f (map (map_option g) v ! i) = map_option (f \<circ> g) (v ! i)"
  by (simp add: option.map_comp)

lemma eval_scalar_fn_cell:
  assumes rows: "rows_of rs vs n i" and ok: "eval_scalar_fn cfg kind rs n = Ok c" and i: "i < n"
  shows "row_scalar_fn cfg kind vs = Ok (cell c i)"
proof -
  have "vs = [] \<longleftrightarrow> rs = []" using rows_of_length[OF rows] by auto
  then show ?thesis using ok i
    by (cases kind)
      (auto simp: scalar_fn_defs option_map_nth option.map_comp comp_def rows_of_length[OF rows]
        dest!: utf8_arg_row[OF rows _ i] i64_arg_row[OF rows _ i] utf8_args_row[OF rows _ i]
        split: if_splits)
qed

lemma eval_scalar_fn_len:
  assumes "\<forall>c. Ok c \<in> set rs \<longrightarrow> len c = n" "eval_scalar_fn cfg kind rs n = Ok c"
  shows "len c = n"
proof -
  have "eval_utf8_arg rs k = Ok v \<Longrightarrow> length v = n" for k v
  proof -
    assume "eval_utf8_arg rs k = Ok v"
    then obtain c where "Ok c \<in> set rs" "utf8_of c = Ok v"
      by (auto simp: eval_utf8_arg_def arg_at_def split: if_splits) (metis nth_mem)
    then show ?thesis using assms(1) by (cases c) auto
  qed
  then show ?thesis using assms(2)
    by (cases kind) (auto simp: scalar_fn_defs split: if_splits)
qed

section \<open>Batches are evaluated row by row\<close>

text \<open>A CASE picks its result type from the whole batch, so its cells are the row values up to
  a numeric cast; expressions without CASE are covered by \<open>eval_inner_cell\<close>, CASE itself by
  \<open>eval_case_cell\<close>.\<close>

fun case_free :: "Expr \<Rightarrow> bool" where
  "case_free (Binary _ l r) \<longleftrightarrow> case_free l \<and> case_free r"
| "case_free (Unary _ e) \<longleftrightarrow> case_free e"
| "case_free (Case _ _) \<longleftrightarrow> False"
| "case_free (Like e _ _ _ _) \<longleftrightarrow> case_free e"
| "case_free (Cast e _ _) \<longleftrightarrow> case_free e"
| "case_free (CastFormat e _ _ _) \<longleftrightarrow> case_free e"
| "case_free (ScalarFn _ es) \<longleftrightarrow> list_all case_free es"
| "case_free (Alias e _) \<longleftrightarrow> case_free e"
| "case_free _ \<longleftrightarrow> True"

lemma select_cells_len [simp]: "length (select_cells conds vs e n) = n"
  by (simp add: select_cells_def)

lemma select_case_len: "select_case t conds vals els n = Ok c \<Longrightarrow> len c = n"
  by (cases t) (auto simp: select_case_def select_case_values_def)

lemma eval_case_len: "eval_case bs e n = Ok c \<Longrightarrow> len c = n"
  by (auto simp: eval_case_def split: if_splits dest!: select_case_len)

lemma eval_literal_len: "eval_literal l n = Ok c \<Longrightarrow> len c = n"
  by (cases l) auto

lemma eval_inner_len: "eval_inner cfg env n e = Ok c \<Longrightarrow> len c = n"
proof (induction cfg env n e arbitrary: c rule: eval_inner.induct)
  case (8 cfg env n e target safe)
  then show ?case by (auto split: if_splits dest: cast_column_len safe_cast_column_len)
next
  case (9 cfg env n e target pattern to_text)
  then show ?case by (auto dest: eval_cast_format_len)
next
  case (10 cfg env n kind args)
  show ?case by (rule eval_scalar_fn_len[of "map (eval_inner cfg env n) args"]) (use 10 in auto)
qed (auto simp: eval_column_def eval_literal_len split: if_splits
    dest: eval_binary_len eval_unary_len eval_like_len eval_case_len)

lemma eval_literal_cell: "eval_literal l n = Ok c \<Longrightarrow> i < n \<Longrightarrow> row_literal l = Ok (cell c i)"
  by (cases l) auto

lemma eval_inner_cell:
  "case_free e \<Longrightarrow> eval_inner cfg env n e = Ok c \<Longrightarrow> i < n \<Longrightarrow>
    eval_row cfg (row_env env i) e = Ok (cell c i)"
proof (induction cfg env n e arbitrary: c rule: eval_inner.induct)
  case (4 cfg env n op l r)
  then show ?case by (auto dest!: eval_binary_cell)
next
  case (5 cfg env n op e)
  then show ?case by (auto dest!: eval_unary_cell)
next
  case (7 cfg env n e pattern escape negated ci)
  then show ?case by (auto dest!: eval_like_cell)
next
  case (8 cfg env n e target safe)
  then obtain x where x: "eval_inner cfg env n e = Ok x" "eval_row cfg (row_env env i) e = Ok (cell x i)"
      "(if safe then safe_cast_column x target else cast_column x target) = Ok c"
    by auto
  then have "i < len x" using 8 eval_inner_len by blast
  then show ?case using x by (cases safe) (auto simp: cast_column_cell safe_cast_column_cell)
next
  case (9 cfg env n e target pattern to_text)
  then show ?case using eval_cast_format_cell eval_inner_len by fastforce
next
  case (10 cfg env n kind args)
  have "rows_of (map (eval_inner cfg env n) args) (map (eval_row cfg (row_env env i)) args) n i"
    unfolding rows_of_def list_all2_map1 list_all2_map2
    using 10 by (intro list.rel_refl_strong) (auto simp: list_all_iff eval_inner_len)
  then show ?case using "10.prems" by (simp add: eval_scalar_fn_cell)
qed (auto simp: eval_column_def row_env_def eval_literal_cell split: if_splits)

end
