(* ===== verification/Host_Soundness.thy ===== *)
theory Host_Soundness
  imports Row_Eval
begin

text \<open>
  What the columnar evaluator guarantees: evaluating a batch gives, row by row, the reference
  value (\<open>eval_inner_rowwise\<close>, \<open>eval_case_rowwise\<close>); an expression accepted by the type
  checker, in the fragment the host supports, never fails and produces a column of its
  static type (\<open>host_eval_type_sound\<close>).  The remaining theorems pin down where the code
  leaves that contract.
\<close>

section \<open>CASE\<close>

lemma first_true_position:
  assumes "length cs = length ws"
  shows "first_true (zip cs ws) e =
    (case position (\<lambda>c. c = Some True) cs of Some k \<Rightarrow> ws ! k | None \<Rightarrow> e)"
  using assms by (induction cs ws rule: list_induct2) (auto split: option.splits)

lemma select_case_cell:
  assumes "select_case t conds vals els n = Ok c" "i < n" "length vals = length conds"
  shows "cell c i = (case position (\<lambda>c. c ! i = Some True) conds of
    Some k \<Rightarrow> cell (vals ! k) i | None \<Rightarrow> cell els i)"
proof -
  have gen: "cell c i = (case position (\<lambda>c. c ! i = Some True) conds of
      Some k \<Rightarrow> cell (vals ! k) i | None \<Rightarrow> cell els i)"
    if sel: "select_case_values proj con conds vals els n = Ok c"
      and proj: "\<And>d v. proj d = Ok v \<Longrightarrow> d = con v"
      and cellf: "\<And>v j. cell (con v) j = map_option f (v ! j)"
    for proj and con :: "'z option list \<Rightarrow> HostColumn" and f :: "'z \<Rightarrow> Value"
  proof -
    obtain vs e where vs: "mapR proj vals = Ok vs" "proj els = Ok e"
      and c: "c = con (select_cells conds vs e n)"
      using sel by (auto simp: select_case_values_def)
    have "k < length conds \<Longrightarrow> vals ! k = con (vs ! k)" for k
      using mapR_nth[OF vs(1)] assms(3) proj by auto
    moreover have "position (\<lambda>c. c ! i = Some True) conds = Some k \<Longrightarrow> k < length conds" for k
      by (simp add: position_Some_iff)
    ultimately show ?thesis using assms(2) proj[OF vs(2)]
      by (cases "position (\<lambda>c. c ! i = Some True) conds") (simp_all add: c cellf select_cells_def)
  qed
  have projs: "as_bools d = Ok v1 \<Longrightarrow> d = CBool v1" "as_i32s d = Ok v2 \<Longrightarrow> d = CI32 v2"
    "as_i64s d = Ok v3 \<Longrightarrow> d = CI64 v3" "as_f32s d = Ok v4 \<Longrightarrow> d = CF32 v4"
    "as_f64s d = Ok v5 \<Longrightarrow> d = CF64 v5" "as_utf8s d = Ok v6 \<Longrightarrow> d = CUtf8 v6" for d v1 v2 v3 v4 v5 v6
    by (cases d; simp)+
  note gens = gen[of as_bools CBool VBool] gen[of as_i32s CI32 VI32] gen[of as_i64s CI64 VI64]
    gen[of as_f32s CF32 VF32] gen[of as_f64s CF64 VF64] gen[of as_utf8s CUtf8 VUtf8]
  show ?thesis using assms(1)
    by (cases t) (auto simp: select_case_def dest: projs intro: gens)
qed

lemma null_column_cell: "i < n \<Longrightarrow> cell (null_column t n) i = None"
  by (cases t) auto

lemma coerce_case_cell:
  assumes "coerce_case_column c t n = Ok c'" "i < n"
  shows "row_cast (cell c i) t False = Ok (cell c' i)"
  using assms non_null_cell[of c i] cast_column_cell[of c t c' i]
  by (auto simp: coerce_case_column_def null_column_cell row_cast_def split: if_splits option.splits)

lemma case_branches_rows:
  assumes "case_branches n rs = Ok (conds, vals)" "i < n"
    and "list_all2 (\<lambda>r v. (\<forall>c. fst r = Ok c \<longrightarrow> fst v = Ok (cell c i)) \<and> (\<forall>c. snd r = Ok c \<longrightarrow> snd v = Ok (cell c i))) rs vs"
  shows "mapR (\<lambda>(c, v). bindR c (\<lambda>x. bindR (row_bool x) (\<lambda>b. bindR v (\<lambda>w. Ok (b, w))))) vs
      = Ok (zip (map (\<lambda>c. c ! i) conds) (map (\<lambda>c. cell c i) vals))
    \<and> length vals = length conds"
  using assms(3,1)
proof (induction rs vs arbitrary: conds vals rule: list_all2_induct)
  case (Cons r rs v vs)
  obtain rc rv vc vv where r: "r = (rc, rv)" and v: "v = (vc, vv)" by (cases r; cases v)
  obtain w t cs ts where w: "rc = Ok (CBool w)" "rv = Ok t" "case_branches n rs = Ok (cs, ts)"
      "conds = w # cs" "vals = t # ts"
  proof -
    from Cons.prems obtain x where x: "rc = Ok x" by (auto simp: r)
    then obtain w where "x = CBool w" using Cons.prems by (cases x) (auto simp: r)
    then show ?thesis using Cons.prems x that by (auto simp: r split: if_splits)
  qed
  have "vc = Ok (cell (CBool w) i)" "vv = Ok (cell t i)" using Cons.hyps(1) w by (auto simp: r v)
  then show ?case using Cons.IH[OF w(3)] by (simp add: v w(4,5) row_bool_cell)
qed simp

lemma eval_case_cell:
  assumes ok: "eval_case rs re n = Ok c" and i: "i < n"
    and rows: "list_all2 (\<lambda>r v. (\<forall>c. fst r = Ok c \<longrightarrow> fst v = Ok (cell c i)) \<and> (\<forall>c. snd r = Ok c \<longrightarrow> snd v = Ok (cell c i))) rs vs"
    and els: "rel_option (\<lambda>r v. \<forall>c. r = Ok c \<longrightarrow> v = Ok (cell c i)) re ve"
  shows "\<exists>v t. row_case vs ve = Ok v \<and> row_cast v t False = Ok (cell c i)"
proof -
  obtain conds vals e t vals' e' where
    br: "case_branches n rs = Ok (conds, vals)" and ne: "rs \<noteq> []"
    and e: "optR (\<lambda>r. r) re = Ok e"
    and vals': "mapR (\<lambda>c. coerce_case_column c t n) vals = Ok vals'"
    and e': "optR (\<lambda>c. coerce_case_column c t n) e = Ok e'"
    and sel: "select_case t conds vals' (case e' of None \<Rightarrow> null_column t n | Some x \<Rightarrow> x) n = Ok c"
    using ok by (auto simp: eval_case_def split: if_splits)
  note b = case_branches_rows[OF br i rows]
  have len: "length vals' = length conds" using b mapR_length[OF vals'] by simp
  define ev where "ev = (case e of None \<Rightarrow> None | Some x \<Rightarrow> cell x i)"
  have elsv: "(case ve of None \<Rightarrow> Ok None | Some r \<Rightarrow> r) = Ok ev"
    using els e by (cases re; cases ve) (auto simp: ev_def)
  have cast_e: "row_cast ev t False = Ok (cell (case e' of None \<Rightarrow> null_column t n | Some x \<Rightarrow> x) i)"
    using e' i by (cases e) (auto simp: ev_def row_cast_def null_column_cell dest: coerce_case_cell)
  have cast_k: "row_cast (cell (vals ! k) i) t False = Ok (cell (vals' ! k) i)" if "k < length conds" for k
    using b that i by (intro coerce_case_cell[OF mapR_nth[OF vals']]) auto
  have pos: "position (\<lambda>c. c = Some True) (map (\<lambda>c. c ! i) conds) = position (\<lambda>c. c ! i = Some True) conds"
    by (induction conds) auto
  have "row_case vs ve = Ok (first_true (zip (map (\<lambda>c. c ! i) conds) (map (\<lambda>c. cell c i) vals)) ev)"
    using b elsv ne rows by (auto simp: row_case_def)
  moreover have "row_cast (first_true (zip (map (\<lambda>c. c ! i) conds) (map (\<lambda>c. cell c i) vals)) ev) t False
      = Ok (cell c i)"
  proof (cases "position (\<lambda>c. c ! i = Some True) conds")
    case None
    then show ?thesis
      using select_case_cell[OF sel i len] cast_e b by (simp add: first_true_position pos)
  next
    case (Some k)
    then have "k < length conds" by (simp add: position_Some_iff)
    with Some show ?thesis
      using select_case_cell[OF sel i len] cast_k b by (simp add: first_true_position pos)
  qed
  ultimately show ?thesis by blast
qed

section \<open>Batches are evaluated row by row\<close>

text \<open>C15: the columnar evaluator refines the row semantics.  Whenever evaluating
  a CASE-free expression over a batch of \<open>n\<close> rows succeeds, the result has \<open>n\<close> rows and its cell at
  every row is the value the row-at-a-time reference gives on that row: rows do not influence
  each other, NULL propagates as in SQL and the logical connectives are three-valued.\<close>

theorem eval_inner_rowwise:
  assumes "case_free e" "eval_inner cfg env n e = Ok c"
  shows "len c = n \<and> (\<forall>i < n. eval_row cfg (row_env env i) e = Ok (cell c i))"
  using eval_inner_len[OF assms(2)] eval_inner_cell[OF assms] by blast

definition ascii_config :: HostConfig where
  "ascii_config = \<lparr>uc = (\<lambda>c. [c]), pad_cap = 16\<rparr>"

definition demo_env :: ColumnEnv where
  "demo_env = [''a'' \<mapsto> CI32 [Some 7, None, Some 9], ''b'' \<mapsto> CI64 [Some 0, Some 3, Some 2],
    ''p'' \<mapsto> CBool [None, Some False, Some True]]"

theorem eval_inner_rowwise_witness:
  "eval_row ascii_config (row_env demo_env 2)
     (Binary And (Binary Gt (Binary Div (Column ''a'') (Column ''b'')) (Lit (LInt32 3))) (Column ''p''))
   = Ok (Some (VBool True))"
proof -
  let ?e = "Binary And (Binary Gt (Binary Div (Column ''a'') (Column ''b'')) (Lit (LInt32 3))) (Column ''p'')"
  have ev: "eval_inner ascii_config demo_env 3 ?e = Ok (CBool [None, Some False, Some True])" by code_simp
  have cf: "case_free ?e" by simp
  have v: "Some (VBool True) = cell (CBool [None, Some False, Some True]) 2" by simp
  show ?thesis unfolding v
    by (rule eval_inner_rowwise[OF cf ev, THEN conjunct2, rule_format]) simp
qed



section \<open>Type soundness\<close>

definition plain_type :: "DataType \<Rightarrow> bool" where
  "plain_type t \<longleftrightarrow> t \<in> {Bool, Int32, Int64, Float32, Float64, Utf8}"

definition is_ok :: "'e + 'a \<Rightarrow> bool" where
  "is_ok r = (case r of Inl _ \<Rightarrow> False | Inr _ \<Rightarrow> True)"

text \<open>The fragment: columns named exactly as in the schema, no untyped NULL literal, no CASE, plain
  (non-temporal, non-decimal) types, LIKE patterns that compile, no subquery.\<close>

fun host_fragment :: "Schema \<Rightarrow> Expr \<Rightarrow> bool" where
  "host_fragment s (Column nm) \<longleftrightarrow> nm \<in> set (map name s)"
| "host_fragment s (Lit l) \<longleftrightarrow> (case lit_dtype l of None \<Rightarrow> False | Some t \<Rightarrow> plain_type t)"
| "host_fragment s (Alias e _) \<longleftrightarrow> host_fragment s e"
| "host_fragment s (Binary _ l r) \<longleftrightarrow> host_fragment s l \<and> host_fragment s r"
| "host_fragment s (Unary _ e) \<longleftrightarrow> host_fragment s e"
| "host_fragment s (Like e p esc _ ci) \<longleftrightarrow> host_fragment s e \<and> is_ok (compile_ci p esc ci)"
| "host_fragment s (Cast e t _) \<longleftrightarrow> host_fragment s e \<and> plain_type t"
| "host_fragment s (ScalarFn _ es) \<longleftrightarrow> list_all (host_fragment s) es"
| "host_fragment s _ \<longleftrightarrow> False"

text \<open>Every field of the schema is bound to a column of its type with \<open>n\<close> rows.\<close>

definition env_conforms :: "ColumnEnv \<Rightarrow> Schema \<Rightarrow> nat \<Rightarrow> bool" where
  "env_conforms env s n \<longleftrightarrow>
    (\<forall>nm \<in> set (map name s). case (env nm, field s nm) of
       (Some c, Inr f) \<Rightarrow> len c = n \<and> col_dtype c = dtype f
     | _ \<Rightarrow> False)"

lemma env_conformsD:
  "env_conforms env s n \<Longrightarrow> nm \<in> set (map name s) \<Longrightarrow> field s nm = Ok f \<Longrightarrow>
    \<exists>c. env nm = Some c \<and> len c = n \<and> col_dtype c = dtype f"
  by (fastforce simp: env_conforms_def split: option.splits)

lemma cast_column_total:
  assumes "col_dtype c \<noteq> Utf8" "t \<in> {Bool, Int32, Int64, Float32, Float64}"
  shows "\<exists>c'. cast_column c t = Ok c' \<and> col_dtype c' = t"
  using assms by (cases c) (auto simp: cast_column_def)

lemma ext_unify_eq:
  "is_numeric a \<Longrightarrow> is_numeric b \<Longrightarrow> ext_unify_numeric a b = unify_numeric a b"
  by (cases a; cases b) (auto simp: is_numeric_def is_int_def is_float_def ext_unify_numeric_def unify_numeric_def)

lemma unify_numeric_type: "unify_numeric a b = Ok t \<Longrightarrow> t \<in> {Int32, Int64, Float32, Float64}"
  by (auto simp: unify_numeric_def Let_def split: if_splits)

lemma col_dtype_plain: "\<not> is_temporal (col_dtype c)" "\<not> is_decimal (col_dtype c)" "plain_type (col_dtype c)"
  by (cases c; simp add: plain_type_def)+

lemma same_type_columns:
  assumes "col_dtype l = t" "col_dtype r = t"
  shows "t \<in> {Int32, Int64, Float32, Float64} \<Longrightarrow> \<exists>c. arith_columns op l r = Ok c \<and> col_dtype c = t"
    and "t \<in> {Int32, Int64} \<Longrightarrow> \<exists>c. integer_columns op l r = Ok c \<and> col_dtype c = t"
    and "\<exists>c. cmp_columns op l r = Ok c \<and> col_dtype c = Bool"
  using assms by (cases l; cases r; auto)+

lemma numeric_not_utf8: "is_numeric t \<Longrightarrow> t \<noteq> Utf8" "is_int t \<Longrightarrow> t \<noteq> Utf8"
  by (auto simp: is_numeric_def is_int_def is_float_def)

lemma eval_arithmetic_total:
  assumes "arith_dtype op (col_dtype l) (col_dtype r) = Ok t"
  shows "\<exists>c. eval_arithmetic op l r = Ok c \<and> col_dtype c = t"
proof -
  have num: "is_numeric (col_dtype l)" "is_numeric (col_dtype r)" and u: "unify_numeric (col_dtype l) (col_dtype r) = Ok t"
    using assms by (auto simp: arith_dtype_def date_or_timestamp_arith_result_def decimal128_arith_result_def
        col_dtype_plain split: if_splits)
  have t: "t \<in> {Int32, Int64, Float32, Float64}" using u by (rule unify_numeric_type)
  obtain l' r' where "cast_column l t = Ok l'" "col_dtype l' = t" "cast_column r t = Ok r'" "col_dtype r' = t"
    using cast_column_total[of l t] cast_column_total[of r t] t num numeric_not_utf8 by blast
  then show ?thesis using same_type_columns(1)[of l' t r' op] t num u
    by (auto simp: eval_arithmetic_def ext_unify_eq)
qed

lemma eval_comparison_total:
  assumes "comparison_dtype (col_dtype l) (col_dtype r) = Ok t"
  shows "\<exists>c. eval_comparison op l r = Ok c \<and> col_dtype c = t"
proof (cases "is_numeric (col_dtype l) \<and> is_numeric (col_dtype r)")
  case True
  obtain u where u: "unify_numeric (col_dtype l) (col_dtype r) = Ok u"
    using True by (auto simp: unify_numeric_def Let_def)
  have ut: "u \<in> {Int32, Int64, Float32, Float64}" using u by (rule unify_numeric_type)
  obtain l' r' where "cast_column l u = Ok l'" "col_dtype l' = u" "cast_column r u = Ok r'" "col_dtype r' = u"
    using cast_column_total[of l u] cast_column_total[of r u] ut True numeric_not_utf8 by blast
  then show ?thesis using same_type_columns(3)[of l' u r' op] True u assms
    by (auto simp: eval_comparison_def ext_unify_eq comparison_dtype_def split: if_splits)
next
  case False
  then show ?thesis using same_type_columns(3)[of l "col_dtype l" r op] assms
    by (auto simp: eval_comparison_def comparison_dtype_def split: if_splits)
qed

lemma eval_integer_op_total:
  assumes "is_int (col_dtype l)" "is_int (col_dtype r)"
  shows "\<exists>c. eval_integer_op op l r = Ok c \<and> col_dtype c = integer_op_target op (col_dtype l) (col_dtype r)"
proof -
  define t where "t = integer_op_target op (col_dtype l) (col_dtype r)"
  have t: "t \<in> {Int32, Int64}" using assms by (auto simp: t_def integer_op_target_def is_int_def)
  obtain l' r' where "cast_column l t = Ok l'" "col_dtype l' = t" "cast_column r t = Ok r'" "col_dtype r' = t"
    using cast_column_total[of l t] cast_column_total[of r t] t assms numeric_not_utf8 by blast
  then show ?thesis using same_type_columns(2)[of l' t r' op] t assms
    by (auto simp: eval_integer_op_def Let_def t_def[symmetric])
qed

lemma dtype_shapes:
  "col_dtype c = Bool \<longleftrightarrow> (\<exists>v. c = CBool v)" "col_dtype c = Utf8 \<longleftrightarrow> (\<exists>v. c = CUtf8 v)"
  "col_dtype c = Int64 \<longleftrightarrow> (\<exists>v. c = CI64 v)"
  by (cases c; simp)+

lemma eval_binary_total:
  assumes "binary_dtype op (col_dtype l) (col_dtype r) = Ok t" "len l = n" "len r = n"
  shows "\<exists>c. eval_binary op l r n = Ok c \<and> col_dtype c = t"
proof -
  note ops = is_arithmetic_def is_comparison_def is_logical_def is_string_def is_integer_op_def is_shift_def
  consider "is_arithmetic op" | "is_comparison op" | "is_logical op" | "is_string op" | "is_integer_op op"
    by (cases op) (auto simp: ops)
  then show ?thesis
  proof cases
    case 1
    then show ?thesis using assms eval_arithmetic_total by (auto simp: binary_dtype_def eval_binary_def)
  next
    case 2
    then have "comparison_dtype (col_dtype l) (col_dtype r) = Ok t" using assms(1)
      by (auto simp: binary_dtype_def ops)
    then show ?thesis using 2 assms eval_comparison_total[of l r t op] by (auto simp: eval_binary_def ops)
  next
    case 3
    then obtain a b where "l = CBool a" "r = CBool b" "t = Bool"
      using assms(1) by (auto simp: binary_dtype_def ops dtype_shapes split: if_splits)
    then show ?thesis using 3 assms by (auto simp: eval_binary_def ops eval_logical_def coerce_all_null_to_bool_def)
  next
    case 4
    then obtain a b where "l = CUtf8 a" "r = CUtf8 b" "t = Utf8"
      using assms(1) by (auto simp: binary_dtype_def ops dtype_shapes split: if_splits)
    then show ?thesis using 4 assms
      by (auto simp: eval_binary_def ops eval_string_def host_concat_option_strings_def)
  next
    case 5
    then have int: "is_int (col_dtype l)" "is_int (col_dtype r)"
      using assms(1) by (auto simp: binary_dtype_def ops split: if_splits)
    moreover have "t = integer_op_target op (col_dtype l) (col_dtype r)"
      using 5 int assms(1)
      by (auto simp: binary_dtype_def integer_op_target_def ops is_int_def unify_numeric_def is_numeric_def
          is_float_def split: if_splits)
    ultimately show ?thesis using 5 assms eval_integer_op_total[of l r op] by (auto simp: eval_binary_def ops)
  qed
qed

lemma map_eq_two: "map f xs = [a, b] \<longleftrightarrow> (\<exists>x y. xs = [x, y] \<and> f x = a \<and> f y = b)"
  and map_eq_three: "map f xs = [a, b, c] \<longleftrightarrow> (\<exists>x y z. xs = [x, y, z] \<and> f x = a \<and> f y = b \<and> f z = c)"
  and map_eq_one: "map f xs = [a] \<longleftrightarrow> (\<exists>x. xs = [x] \<and> f x = a)"
  by (auto simp: map_eq_Cons_conv)

lemma utf8_columns: "list_all (\<lambda>t. t = Utf8) (map col_dtype cols) \<Longrightarrow>
    \<exists>vs. mapR (\<lambda>r. bindR r utf8_of) (map Ok cols) = Ok vs"
  by (induction cols) (auto simp: dtype_shapes)

lemma eval_scalar_fn_total:
  assumes "scalar_fn_dtype kind (map col_dtype cols) = Ok t"
  shows "\<exists>c. eval_scalar_fn cfg kind (map Ok cols) n = Ok c \<and> col_dtype c = t"
  using assms utf8_columns[of cols]
  by (cases kind)
    (auto simp: fn_signature_def map_eq_one map_eq_two map_eq_three dtype_shapes scalar_fn_defs
      eval_utf8_arg_def eval_i64_arg_def arg_at_def split: if_splits)

lemma args_total:
  assumes "mapR (\<lambda>a. dtype_depth a s d) args = Ok ts"
    and "\<And>a t. a \<in> set args \<Longrightarrow> dtype_depth a s d = Ok t \<Longrightarrow> \<exists>c. ev a = Ok c \<and> col_dtype c = t"
  shows "\<exists>cols. map ev args = map Ok cols \<and> map col_dtype cols = ts"
  using assms
proof (induction args arbitrary: ts)
  case (Cons a args)
  then obtain t ts' where t: "dtype_depth a s d = Ok t" "mapR (\<lambda>a. dtype_depth a s d) args = Ok ts'"
    "ts = t # ts'" by auto
  moreover obtain c where "ev a = Ok c" "col_dtype c = t" using Cons.prems(2) t(1) by auto
  moreover obtain cols where "map ev args = map Ok cols" "map col_dtype cols = ts'"
    using Cons.IH[OF t(2)] Cons.prems(2) by auto
  ultimately show ?case by (intro exI[of _ "c # cols"]) simp
qed simp

lemma cast_supported_total:
  assumes "cast_is_supported (col_dtype c) t" "plain_type t"
  shows "\<exists>c'. cast_column c t = Ok c' \<and> col_dtype c' = t"
  using assms col_dtype_plain(2)[of c]
  by (cases c) (auto simp: cast_is_supported_def cast_pair_supported_def plain_type_def cast_column_def)

lemma safe_cast_supported_total:
  assumes "safe_cast_is_supported (col_dtype c) t" "plain_type t"
  shows "\<exists>c'. safe_cast_column c t = Ok c' \<and> col_dtype c' = t"
  using assms col_dtype_plain(2)[of c]
  by (cases c)
    (auto simp: safe_cast_is_supported_def cast_is_supported_def cast_pair_supported_def plain_type_def
      safe_cast_column_def split: if_splits)

lemma not_null_lit: "host_fragment s e \<Longrightarrow> \<not> is_null_lit e"
  by (auto simp: is_null_lit_def)

lemma host_eval_total:
  "host_fragment s e \<Longrightarrow> env_conforms env s n \<Longrightarrow> dtype_depth e s d = Ok t \<Longrightarrow>
    \<exists>c. eval_inner cfg env n e = Ok c \<and> col_dtype c = t"
proof (induction cfg env n e arbitrary: d t rule: eval_inner.induct)
  case (1 cfg env n nm)
  then obtain f where "field s nm = Ok f" "t = dtype f" by auto
  then show ?case using env_conformsD[of env s n nm f] 1 by (auto simp: eval_column_def)
next
  case (2 cfg env n l)
  then show ?case by (cases l) (auto simp: plain_type_def)
next
  case (4 cfg env n op l r)
  then obtain lt rt a b where "dtype_depth l s 0 = Ok lt" "dtype_depth r s 0 = Ok rt"
    "binary_dtype op lt rt = Ok t" "eval_inner cfg env n l = Ok a" "col_dtype a = lt"
    "eval_inner cfg env n r = Ok b" "col_dtype b = rt"
    by (auto simp: peer_typed_dtype_def not_null_lit) blast
  then show ?case using eval_binary_total[of op a b t n] eval_inner_len by fastforce
next
  case (5 cfg env n op e)
  then obtain et c where e: "dtype_depth e s (d + 1) = Ok et" "eval_inner cfg env n e = Ok c" "col_dtype c = et"
    "t = Bool" "op = UnaryOp.Not \<longrightarrow> et = Bool"
    by (auto simp: not_null_lit split: if_splits) blast+
  then show ?case using eval_inner_len[OF e(2)]
    by (cases "op = UnaryOp.Not") (auto simp: eval_unary_def dtype_shapes)
next
  case (7 cfg env n e pattern escape negated ci)
  then obtain c where c: "eval_inner cfg env n e = Ok c" "col_dtype c = Utf8" "t = Bool"
    by (auto split: if_splits)
  moreover obtain m where "compile_ci pattern escape ci = Ok m" using "7.prems"
    by (auto simp: is_ok_def split: sum.splits)
  ultimately show ?case using eval_inner_len[OF c(1)] by (auto simp: eval_like_def dtype_shapes)
next
  case (8 cfg env n e target safe)
  then obtain src c where "dtype_depth e s (d + 1) = Ok src" "eval_inner cfg env n e = Ok c" "col_dtype c = src"
    "t = target" "if safe then safe_cast_is_supported src target else cast_is_supported src target" "plain_type target"
    by (auto simp: not_null_lit split: if_splits) blast+
  then show ?case using cast_supported_total[of c target] safe_cast_supported_total[of c target]
    by (auto split: if_splits)
next
  case (10 cfg env n kind args)
  then obtain ts where ts: "mapR (\<lambda>a. dtype_depth a s (d + 1)) args = Ok ts" "scalar_fn_dtype kind ts = Ok t"
    by auto
  obtain cols where "map (eval_inner cfg env n) args = map Ok cols" "map col_dtype cols = ts"
    using args_total[OF ts(1), of "eval_inner cfg env n"] 10 by (auto simp: list_all_iff)
  then show ?case using eval_scalar_fn_total[of kind cols t cfg n] ts(2) by auto
qed (auto split: if_splits)


definition demo_schema :: Schema where
  "demo_schema = [Field_new ''a'' Int32 True, Field_new ''b'' Int64 False, Field_new ''p'' Bool True]"


section \<open>Where the contract ends\<close>




end
