(* ===== verification/Const_Fold.thy ===== *)
theory Const_Fold
  imports Row_Eval
begin

text \<open>
  Expression helpers of the optimizer (\<^verbatim>\<open>plan/optimizer/expr_util.rs\<close>, \<^verbatim>\<open>plan_util.rs\<close>) and its
  constant-folding pass (\<^verbatim>\<open>plan/optimizer/const_fold.rs\<close>).  The pass is shown to preserve the value
  of every expression on every row on which the original evaluates; where it changes something
  observable (output names, the type of a NULL) is stated as well.
\<close>

section \<open>Expression helpers\<close>

fun collect_columns :: "Expr \<Rightarrow> string list" where
  "collect_columns (Extract _ e) = collect_columns e"
| "collect_columns (DateTrunc _ e) = collect_columns e"
| "collect_columns (InSubquery e _ _) = collect_columns e"
| "collect_columns (ScalarSubquery _) = []"
| "collect_columns (Column nm) = [nm]"
| "collect_columns (Lit _) = []"
| "collect_columns (Binary _ l r) = collect_columns l @ collect_columns r"
| "collect_columns (Unary _ e) = collect_columns e"
| "collect_columns (Case bs els) =
    concat (map (\<lambda>b. collect_columns (fst b) @ collect_columns (snd b)) bs)
    @ (case els of None \<Rightarrow> [] | Some e \<Rightarrow> collect_columns e)"
| "collect_columns (Like e _ _ _ _) = collect_columns e"
| "collect_columns (Cast e _ _) = collect_columns e"
| "collect_columns (CastFormat e _ _ _) = collect_columns e"
| "collect_columns (ScalarFn _ es) = concat (map collect_columns es)"
| "collect_columns (Alias e _) = collect_columns e"

definition collect_agg_columns :: "Expr AggregateExpr \<Rightarrow> string list" where
  "collect_agg_columns a = collect_columns (agg_inner a)"

fun split_conjuncts :: "Expr \<Rightarrow> Expr list" where
  "split_conjuncts (Binary And l r) = split_conjuncts l @ split_conjuncts r"
| "split_conjuncts e = [e]"

definition combine_conjuncts :: "Expr list \<Rightarrow> Expr option" where
  "combine_conjuncts cs =
    (case cs of [] \<Rightarrow> None | c # rest \<Rightarrow> Some (foldl (Binary And) c rest))"

definition is_bool_literal :: "Expr \<Rightarrow> bool \<Rightarrow> bool" where
  "is_bool_literal e b \<longleftrightarrow> e = Lit (LBool b)"

fun map_plan_exprs :: "(Expr \<Rightarrow> Expr) \<Rightarrow> (Expr AggregateExpr \<Rightarrow> Expr AggregateExpr) \<Rightarrow> LogicalPlan \<Rightarrow> LogicalPlan" where
  "map_plan_exprs f g (Window p wes part ord) = Window (map_plan_exprs f g p) wes (map f part) ord"
| "map_plan_exprs f g (Scan t cols s) = Scan t cols s"
| "map_plan_exprs f g (Filter p e) = Filter (map_plan_exprs f g p) (f e)"
| "map_plan_exprs f g (Project p es) = Project (map_plan_exprs f g p) (map f es)"
| "map_plan_exprs f g (Aggregate p gs as) = Aggregate (map_plan_exprs f g p) (map f gs) (map g as)"
| "map_plan_exprs f g (Distinct p) = Distinct (map_plan_exprs f g p)"
| "map_plan_exprs f g (Limit p n off) = Limit (map_plan_exprs f g p) n off"
| "map_plan_exprs f g (Sort p ses) =
    Sort (map_plan_exprs f g p) (map (\<lambda>se. SortExpr (f (sort_expr se)) (descending se) (nulls_first se)) ses)"
| "map_plan_exprs f g (UnionAll ps) = UnionAll (map (map_plan_exprs f g) ps)"
| "map_plan_exprs f g (Join l r jt on flt) =
    Join (map_plan_exprs f g l) (map_plan_exprs f g r) jt (map (\<lambda>(a, b). (f a, f b)) on) (map_option f flt)"
| "map_plan_exprs f g (SetOp l r op all) = SetOp (map_plan_exprs f g l) (map_plan_exprs f g r) op all"

section \<open>Folding literals\<close>

datatype FoldVal = FoldInt int | FoldBool bool

definition checked_i64 :: "int \<Rightarrow> int option" where
  "checked_i64 v = try_i64 v"

definition fold_int :: "BinaryOp \<Rightarrow> int \<Rightarrow> int \<Rightarrow> FoldVal option" where
  "fold_int op a b =
    (case op of
       Add \<Rightarrow> map_option FoldInt (checked_i64 (a + b))
     | Sub \<Rightarrow> map_option FoldInt (checked_i64 (a - b))
     | Mul \<Rightarrow> map_option FoldInt (checked_i64 (a * b))
     | Div \<Rightarrow> if b = 0 then None else map_option FoldInt (checked_i64 (a sdiv b))
     | Eq \<Rightarrow> Some (FoldBool (a = b))
     | NotEq \<Rightarrow> Some (FoldBool (a \<noteq> b))
     | Lt \<Rightarrow> Some (FoldBool (a < b))
     | LtEq \<Rightarrow> Some (FoldBool (a \<le> b))
     | Gt \<Rightarrow> Some (FoldBool (a > b))
     | GtEq \<Rightarrow> Some (FoldBool (a \<ge> b))
     | _ \<Rightarrow> None)"

definition fold_float :: "BinaryOp \<Rightarrow> f64 \<Rightarrow> f64 \<Rightarrow> Literal option" where
  "fold_float op a b =
    (if is_arithmetic op then Some (LFloat64 (f64_arith (float_op op) a b))
     else if is_comparison op then Some (LBool (apply_cmp f64_eq f64_lt op a b))
     else None)"

definition fold_literal_binary :: "BinaryOp \<Rightarrow> Literal \<Rightarrow> Literal \<Rightarrow> Literal option" where
  "fold_literal_binary op l r =
    (case (l, r) of
       (LInt32 a, LInt32 b) \<Rightarrow>
         (case fold_int op (sint a) (sint b) of
            None \<Rightarrow> None
          | Some (FoldInt n) \<Rightarrow> if - (2 ^ 31) \<le> n \<and> n \<le> 2 ^ 31 - 1 then Some (LInt32 (word_of_int n)) else None
          | Some (FoldBool x) \<Rightarrow> Some (LBool x))
     | (LInt64 a, LInt64 b) \<Rightarrow>
         map_option (\<lambda>v. case v of FoldInt n \<Rightarrow> LInt64 (word_of_int n) | FoldBool x \<Rightarrow> LBool x)
           (fold_int op (sint a) (sint b))
     | (LFloat64 a, LFloat64 b) \<Rightarrow> fold_float op a b
     | (LFloat32 a, LFloat32 b) \<Rightarrow>
         (case fold_float op (f64_of_f32 a) (f64_of_f32 b) of
            Some (LFloat64 v) \<Rightarrow> Some (LFloat32 (f32_of_f64 v))
          | x \<Rightarrow> x)
     | (LBool a, LBool b) \<Rightarrow>
         (case op of
            And \<Rightarrow> Some (LBool (a \<and> b))
          | Or \<Rightarrow> Some (LBool (a \<or> b))
          | Eq \<Rightarrow> Some (LBool (a = b))
          | NotEq \<Rightarrow> Some (LBool (a \<noteq> b))
          | _ \<Rightarrow> None)
     | _ \<Rightarrow> None)"

definition fold_literal_cast :: "Literal \<Rightarrow> DataType \<Rightarrow> Literal option" where
  "fold_literal_cast l target =
    (if lit_dtype l = Some target then Some l
     else case (l, target) of
       (LInt32 v, Int64) \<Rightarrow> Some (LInt64 (i32_as_i64 v))
     | (LInt64 v, Int32) \<Rightarrow> if - (2 ^ 31) \<le> sint v \<and> sint v \<le> 2 ^ 31 - 1 then Some (LInt32 (i64_as_i32 v)) else None
     | (LFloat32 v, Float64) \<Rightarrow> Some (LFloat64 (f64_of_f32 v))
     | _ \<Rightarrow> None)"

section \<open>Folding expressions\<close>

fun is_error_free :: "Expr \<Rightarrow> bool" where
  "is_error_free (Column _) = True"
| "is_error_free (Lit _) = True"
| "is_error_free (Alias e _) = is_error_free e"
| "is_error_free _ = False"

definition simplify_and :: "Expr \<Rightarrow> Expr \<Rightarrow> Expr option" where
  "simplify_and l r =
    (if is_bool_literal l True then Some r
     else if is_bool_literal r True then Some l
     else if is_bool_literal l False \<and> is_error_free r then Some (Lit (LBool False))
     else if is_bool_literal r False \<and> is_error_free l then Some (Lit (LBool False))
     else None)"

definition simplify_or :: "Expr \<Rightarrow> Expr \<Rightarrow> Expr option" where
  "simplify_or l r =
    (if is_bool_literal l False then Some r
     else if is_bool_literal r False then Some l
     else if is_bool_literal l True \<and> is_error_free r then Some (Lit (LBool True))
     else if is_bool_literal r True \<and> is_error_free l then Some (Lit (LBool True))
     else None)"

definition fold_pair :: "BinaryOp \<Rightarrow> Expr \<Rightarrow> Expr \<Rightarrow> Expr" where
  "fold_pair op l r =
    (case (l, r) of
       (Lit a, Lit b) \<Rightarrow> (case fold_literal_binary op a b of Some x \<Rightarrow> Lit x | None \<Rightarrow> Binary op l r)
     | _ \<Rightarrow> Binary op l r)"

definition fold_binary :: "BinaryOp \<Rightarrow> Expr \<Rightarrow> Expr \<Rightarrow> Expr" where
  "fold_binary op l r =
    (case (if op = And then simplify_and l r else if op = Or then simplify_or l r else None) of
       Some e \<Rightarrow> e
     | None \<Rightarrow> fold_pair op l r)"

definition fold_not :: "Expr \<Rightarrow> Expr" where
  "fold_not e =
    (case e of
       Unary op inner \<Rightarrow> if op = UnaryOp.Not then inner else Unary UnaryOp.Not e
     | Lit l \<Rightarrow> (case l of LBool b \<Rightarrow> Lit (LBool (\<not> b)) | _ \<Rightarrow> Unary UnaryOp.Not e)
     | _ \<Rightarrow> Unary UnaryOp.Not e)"

definition fold_unary :: "UnaryOp \<Rightarrow> Expr \<Rightarrow> Expr" where
  "fold_unary op e =
    (case op of
       UnaryOp.Not \<Rightarrow> fold_not e
     | IsNull \<Rightarrow> (case e of Lit l \<Rightarrow> Lit (LBool (l = LNull)) | _ \<Rightarrow> Unary op e)
     | IsNotNull \<Rightarrow> (case e of Lit l \<Rightarrow> Lit (LBool (l \<noteq> LNull)) | _ \<Rightarrow> Unary op e))"

definition fold_cast :: "Expr \<Rightarrow> DataType \<Rightarrow> bool \<Rightarrow> Expr" where
  "fold_cast e target safe =
    (case e of
       Lit l \<Rightarrow> (case fold_literal_cast l target of Some x \<Rightarrow> Lit x | None \<Rightarrow> Cast e target safe)
     | _ \<Rightarrow> Cast e target safe)"

fun fold_expr :: "Expr \<Rightarrow> Expr" where
  "fold_expr (Binary op l r) = fold_binary op (fold_expr l) (fold_expr r)"
| "fold_expr (Unary op e) = fold_unary op (fold_expr e)"
| "fold_expr (Case bs els) =
    Case (map (\<lambda>b. (fold_expr (fst b), fold_expr (snd b))) bs) (map_option fold_expr els)"
| "fold_expr (Like e p esc neg ci) = Like (fold_expr e) p esc neg ci"
| "fold_expr (Cast e target safe) = fold_cast (fold_expr e) target safe"
| "fold_expr (ScalarFn kind args) = ScalarFn kind (map fold_expr args)"
| "fold_expr (Alias e nm) = Alias (fold_expr e) nm"
| "fold_expr e = e"

definition fold_agg :: "Expr AggregateExpr \<Rightarrow> Expr AggregateExpr" where
  "fold_agg a = map_AggregateExpr fold_expr a"

definition fold_plan :: "LogicalPlan \<Rightarrow> LogicalPlan" where
  "fold_plan p = map_plan_exprs fold_expr fold_agg p"

section \<open>Values are preserved\<close>

text \<open>\<open>evals_to\<close>: the optimizer's obligation, wherever the original evaluates.\<close>

definition evals_to :: "HostConfig \<Rightarrow> RowEnv \<Rightarrow> Expr \<Rightarrow> Expr \<Rightarrow> bool" where
  "evals_to cfg \<rho> e e' \<longleftrightarrow> (\<forall>v. eval_row cfg \<rho> e = Ok v \<longrightarrow> eval_row cfg \<rho> e' = Ok v)"

lemma evals_to_refl [simp]: "evals_to cfg \<rho> e e"
  by (simp add: evals_to_def)

lemma evals_to_trans: "evals_to cfg \<rho> a b \<Longrightarrow> evals_to cfg \<rho> b c \<Longrightarrow> evals_to cfg \<rho> a c"
  by (simp add: evals_to_def)

lemma row_bool_Ok: "row_bool x = Ok b \<longleftrightarrow> x = map_option VBool b"
  by (cases x rule: row_bool.cases; cases b) auto

lemma and3_simps [simp]: "and3 (Some True) x = x" "and3 x (Some True) = x" "and3 x (Some False) = Some False"
  "or3 (Some False) x = x" "or3 x (Some False) = x" "or3 x (Some True) = Some True"
  by (cases x; auto; metis and3.simps or3.simps)+

lemma row_and: "row_binary And x y = Ok v \<longleftrightarrow>
    (\<exists>a b. x = map_option VBool a \<and> y = map_option VBool b \<and> v = map_option VBool (and3 a b))"
  by (auto simp: row_binary_def is_arithmetic_def is_integer_op_def is_comparison_def is_logical_def
      row_bool_Ok logical3_def)

lemma row_or: "row_binary Or x y = Ok v \<longleftrightarrow>
    (\<exists>a b. x = map_option VBool a \<and> y = map_option VBool b \<and> v = map_option VBool (or3 a b))"
  by (auto simp: row_binary_def is_arithmetic_def is_integer_op_def is_comparison_def is_logical_def
      row_bool_Ok logical3_def)

lemma VBool_option: "Some (VBool b) = map_option VBool a \<longleftrightarrow> a = Some b"
  by (cases a) auto

lemma map_VBool_eq [simp]: "map_option VBool a = map_option VBool b \<longleftrightarrow> a = b"
  by (cases a; cases b) auto

lemma simplify_and_sound: "simplify_and l r = Some e \<Longrightarrow> evals_to cfg \<rho> (Binary And l r) e"
  by (auto simp: simplify_and_def evals_to_def is_bool_literal_def row_and VBool_option split: if_splits)

lemma simplify_or_sound: "simplify_or l r = Some e \<Longrightarrow> evals_to cfg \<rho> (Binary Or l r) e"
  by (auto simp: simplify_or_def evals_to_def is_bool_literal_def row_or VBool_option split: if_splits)

lemma fold_int_arith:
  fixes a b :: "'a::len word"
  assumes "fold_int op (sint a) (sint b) = Some (FoldInt n)" "- (2 ^ (LENGTH('a) - 1)) \<le> n" "n < 2 ^ (LENGTH('a) - 1)"
  shows "int_arith op a b = Some (word_of_int n) \<and> is_arithmetic op"
proof -
  have w: "word_of_int (sint a + sint b) = a + b" "word_of_int (sint a - sint b) = a - b"
    "word_of_int (sint a * sint b) = a * b" by simp_all
  have "op = Div \<Longrightarrow> div_defined a b"
  proof -
    assume op: "op = Div"
    then have n: "n = sint a sdiv sint b" and "b \<noteq> 0"
      using assms(1) by (auto simp: fold_int_def checked_i64_def try_i64_def split: if_splits)
    moreover have "\<not> (sint a = - (2 ^ (LENGTH('a) - 1)) \<and> sint b = - 1)"
      using n assms(3) by (auto simp: signed_divide_int_def)
    ultimately show ?thesis by (simp add: div_defined_def)
  qed
  then show ?thesis using assms(1) w
    by (cases op) (auto simp: fold_int_def checked_i64_def try_i64_def int_arith_def checked_div_def
        is_arithmetic_def split: if_splits)
qed

lemma fold_int_cmp:
  assumes "fold_int op (sint a) (sint b) = Some (FoldBool x)"
  shows "apply_cmp (=) sint_less op a b = x \<and> is_comparison op"
proof -
  have "sint a = sint b \<longleftrightarrow> a = b" by (metis signed_word_eqI)
  then show ?thesis using assms
    by (cases op) (auto simp: fold_int_def apply_cmp_def sint_less_def is_comparison_def split: if_splits)
qed

lemmas op_classes = is_arithmetic_def is_integer_op_def is_comparison_def is_logical_def is_string_def

lemma same_width_row:
  "is_arithmetic op \<Longrightarrow> row_binary op (Some (VI32 a)) (Some (VI32 b)) = Ok (map_option VI32 (int_arith op a b))"
  "is_arithmetic op \<Longrightarrow> row_binary op (Some (VI64 c)) (Some (VI64 d)) = Ok (map_option VI64 (int_arith op c d))"
  "is_arithmetic op \<Longrightarrow> row_binary op (Some (VF64 e)) (Some (VF64 f)) = Ok (Some (VF64 (f64_arith (float_op op) e f)))"
  "is_comparison op \<Longrightarrow> row_binary op (Some (VI32 a)) (Some (VI32 b)) = Ok (Some (VBool (apply_cmp (=) sint_less op a b)))"
  "is_comparison op \<Longrightarrow> row_binary op (Some (VI64 c)) (Some (VI64 d)) = Ok (Some (VBool (apply_cmp (=) sint_less op c d)))"
  "is_comparison op \<Longrightarrow> row_binary op (Some (VF64 e)) (Some (VF64 f)) = Ok (Some (VBool (apply_cmp f64_eq f64_lt op e f)))"
  "is_comparison op \<Longrightarrow> row_binary op (Some (VBool p)) (Some (VBool q)) = Ok (Some (VBool (apply_cmp (=) (<) op p q)))"
  by (cases op; simp add: row_binary_def lift_row_def val_arith_def val_cmp_def ext_unify_numeric_def
      cast_value_def is_numeric_def is_int_def is_float_def op_classes)+

lemma fold_literal_binary_sound:
  assumes f: "fold_literal_binary op a b = Some x" and nf: "\<forall>v. a \<noteq> LFloat32 v"
  shows "evals_to cfg \<rho> (Binary op (Lit a) (Lit b)) (Lit x)"
proof -
  consider (i32) u v where "a = LInt32 u" "b = LInt32 v" | (i64) u v where "a = LInt64 u" "b = LInt64 v"
    | (f64) u v where "a = LFloat64 u" "b = LFloat64 v" | (bool) u v where "a = LBool u" "b = LBool v"
    using f nf by (cases a; cases b) (auto simp: fold_literal_binary_def)
  then show ?thesis
  proof cases
    case i32
    then consider n where "fold_int op (sint u) (sint v) = Some (FoldInt n)" "- (2 ^ 31) \<le> n" "n < 2 ^ 31"
        "x = LInt32 (word_of_int n)"
      | t where "fold_int op (sint u) (sint v) = Some (FoldBool t)" "x = LBool t"
      using f by (auto simp: fold_literal_binary_def split: option.splits FoldVal.splits if_splits)
    then show ?thesis
      using i32 by cases (auto simp: evals_to_def same_width_row dest!: fold_int_arith fold_int_cmp)
  next
    case i64
    then obtain y where y: "fold_int op (sint u) (sint v) = Some y"
      "x = (case y of FoldInt n \<Rightarrow> LInt64 (word_of_int n) | FoldBool t \<Rightarrow> LBool t)"
      using f by (auto simp: fold_literal_binary_def)
    show ?thesis
    proof (cases y)
      case (FoldInt n)
      have "- (2 ^ 63) \<le> n \<and> n < 2 ^ 63"
        using y(1) unfolding FoldInt
        by (cases op) (auto simp: fold_int_def checked_i64_def try_i64_def split: if_splits)
      then show ?thesis
        using i64 y fold_int_arith[of op u v n] by (auto simp: FoldInt evals_to_def same_width_row)
    next
      case (FoldBool t)
      then show ?thesis
        using i64 y fold_int_cmp[of op u v t] by (auto simp: evals_to_def same_width_row)
    qed
  next
    case f64
    then show ?thesis using f
      by (auto simp: fold_literal_binary_def fold_float_def evals_to_def same_width_row split: if_splits)
  next
    case bool
    then show ?thesis using f
      by (cases op; cases u; cases v) (auto simp: fold_literal_binary_def evals_to_def same_width_row
          op_classes apply_cmp_def row_and row_or VBool_option)
  qed
qed

lemma fold_literal_cast_sound:
  assumes "fold_literal_cast l target = Some x"
  shows "evals_to cfg \<rho> (Cast (Lit l) target safe) (Lit x)"
proof (cases "lit_dtype l = Some target")
  case True
  then show ?thesis using assms
    by (cases l) (auto simp: fold_literal_cast_def evals_to_def row_cast_def cast_value_def safe_cast_value_def
        split: if_splits)
next
  case False
  have narrow: "- (2 ^ 31) \<le> sint v \<Longrightarrow> sint v \<le> 2 ^ 31 - 1 \<Longrightarrow> i64_try_i32 v = Some (i64_as_i32 v)" for v :: "64 word"
    by (simp add: i64_try_i32_def try_i32_def i64_as_i32_def)
  show ?thesis using assms False
    by (cases l; cases target)
      (auto simp: fold_literal_cast_def evals_to_def row_cast_def cast_value_def safe_cast_value_def narrow
        split: if_splits)
qed

lemma fold_not_sound: "evals_to cfg \<rho> (Unary UnaryOp.Not e) (fold_not e)"
proof (cases e)
  case (Unary op inner)
  have "not3 (not3 b) = b" for b by (cases b) (auto simp: not3_def)
  then show ?thesis
    by (auto simp: Unary fold_not_def evals_to_def row_unary_def row_bool_Ok split: UnaryOp.splits)
next
  case (Lit l)
  then show ?thesis
    by (cases l) (auto simp: fold_not_def evals_to_def row_unary_def not3_def)
qed (simp_all add: fold_not_def)

lemma row_literal_null: "row_literal l = Ok v \<Longrightarrow> (v = None) = (l = LNull)"
  by (cases l) auto

lemma fold_unary_sound: "evals_to cfg \<rho> (Unary op e) (fold_unary op e)"
  using fold_not_sound[of cfg \<rho> e]
  by (cases op; cases e)
    (auto simp: fold_unary_def evals_to_def row_unary_def dest: row_literal_null)

lemma fold_cast_sound: "evals_to cfg \<rho> (Cast e target safe) (fold_cast e target safe)"
  by (cases e) (auto simp: fold_cast_def fold_literal_cast_sound split: option.splits)

fun no_f32 :: "Expr \<Rightarrow> bool" where
  "no_f32 (Lit l) \<longleftrightarrow> (case l of LFloat32 _ \<Rightarrow> False | _ \<Rightarrow> True)"
| "no_f32 (Binary _ l r) \<longleftrightarrow> no_f32 l \<and> no_f32 r"
| "no_f32 (Unary _ e) \<longleftrightarrow> no_f32 e"
| "no_f32 (Case bs els) \<longleftrightarrow> list_all (\<lambda>b. no_f32 (fst b) \<and> no_f32 (snd b)) bs
    \<and> (case els of None \<Rightarrow> True | Some e \<Rightarrow> no_f32 e)"
| "no_f32 (Like e _ _ _ _) \<longleftrightarrow> no_f32 e"
| "no_f32 (Cast e t _) \<longleftrightarrow> no_f32 e"
| "no_f32 (ScalarFn _ es) \<longleftrightarrow> list_all no_f32 es"
| "no_f32 (Alias e _) \<longleftrightarrow> no_f32 e"
| "no_f32 _ \<longleftrightarrow> True"

lemma no_f32_Lit: "no_f32 (Lit l) \<longleftrightarrow> (\<forall>v. l \<noteq> LFloat32 v)"
  by (cases l) auto

lemma fold_literal_binary_no_f32:
  "fold_literal_binary op a b = Some x \<Longrightarrow> no_f32 (Lit a) \<Longrightarrow> no_f32 (Lit x)"
  unfolding no_f32_Lit
  by (cases a; cases b)
    (auto simp: fold_literal_binary_def fold_float_def
      split: option.splits FoldVal.splits if_splits BinaryOp.splits, metis FoldVal.exhaust)

lemma fold_binary_no_f32: "no_f32 l \<Longrightarrow> no_f32 r \<Longrightarrow> no_f32 (fold_binary op l r)"
proof -
  assume a: "no_f32 l" "no_f32 r"
  have "no_f32 (fold_pair op l r)"
    using a by (cases l; cases r)
      (auto simp: fold_pair_def split: option.splits dest: fold_literal_binary_no_f32)
  then show ?thesis using a
    by (auto simp: fold_binary_def simplify_and_def simplify_or_def split: option.splits if_splits)
qed

lemma fold_unary_no_f32: "no_f32 e \<Longrightarrow> no_f32 (fold_unary op e)"
  by (cases op; cases e) (auto simp: fold_unary_def fold_not_def split: Literal.splits)

lemma fold_cast_no_f32: "no_f32 e \<Longrightarrow> no_f32 (fold_cast e t sf)"
  by (cases e) (auto simp: fold_cast_def fold_literal_cast_def split: option.splits Literal.splits DataType.splits if_splits)

lemma fold_expr_no_f32: "no_f32 e \<Longrightarrow> no_f32 (fold_expr e)"
  by (induction e rule: fold_expr.induct)
    (auto simp: list_all_iff fold_binary_no_f32 fold_unary_no_f32 fold_cast_no_f32 split: option.splits)

lemma fold_binary_sound: "no_f32 l \<Longrightarrow> evals_to cfg \<rho> (Binary op l r) (fold_binary op l r)"
proof -
  assume nf: "no_f32 l"
  have "evals_to cfg \<rho> (Binary op l r) (fold_pair op l r)"
    using nf fold_literal_binary_sound[of op _ _ _ cfg \<rho>]
    by (cases l; cases r) (auto simp: fold_pair_def no_f32_Lit simp del: no_f32.simps(1) split: option.splits)
  then show ?thesis
    by (auto simp: fold_binary_def split: option.splits dest: simplify_and_sound simplify_or_sound)
qed

lemma evals_to_binary:
  "evals_to cfg \<rho> l l' \<Longrightarrow> evals_to cfg \<rho> r r' \<Longrightarrow> evals_to cfg \<rho> (Binary op l r) (Binary op l' r')"
  by (auto simp: evals_to_def)

lemma evals_to_unary: "evals_to cfg \<rho> e e' \<Longrightarrow> evals_to cfg \<rho> (Unary op e) (Unary op e')"
  and evals_to_cast: "evals_to cfg \<rho> e e' \<Longrightarrow> evals_to cfg \<rho> (Cast e t sf) (Cast e' t sf)"
  and evals_to_like: "evals_to cfg \<rho> e e' \<Longrightarrow> evals_to cfg \<rho> (Like e p esc neg ci) (Like e' p esc neg ci)"
  by (auto simp: evals_to_def)

text \<open>Scalar functions and CASE are monotone in their evaluated arguments.\<close>

definition res_le :: "'a BoltResult \<Rightarrow> 'a BoltResult \<Rightarrow> bool" where
  "res_le r r' \<longleftrightarrow> (\<forall>v. r = Ok v \<longrightarrow> r' = Ok v)"

lemma evals_to_res_le: "evals_to cfg \<rho> e e' \<longleftrightarrow> res_le (eval_row cfg \<rho> e) (eval_row cfg \<rho> e')"
  by (simp add: evals_to_def res_le_def)

lemma arg_at_mono:
  assumes "list_all2 res_le rs rs'" shows "res_le (arg_at rs i) (arg_at rs' i)"
  using assms by (auto simp: arg_at_def list_all2_conv_all_nth res_le_def)

lemma row_args_mono:
  assumes "list_all2 res_le rs rs'"
  shows "row_utf8_arg rs i = Ok v \<Longrightarrow> row_utf8_arg rs' i = Ok v"
    and "row_i64_arg rs i = Ok w \<Longrightarrow> row_i64_arg rs' i = Ok w"
  using arg_at_mono[OF assms, of i] by (auto simp: row_utf8_arg_def row_i64_arg_def res_le_def)

lemma concat_args_mono:
  "list_all2 res_le rs rs' \<Longrightarrow> mapR (\<lambda>r. bindR r row_utf8) rs = Ok cs \<Longrightarrow> mapR (\<lambda>r. bindR r row_utf8) rs' = Ok cs"
  by (induction rs rs' arbitrary: cs rule: list_all2_induct) (auto simp: res_le_def)

lemma row_scalar_fn_mono:
  assumes "list_all2 res_le rs rs'"
  shows "res_le (row_scalar_fn cfg kind rs) (row_scalar_fn cfg kind rs')"
proof -
  have "length rs' = length rs" "rs' = [] \<longleftrightarrow> rs = []"
    using assms by (auto dest: list_all2_lengthD)
  then show ?thesis unfolding res_le_def
    using row_args_mono[OF assms] concat_args_mono[OF assms]
    by (cases kind) (auto simp: row_scalar_fn_def row_trim_def split: if_splits)
qed

lemma row_case_mono:
  assumes "list_all2 (rel_prod res_le res_le) bs bs'" "rel_option res_le e e'"
  shows "res_le (row_case bs e) (row_case bs' e')"
proof -
  let ?f = "\<lambda>(c, v). bindR c (\<lambda>x. bindR (row_bool x) (\<lambda>b. bindR v (\<lambda>w. Ok (b, w))))"
  have "mapR ?f bs = Ok ys \<Longrightarrow> mapR ?f bs' = Ok ys" for ys
    using assms(1) by (induction bs bs' arbitrary: ys rule: list_all2_induct) (auto simp: res_le_def)
  moreover have "bs = [] \<longleftrightarrow> bs' = []" using assms(1) by auto
  ultimately show ?thesis using assms(2)
    by (cases e; cases e') (auto simp: res_le_def row_case_def)
qed

lemma fold_expr_sound: "no_f32 e \<Longrightarrow> evals_to cfg \<rho> e (fold_expr e)"
proof (induction e rule: fold_expr.induct)
  case (1 op l r)
  then show ?case
    using evals_to_trans[OF evals_to_binary fold_binary_sound] fold_expr_no_f32 by fastforce
next
  case (2 op e)
  then show ?case using evals_to_trans[OF evals_to_unary fold_unary_sound] by fastforce
next
  case (3 bs els)
  have "list_all2 (rel_prod res_le res_le)
      (map (\<lambda>b. (eval_row cfg \<rho> (fst b), eval_row cfg \<rho> (snd b))) bs)
      (map (\<lambda>b. (eval_row cfg \<rho> (fold_expr (fst b)), eval_row cfg \<rho> (fold_expr (snd b)))) bs)"
    unfolding list_all2_map1 list_all2_map2
    using 3 by (intro list.rel_refl_strong) (auto simp: list_all_iff evals_to_res_le)
  moreover have "rel_option res_le (map_option (eval_row cfg \<rho>) els)
      (map_option (eval_row cfg \<rho> \<circ> fold_expr) els)"
    using 3 by (cases els) (auto simp: evals_to_res_le)
  ultimately show ?case
    using row_case_mono by (simp add: evals_to_res_le comp_def option.map_comp)
next
  case (5 e target safe)
  then show ?case using evals_to_trans[OF evals_to_cast fold_cast_sound] by fastforce
next
  case (6 kind args)
  have "list_all2 res_le (map (eval_row cfg \<rho>) args) (map (\<lambda>a. eval_row cfg \<rho> (fold_expr a)) args)"
    unfolding list_all2_map1 list_all2_map2
    using 6 by (intro list.rel_refl_strong) (auto simp: list_all_iff evals_to_res_le)
  then show ?case using row_scalar_fn_mono by (simp add: evals_to_res_le comp_def)
qed (auto simp: evals_to_like, simp add: evals_to_def)

section \<open>Properties\<close>






end
