(* ===== verification/Null_Semantics.thy ===== *)
theory Null_Semantics
  imports Const_Fold
begin

text \<open>
  SQL NULL semantics for the fused kernels (\<^verbatim>\<open>plan/null_semantics.rs\<close>) and its use when a
  scan kernel is built (\<^verbatim>\<open>plan/physical_plan.rs\<close>, \<open>build_kernel\<close>).  A kernel computes values only: a
  NULL cell holds an arbitrary value, and validity is read by IS [NOT] NULL on a bare column.  The
  module rewrites predicates and outputs into expressions whose two-valued kernel evaluation agrees
  with SQL's three-valued one; \<open>keval\<close> is that kernel evaluation.
\<close>

section \<open>Smart constructors\<close>

definition lit_bool :: "bool \<Rightarrow> Expr" where
  "lit_bool b = Lit (LBool b)"

definition and_expr :: "Expr \<Rightarrow> Expr \<Rightarrow> Expr" where
  "and_expr a b =
    (if a = lit_bool True then b
     else if b = lit_bool True then a
     else if a = lit_bool False \<or> b = lit_bool False then lit_bool False
     else Binary And a b)"

definition or_expr :: "Expr \<Rightarrow> Expr \<Rightarrow> Expr" where
  "or_expr a b =
    (if a = lit_bool False then b
     else if b = lit_bool False then a
     else if a = lit_bool True \<or> b = lit_bool True then lit_bool True
     else Binary Or a b)"

definition not_expr :: "Expr \<Rightarrow> Expr" where
  "not_expr a =
    (if a = lit_bool True then lit_bool False
     else if a = lit_bool False then lit_bool True
     else Unary UnaryOp.Not a)"

fun and_opt :: "Expr option \<Rightarrow> Expr option \<Rightarrow> Expr option" where
  "and_opt None x = x"
| "and_opt x None = x"
| "and_opt (Some a) (Some b) = Some (and_expr a b)"

section \<open>The rewriting\<close>

definition col_nullable :: "Schema \<Rightarrow> string \<Rightarrow> bool" where
  "col_nullable s c \<longleftrightarrow>
    \<not> starts_with c ''__idx_'' \<and> \<not> starts_with c ''__rank_''
    \<and> (case field s c of Inr f \<Rightarrow> nullable f | Inl _ \<Rightarrow> False)"

fun touches_nulls :: "Schema \<Rightarrow> Expr \<Rightarrow> bool" where
  "touches_nulls s (Column c) = col_nullable s c"
| "touches_nulls s (Lit l) = (l = LNull)"
| "touches_nulls s (Alias x _) = touches_nulls s x"
| "touches_nulls s (Binary _ l r) = (touches_nulls s l \<or> touches_nulls s r)"
| "touches_nulls s (Unary _ x) = touches_nulls s x"
| "touches_nulls s (Cast x _ _) = touches_nulls s x"
| "touches_nulls s (Case bs els) =
    (list_ex (\<lambda>b. touches_nulls s (fst b) \<or> touches_nulls s (snd b)) bs
     \<or> (case els of Some x \<Rightarrow> touches_nulls s x | None \<Rightarrow> True))"
| "touches_nulls s _ = True"

fun strip_alias :: "Expr \<Rightarrow> Expr" where
  "strip_alias (Alias x _) = strip_alias x"
| "strip_alias x = x"

definition is_null_literal :: "Expr \<Rightarrow> bool" where
  "is_null_literal e \<longleftrightarrow> e = Lit LNull"

definition case_filler :: "(Expr \<times> Expr) list \<Rightarrow> Expr option \<Rightarrow> Expr option" where
  "case_filler bs els = find (\<lambda>t. \<not> is_null_literal t) (map snd bs @ (case els of None \<Rightarrow> [] | Some x \<Rightarrow> [x]))"

lemma case_filler_cases:
  "case_filler bs els = Some t \<Longrightarrow> (\<exists>b \<in> set bs. t = snd b) \<or> els = Some t"
  by (auto simp: case_filler_def find_Some_iff nth_append split: option.splits if_splits)

definition or_true :: "Expr option \<Rightarrow> Expr" where
  "or_true k = (case k of None \<Rightarrow> lit_bool True | Some k \<Rightarrow> k)"

fun kleene :: "Expr \<Rightarrow> bool" where
  "kleene (Binary op _ _) = (op = And \<or> op = Or)"
| "kleene (Unary op _) = (op = UnaryOp.Not)"
| "kleene _ = False"

definition rewrite_rank :: "nat \<Rightarrow> Expr \<Rightarrow> nat" where
  "rewrite_rank i e = 4 * size e + (if i = 0 then (if kleene e then 1 else 2) else (if kleene e then 2 else 1))"

lemma rewrite_rank_less: "size x < size e \<Longrightarrow> rewrite_rank i x < rewrite_rank j e"
  by (auto simp: rewrite_rank_def)

lemma rewrite_rank_same:
  "\<not> kleene e \<Longrightarrow> rewrite_rank 1 e < rewrite_rank 0 e" "kleene e \<Longrightarrow> rewrite_rank 0 e < rewrite_rank 1 e"
  by (auto simp: rewrite_rank_def)

function (sequential) is_true :: "Schema \<Rightarrow> Expr \<Rightarrow> Expr BoltResult"
  and is_false :: "Schema \<Rightarrow> Expr \<Rightarrow> Expr BoltResult"
  and null_test :: "Schema \<Rightarrow> UnaryOp \<Rightarrow> Expr \<Rightarrow> Expr BoltResult"
  and known :: "Schema \<Rightarrow> Expr \<Rightarrow> Expr option BoltResult"
  and val_expr :: "Schema \<Rightarrow> Expr \<Rightarrow> Expr BoltResult" where
  "is_true s e =
    (if \<not> touches_nulls s e then Ok e
     else case e of
       Alias x _ \<Rightarrow> is_true s x
     | Lit (LBool b) \<Rightarrow> Ok (lit_bool b)
     | Lit LNull \<Rightarrow> Ok (lit_bool False)
     | Binary And l r \<Rightarrow> bindR (is_true s l) (\<lambda>a. bindR (is_true s r) (\<lambda>b. Ok (and_expr a b)))
     | Binary Or l r \<Rightarrow> bindR (is_true s l) (\<lambda>a. bindR (is_true s r) (\<lambda>b. Ok (or_expr a b)))
     | Unary UnaryOp.Not x \<Rightarrow> is_false s x
     | Unary op x \<Rightarrow> null_test s op x
     | Case bs els \<Rightarrow>
         bindR (mapR (\<lambda>b. bindR (is_true s (fst b)) (\<lambda>w. bindR (is_true s (snd b)) (\<lambda>t. Ok (w, t)))) bs) (\<lambda>bs'.
         bindR (case els of Some x \<Rightarrow> is_true s x | None \<Rightarrow> Ok (lit_bool False)) (\<lambda>x'.
         Ok (Case bs' (Some x'))))
     | _ \<Rightarrow> bindR (known s e) (\<lambda>k. bindR (val_expr s e) (\<lambda>v.
              Ok (case k of None \<Rightarrow> v | Some k \<Rightarrow> and_expr k v))))"
| "is_false s e =
    (if \<not> touches_nulls s e then Ok (not_expr e)
     else case e of
       Alias x _ \<Rightarrow> is_false s x
     | Lit (LBool b) \<Rightarrow> Ok (lit_bool (\<not> b))
     | Lit LNull \<Rightarrow> Ok (lit_bool False)
     | Binary And l r \<Rightarrow> bindR (is_false s l) (\<lambda>a. bindR (is_false s r) (\<lambda>b. Ok (or_expr a b)))
     | Binary Or l r \<Rightarrow> bindR (is_false s l) (\<lambda>a. bindR (is_false s r) (\<lambda>b. Ok (and_expr a b)))
     | Unary UnaryOp.Not x \<Rightarrow> is_true s x
     | Unary op x \<Rightarrow> bindR (null_test s op x) (\<lambda>t. Ok (not_expr t))
     | Case bs els \<Rightarrow>
         bindR (mapR (\<lambda>b. bindR (is_true s (fst b)) (\<lambda>w. bindR (is_false s (snd b)) (\<lambda>t. Ok (w, t)))) bs) (\<lambda>bs'.
         bindR (case els of Some x \<Rightarrow> is_false s x | None \<Rightarrow> Ok (lit_bool False)) (\<lambda>x'.
         Ok (Case bs' (Some x'))))
     | _ \<Rightarrow> bindR (known s e) (\<lambda>k. bindR (val_expr s e) (\<lambda>v.
              Ok (case k of None \<Rightarrow> not_expr v | Some k \<Rightarrow> and_expr k (not_expr v)))))"
| "null_test s op x =
    (case strip_alias x of
       Column c \<Rightarrow> Ok (Unary op (Column c))
     | _ \<Rightarrow> bindR (known s x) (\<lambda>k.
            Ok (case k of
                  None \<Rightarrow> lit_bool (op \<noteq> IsNull)
                | Some k \<Rightarrow> if op = IsNull then not_expr k else k)))"
| "known s e =
    (if \<not> touches_nulls s e then Ok None
     else case e of
       Column c \<Rightarrow> Ok (Some (Unary IsNotNull (Column c)))
     | Lit LNull \<Rightarrow> Ok (Some (lit_bool False))
     | Lit _ \<Rightarrow> Ok None
     | Alias x _ \<Rightarrow> known s x
     | Binary op l r \<Rightarrow>
         if op = And \<or> op = Or
         then bindR (is_true s e) (\<lambda>t. bindR (is_false s e) (\<lambda>f. Ok (Some (or_expr t f))))
         else bindR (known s l) (\<lambda>a. bindR (known s r) (\<lambda>b. Ok (and_opt a b)))
     | Unary UnaryOp.Not _ \<Rightarrow> bindR (is_true s e) (\<lambda>t. bindR (is_false s e) (\<lambda>f. Ok (Some (or_expr t f))))
     | Unary _ _ \<Rightarrow> Ok None
     | Cast x _ False \<Rightarrow> known s x
     | Case bs els \<Rightarrow>
         bindR (mapR (\<lambda>b. bindR (is_true s (fst b)) (\<lambda>w.
            bindR (bindR (known s (snd b)) (\<lambda>k. Ok (or_true k))) (\<lambda>t. Ok (w, t)))) bs) (\<lambda>bs'.
         bindR (case els of Some x \<Rightarrow> bindR (known s x) (\<lambda>k. Ok (or_true k))
                          | None \<Rightarrow> Ok (lit_bool False)) (\<lambda>x'.
         Ok (Some (Case bs' (Some x')))))
     | _ \<Rightarrow> Err PlanErr)"
| "val_expr s e =
    (if \<not> touches_nulls s e then Ok e
     else case e of
       Column _ \<Rightarrow> Ok e
     | Lit _ \<Rightarrow> Ok e
     | Alias x n \<Rightarrow> bindR (val_expr s x) (\<lambda>v. Ok (Alias v n))
     | Binary op l r \<Rightarrow> bindR (val_expr s l) (\<lambda>a. bindR (val_expr s r) (\<lambda>b. Ok (Binary op a b)))
     | Unary UnaryOp.Not x \<Rightarrow> bindR (val_expr s x) (\<lambda>v. Ok (not_expr v))
     | Unary op x \<Rightarrow> null_test s op x
     | Cast x t False \<Rightarrow> bindR (val_expr s x) (\<lambda>v. Ok (Cast v t False))
     | Case bs els \<Rightarrow>
         (case case_filler bs els of
            None \<Rightarrow> Err PlanErr
          | Some t0 \<Rightarrow>
              bindR (val_expr s t0) (\<lambda>filler.
              bindR (mapR (\<lambda>b. bindR (is_true s (fst b)) (\<lambda>w.
                       bindR (if is_null_literal (snd b) then Ok filler else val_expr s (snd b)) (\<lambda>t. Ok (w, t)))) bs) (\<lambda>bs'.
              bindR (case els of Some x \<Rightarrow> if is_null_literal x then Ok filler else val_expr s x
                               | None \<Rightarrow> Ok filler) (\<lambda>x'.
              Ok (Case bs' (Some x'))))))
     | _ \<Rightarrow> Err PlanErr)"
  by pat_completeness auto

termination
  apply (relation "measure (\<lambda>x. case x of
      Inl (Inl (s, e)) \<Rightarrow> rewrite_rank 0 e
    | Inl (Inr (s, e)) \<Rightarrow> rewrite_rank 0 e
    | Inr (Inl (s, op, e)) \<Rightarrow> rewrite_rank 1 e + 1
    | Inr (Inr (Inl (s, e))) \<Rightarrow> rewrite_rank 1 e
    | Inr (Inr (Inr (s, e))) \<Rightarrow> rewrite_rank 1 e)")
  apply (auto simp: rewrite_rank_def termination_simp dest!: case_filler_cases)
  done

declare is_true.simps [simp del] is_false.simps [simp del] null_test.simps [simp del]
  known.simps [simp del] val_expr.simps [simp del]

fun is_strict :: "Schema \<Rightarrow> Expr \<Rightarrow> bool" where
  "is_strict s (Column _) = True"
| "is_strict s (Lit l) = (l \<noteq> LNull)"
| "is_strict s (Alias x _) = (\<not> touches_nulls s x \<or> is_strict s x)"
| "is_strict s (Binary op l r) =
    (\<not> touches_nulls s (Binary op l r) \<or> op \<noteq> And \<and> op \<noteq> Or \<and> is_strict s l \<and> is_strict s r)"
| "is_strict s (Cast x _ safe) = (\<not> touches_nulls s x \<or> \<not> safe \<and> is_strict s x)"
| "is_strict s (Unary op x) = (\<not> touches_nulls s x \<or> op = UnaryOp.Not \<and> is_strict s x)"
| "is_strict s e = (\<not> touches_nulls s e)"

section \<open>Kernel evaluation\<close>

text \<open>A kernel row gives each column a value and a validity bit.  An operation without a defined
  result (an ill-typed register, a NULL literal) leaves an arbitrary value \<open>j\<close>.\<close>

type_synonym KernelRow = "string \<Rightarrow> Value \<times> bool"

definition kbool :: "Value \<Rightarrow> bool" where
  "kbool v \<longleftrightarrow> v = VBool True"

definition kresult :: "Value \<Rightarrow> Value option BoltResult \<Rightarrow> Value" where
  "kresult j r = (case r of Inr (Some v) \<Rightarrow> v | _ \<Rightarrow> j)"

fun kcase :: "(Value \<times> Value) list \<Rightarrow> Value \<Rightarrow> Value" where
  "kcase [] els = els"
| "kcase ((c, v) # bs) els = (if kbool c then v else kcase bs els)"

fun keval :: "Value \<Rightarrow> KernelRow \<Rightarrow> Expr \<Rightarrow> Value" where
  "keval j k (Column c) = fst (k c)"
| "keval j k (Lit l) = kresult j (row_literal l)"
| "keval j k (Alias x _) = keval j k x"
| "keval j k (Binary op l r) =
    (if op = And then VBool (kbool (keval j k l) \<and> kbool (keval j k r))
     else if op = Or then VBool (kbool (keval j k l) \<or> kbool (keval j k r))
     else kresult j (row_binary op (Some (keval j k l)) (Some (keval j k r))))"
| "keval j k (Unary op x) =
    (if op = UnaryOp.Not then VBool (\<not> kbool (keval j k x))
     else case strip_alias x of
       Column c \<Rightarrow> VBool (if op = IsNull then \<not> snd (k c) else snd (k c))
     | _ \<Rightarrow> j)"
| "keval j k (Cast x t _) = kresult j (row_cast (Some (keval j k x)) t False)"
| "keval j k (Case bs els) =
    kcase (map (\<lambda>b. (keval j k (fst b), keval j k (snd b))) bs)
      (case els of Some x \<Rightarrow> keval j k x | None \<Rightarrow> j)"
| "keval j k _ = j"


end
