(* ===== verification/Null_Soundness.thy ===== *)
theory Null_Soundness
  imports Null_Semantics
begin

text \<open>
  The NULL rewriting of \<^verbatim>\<open>plan/null_semantics.rs\<close> is correct: on a row of a batch, the two-valued kernel
  evaluation of the rewritten predicate, of a rewritten output and of its hidden validity agrees
  with SQL's three-valued evaluation of the original.
\<close>

section \<open>Agreement with the three-valued semantics\<close>

definition bare_column :: "Expr \<Rightarrow> bool" where
  "bare_column x \<longleftrightarrow> (case strip_alias x of Column _ \<Rightarrow> True | _ \<Rightarrow> False)"

text \<open>What the kernels compute: no TRY_CAST and no integer division (whose NULL results the planner
  leaves to the host), and no null test of a compound operand that cannot be NULL.\<close>

fun kernel_fragment :: "Schema \<Rightarrow> Expr \<Rightarrow> bool" where
  "kernel_fragment s (Column _) = True"
| "kernel_fragment s (Lit _) = True"
| "kernel_fragment s (Alias x _) = kernel_fragment s x"
| "kernel_fragment s (Binary op l r) = (op \<noteq> Div \<and> op \<noteq> Mod \<and> kernel_fragment s l \<and> kernel_fragment s r)"
| "kernel_fragment s (Unary op x) =
    (kernel_fragment s x \<and> (op = UnaryOp.Not \<or> bare_column x \<or> touches_nulls s x))"
| "kernel_fragment s (Cast x _ safe) = (\<not> safe \<and> kernel_fragment s x)"
| "kernel_fragment s (Case bs els) =
    (list_all (\<lambda>b. kernel_fragment s (fst b) \<and> kernel_fragment s (snd b)) bs
     \<and> (case els of Some x \<Rightarrow> kernel_fragment s x | None \<Rightarrow> True))"
| "kernel_fragment s _ = False"

definition row_agrees :: "Schema \<Rightarrow> RowEnv \<Rightarrow> KernelRow \<Rightarrow> bool" where
  "row_agrees s \<rho> k \<longleftrightarrow>
    (\<forall>c v. \<rho> c = Some v \<longrightarrow> v = (if snd (k c) then Some (fst (k c)) else None))
    \<and> (\<forall>c. \<not> col_nullable s c \<longrightarrow> snd (k c))"

lemma row_agreesD:
  "row_agrees s \<rho> k \<Longrightarrow> \<rho> c = Some v \<Longrightarrow> v = (if snd (k c) then Some (fst (k c)) else None)"
  "row_agrees s \<rho> k \<Longrightarrow> \<not> col_nullable s c \<Longrightarrow> snd (k c)"
  unfolding row_agrees_def by blast+

lemma kbool_VBool [simp]: "kbool (VBool b) = b"
  by (simp add: kbool_def)

lemma keval_lit_bool [simp]: "keval j k (lit_bool b) = VBool b"
  by (simp add: lit_bool_def kresult_def)

lemma lit_bool_inj [simp]: "lit_bool a = lit_bool b \<longleftrightarrow> a = b"
  by (simp add: lit_bool_def)

lemma keval_and_expr:
  "keval j k a = VBool x \<Longrightarrow> (x \<Longrightarrow> keval j k b = VBool y) \<Longrightarrow> keval j k (and_expr a b) = VBool (x \<and> y)"
  by (auto simp: and_expr_def split: if_splits)

lemma keval_and_False: "keval j k a = VBool False \<Longrightarrow> keval j k (and_expr a b) = VBool False"
  using keval_and_expr[of j k a False b] by simp

lemma keval_or_expr:
  "keval j k a = VBool x \<Longrightarrow> keval j k b = VBool y \<Longrightarrow> keval j k (or_expr a b) = VBool (x \<or> y)"
  by (auto simp: or_expr_def split: if_splits)

lemma keval_not_expr [simp]: "keval j k (not_expr a) = VBool (\<not> kbool (keval j k a))"
  by (auto simp: not_expr_def)

lemma strip_alias_eval: "eval_row cfg \<rho> (strip_alias x) = eval_row cfg \<rho> x"
  by (induction x rule: strip_alias.induct) simp_all

lemma strip_alias_touches: "touches_nulls s (strip_alias x) = touches_nulls s x"
  by (induction x rule: strip_alias.induct) simp_all

lemma row_bool_Ok_iff: "row_bool v = Ok b \<longleftrightarrow> v = map_option VBool b"
  by (cases v rule: row_bool.cases; cases b) auto

lemma kleene_iff:
  "and3 x y = Some True \<longleftrightarrow> x = Some True \<and> y = Some True"
  "and3 x y = Some False \<longleftrightarrow> x = Some False \<or> y = Some False"
  "or3 x y = Some True \<longleftrightarrow> x = Some True \<or> y = Some True"
  "or3 x y = Some False \<longleftrightarrow> x = Some False \<and> y = Some False"
  "not3 x = Some b \<longleftrightarrow> x = Some (\<not> b)"
proof -
  have "z = None \<or> z = Some True \<or> z = Some False" for z :: "bool option" by (cases z) auto
  from this[of x] this[of y] show
    "and3 x y = Some True \<longleftrightarrow> x = Some True \<and> y = Some True"
    "and3 x y = Some False \<longleftrightarrow> x = Some False \<or> y = Some False"
    "or3 x y = Some True \<longleftrightarrow> x = Some True \<or> y = Some True"
    "or3 x y = Some False \<longleftrightarrow> x = Some False \<and> y = Some False"
    "not3 x = Some b \<longleftrightarrow> x = Some (\<not> b)" by (auto simp: not3_def)
qed

lemma kleene_Some [simp]: "and3 (Some a) (Some b) = Some (a \<and> b)" "or3 (Some a) (Some b) = Some (a \<or> b)"
  by (cases a; cases b; simp)+

lemma row_binary_strict:
  assumes "row_binary op a b = Ok r" "op \<noteq> And" "op \<noteq> Or" "op \<noteq> Div" "op \<noteq> Mod"
  shows "r \<noteq> None \<longleftrightarrow> a \<noteq> None \<and> b \<noteq> None"
  using assms
  by (cases op; cases a; cases b)
    (auto simp: row_binary_def lift_row_def is_arithmetic_def is_integer_op_def is_comparison_def is_logical_def
      val_arith_def val_integer_op_def int_arith_def int_bitop_def concat_opt_def Let_def
      elim!: arith_same.elims bitop_same.elims row_utf8.elims split: if_splits)

lemma row_binary_logical:
  assumes "row_binary op a b = Ok r" "op = And \<or> op = Or"
  obtains x y where "a = map_option VBool x" "b = map_option VBool y" "r = map_option VBool (logical3 op x y)"
  using assms by (auto simp: row_binary_def is_arithmetic_def is_integer_op_def is_comparison_def is_logical_def row_bool_Ok_iff)


text \<open>The relations between a cell \<open>v\<close> and a kernel value: it is TRUE, it is FALSE, it is present,
  it is the cell's value.\<close>

definition truth :: "Value option \<Rightarrow> Value \<Rightarrow> bool" where
  "truth v w \<longleftrightarrow> (\<forall>b. v = map_option VBool b \<longrightarrow> w = VBool (b = Some True))"

definition falsity :: "Value option \<Rightarrow> Value \<Rightarrow> bool" where
  "falsity v w \<longleftrightarrow> (\<forall>b. v = map_option VBool b \<longrightarrow> w = VBool (b = Some False))"

definition present :: "Value option \<Rightarrow> Value \<Rightarrow> bool" where
  "present v w \<longleftrightarrow> w = VBool (v \<noteq> None)"

definition carries :: "Value option \<Rightarrow> Value \<Rightarrow> bool" where
  "carries v w \<longleftrightarrow> (\<forall>x. v = Some x \<longrightarrow> w = x)"

lemma map_VBool_inj [simp]: "map_option VBool x = map_option VBool y \<longleftrightarrow> x = y"
  by (cases x; cases y) auto

lemma Some_map_VBool [simp]: "Some w = map_option VBool b \<longleftrightarrow> (\<exists>c. b = Some c \<and> w = VBool c)"
  by (cases b) auto

lemma truth_bool [simp]: "truth (map_option VBool b) w \<longleftrightarrow> w = VBool (b = Some True)"
  by (auto simp: truth_def)

lemma falsity_bool [simp]: "falsity (map_option VBool b) w \<longleftrightarrow> w = VBool (b = Some False)"
  by (auto simp: falsity_def)

lemma truth_cases [simp]:
  "truth None w \<longleftrightarrow> w = VBool False" "truth (Some (VBool a)) w \<longleftrightarrow> w = VBool a"
  "falsity None w \<longleftrightarrow> w = VBool False" "falsity (Some (VBool a)) w \<longleftrightarrow> w = VBool (\<not> a)"
  using truth_bool[of None] truth_bool[of "Some a"] falsity_bool[of None] falsity_bool[of "Some a"] by auto

lemma case_transfer:
  assumes "list_all2 (\<lambda>(c, v) (c', v'). kbool c' = (c = Some True) \<and> Q v v') cvs kvs" "Q els kels"
  shows "Q (first_true cvs els) (kcase kvs kels)"
  using assms by (induction rule: list_all2_induct) auto

lemma case_rel:
  assumes "row_case (map (\<lambda>b. (E (fst b), E (snd b))) bs) eo = Ok v"
    and "mapR (\<lambda>b. bindR (G (fst b)) (\<lambda>w. bindR (H (snd b)) (\<lambda>t. Ok (w, t)))) bs = Ok bs'"
    and "\<And>b x w. b \<in> set bs \<Longrightarrow> E (fst b) = Ok x \<Longrightarrow> G (fst b) = Ok w \<Longrightarrow> truth x (ev w)"
    and "\<And>b x w. b \<in> set bs \<Longrightarrow> E (snd b) = Ok x \<Longrightarrow> H (snd b) = Ok w \<Longrightarrow> Q x (ev w)"
    and "\<And>x. (case eo of None \<Rightarrow> Ok None | Some r \<Rightarrow> r) = Ok x \<Longrightarrow> Q x kels"
  shows "Q v (kcase (map (\<lambda>b. (ev (fst b), ev (snd b))) bs') kels)"
proof -
  obtain cvs x where cvs: "mapR (\<lambda>(c, v). bindR c (\<lambda>x. bindR (row_bool x) (\<lambda>b. bindR v (\<lambda>w. Ok (b, w)))))
        (map (\<lambda>b. (E (fst b), E (snd b))) bs) = Ok cvs"
      "(case eo of None \<Rightarrow> Ok None | Some r \<Rightarrow> r) = Ok x" "v = first_true cvs x"
    using assms(1) by (auto simp: row_case_def split: if_splits)
  have "list_all2 (\<lambda>b cv. E (fst b) = Ok (map_option VBool (fst cv)) \<and> E (snd b) = Ok (snd cv)) bs cvs"
    using cvs(1) unfolding mapR_Ok_iff list_all2_map1
    by (rule list_all2_mono) (auto simp: row_bool_Ok_iff)
  moreover have "list_all2 (\<lambda>b t. G (fst b) = Ok (fst t) \<and> H (snd b) = Ok (snd t)) bs bs'"
    using assms(2) unfolding mapR_Ok_iff by (rule list_all2_mono) auto
  ultimately have "list_all2 (\<lambda>(c, v) (c', v'). kbool c' = (c = Some True) \<and> Q v v') cvs
      (map (\<lambda>b. (ev (fst b), ev (snd b))) bs')"
    using assms(3,4)
  proof (induction bs arbitrary: cvs bs')
    case (Cons b bs)
    from Cons.prems(1) obtain cv cvs0 where cv: "cvs = cv # cvs0" "E (fst b) = Ok (map_option VBool (fst cv))"
        "E (snd b) = Ok (snd cv)"
        "list_all2 (\<lambda>b cv. E (fst b) = Ok (map_option VBool (fst cv)) \<and> E (snd b) = Ok (snd cv)) bs cvs0"
      by (auto simp: list_all2_Cons1)
    from Cons.prems(2) obtain t ts where t: "bs' = t # ts" "G (fst b) = Ok (fst t)" "H (snd b) = Ok (snd t)"
        "list_all2 (\<lambda>b t. G (fst b) = Ok (fst t) \<and> H (snd b) = Ok (snd t)) bs ts"
      by (auto simp: list_all2_Cons1)
    have "truth (map_option VBool (fst cv)) (ev (fst t))" "Q (snd cv) (ev (snd t))"
      using Cons.prems(3)[OF _ cv(2) t(2)] Cons.prems(4)[OF _ cv(3) t(3)] by auto
    moreover have "list_all2 (\<lambda>(c, v) (c', v'). kbool c' = (c = Some True) \<and> Q v v') cvs0
        (map (\<lambda>b. (ev (fst b), ev (snd b))) ts)"
      by (rule Cons.IH[OF cv(4) t(4)]) (auto intro: Cons.prems(3,4))
    ultimately show ?case by (cases cv) (simp add: cv(1) t(1))
  qed simp
  then show ?thesis unfolding cvs(3) by (rule case_transfer) (rule assms(5)[OF cvs(2)])
qed

lemma keval_untouched:
  assumes "kernel_fragment s e" "row_agrees s \<rho> k" "\<not> touches_nulls s e" "eval_row cfg \<rho> e = Ok v"
  shows "v = Some (keval j k e)"
  using assms
proof (induction s e arbitrary: v rule: touches_nulls.induct)
  case (1 s c)
  then show ?case using row_agreesD(1)[of s \<rho> k c v] row_agreesD(2)[of s \<rho> k c] by auto
next
  case (2 s l)
  then show ?case by (cases l) (auto simp: kresult_def)
next
  case (4 s op l r)
  obtain a b where ab: "eval_row cfg \<rho> l = Ok a" "eval_row cfg \<rho> r = Ok b" "row_binary op a b = Ok v"
    using "4.prems"(4) by auto
  have kl: "a = Some (keval j k l)" "b = Some (keval j k r)" using 4 ab by auto
  show ?case
  proof (cases "op = And \<or> op = Or")
    case True
    obtain x y where "a = map_option VBool x" "b = map_option VBool y" "v = map_option VBool (logical3 op x y)"
      using row_binary_logical[OF ab(3) True] .
    then show ?thesis using kl True by (cases x; cases y) (auto simp: logical3_def)
  next
    case False
    then show ?thesis using row_binary_strict[OF ab(3)] "4.prems"(1) kl ab(3) by (auto simp: kresult_def)
  qed
next
  case (5 s op x)
  obtain a where a: "eval_row cfg \<rho> x = Ok a" "row_unary op a = Ok v" using "5.prems"(4) by auto
  have av: "a = Some (keval j k x)" using 5 a(1) by auto
  show ?case
  proof (cases "op = UnaryOp.Not")
    case True
    then obtain b where "a = map_option VBool b" "v = map_option VBool (not3 b)"
      using a(2) by (auto simp: row_unary_def row_bool_Ok_iff)
    then show ?thesis using av True by (cases b) (auto simp: not3_def)
  next
    case False
    then obtain c where c: "strip_alias x = Column c"
      using "5.prems"(1,3) by (auto simp: bare_column_def split: Expr.splits)
    have "\<rho> c = Some a" "\<not> col_nullable s c"
      using a(1) "5.prems"(3) strip_alias_eval[of cfg \<rho> x] strip_alias_touches[of s x] c by auto
    then have "snd (k c)" using "5.prems"(2) row_agreesD(2) by blast
    then show ?thesis using False c a(2) av by (cases op) (auto simp: row_unary_def)
  qed
next
  case (6 s x t safe)
  then show ?case by (auto simp: kresult_def row_cast_def split: option.splits)
next
  case (7 s bs els)
  then obtain x where x: "els = Some x" by (cases els) auto
  have id: "mapR (\<lambda>b. bindR (Ok (fst b)) (\<lambda>w. bindR (Ok (snd b)) (\<lambda>t. Ok (w, t)))) bs = Ok bs"
    by (induction bs) auto
  have sub: "u = Some (keval j k e)"
    if "e = fst b \<or> e = snd b" "b \<in> set bs" "eval_row cfg \<rho> e = Ok u" for e b u
    using that(1,3) "7.IH"(1,2)[OF that(2)] "7.prems"(1-3) that(2) by (auto simp: list_all_iff list_ex_iff)
  have "v = Some (kcase (map (\<lambda>b. (keval j k (fst b), keval j k (snd b))) bs) (keval j k x))"
  proof (rule case_rel[OF "7.prems"(4)[unfolded eval_row.simps] id, where ev = "keval j k" and Q = "\<lambda>v w. v = Some w"])
    fix b y w assume b: "b \<in> set bs"
    show "eval_row cfg \<rho> (fst b) = Ok y \<Longrightarrow> Ok (fst b) = Ok w \<Longrightarrow> truth y (keval j k w)"
      using sub[of "fst b" b y] b by (auto simp: truth_def)
    show "eval_row cfg \<rho> (snd b) = Ok y \<Longrightarrow> Ok (snd b) = Ok w \<Longrightarrow> y = Some (keval j k w)"
      using sub[of "snd b" b y] b by auto
  next
    fix y assume "(case map_option (eval_row cfg \<rho>) els of None \<Rightarrow> Ok None | Some r \<Rightarrow> r) = Ok y"
    then show "y = Some (keval j k x)" using "7.IH"(3)[OF x] "7.prems"(1-3) x by simp
  qed
  then show ?case using x by simp
qed auto


definition known_ok :: "Value option \<Rightarrow> Expr option \<Rightarrow> (Expr \<Rightarrow> Value) \<Rightarrow> bool" where
  "known_ok v ko ev \<longleftrightarrow> (case ko of None \<Rightarrow> v \<noteq> None | Some q \<Rightarrow> present v (ev q))"

definition rewrites_sound :: "Schema \<Rightarrow> (Expr \<Rightarrow> Value) \<Rightarrow> Value option \<Rightarrow> Expr \<Rightarrow> bool" where
  "rewrites_sound s ev v e \<longleftrightarrow>
    (\<forall>q. is_true s e = Ok q \<longrightarrow> truth v (ev q)) \<and> (\<forall>q. is_false s e = Ok q \<longrightarrow> falsity v (ev q))
    \<and> (\<forall>q. known s e = Ok q \<longrightarrow> known_ok v q ev) \<and> (\<forall>q. val_expr s e = Ok q \<longrightarrow> carries v (ev q))"

lemma rewrites_soundD:
  assumes "rewrites_sound s ev v e"
  shows "is_true s e = Ok q \<Longrightarrow> truth v (ev q)" "is_false s e = Ok q \<Longrightarrow> falsity v (ev q)"
    "known s e = Ok q' \<Longrightarrow> known_ok v q' ev" "val_expr s e = Ok q \<Longrightarrow> carries v (ev q)"
  using assms by (auto simp: rewrites_sound_def)

text \<open>Expressions whose truth is tested through their value and their validity.\<close>

lemma tested_by_value:
  assumes "known_ok v ko (keval j k)" "carries v (keval j k q)"
  shows "truth v (keval j k (case ko of None \<Rightarrow> q | Some c \<Rightarrow> and_expr c q))"
    and "falsity v (keval j k (case ko of None \<Rightarrow> not_expr q | Some c \<Rightarrow> and_expr c (not_expr q)))"
proof -
  have "truth (map_option VBool b) (keval j k (case ko of None \<Rightarrow> q | Some c \<Rightarrow> and_expr c q))
      \<and> falsity (map_option VBool b) (keval j k (case ko of None \<Rightarrow> not_expr q | Some c \<Rightarrow> and_expr c (not_expr q)))"
    if "v = map_option VBool b" for b
    using assms that by (cases b; cases ko) (auto simp: known_ok_def present_def carries_def keval_and_False keval_and_expr)
  then show "truth v (keval j k (case ko of None \<Rightarrow> q | Some c \<Rightarrow> and_expr c q))"
    "falsity v (keval j k (case ko of None \<Rightarrow> not_expr q | Some c \<Rightarrow> and_expr c (not_expr q)))"
    by (auto simp: truth_def falsity_def)
qed

lemma rewrites_sound_untouched:
  assumes "\<not> touches_nulls s e" "v = Some (keval j k e)"
  shows "rewrites_sound s (keval j k) v e"
proof -
  have r: "is_true s e = Ok e" "is_false s e = Ok (not_expr e)" "known s e = Ok None" "val_expr s e = Ok e"
    using assms(1) by (simp_all add: is_true.simps is_false.simps known.simps val_expr.simps)
  have "truth v (keval j k e)" "falsity v (keval j k (not_expr e))"
    using tested_by_value[of v None j k e] assms(2) by (auto simp: known_ok_def carries_def)
  then show ?thesis using assms(2) by (simp add: rewrites_sound_def r known_ok_def carries_def)
qed

lemma null_test_ok:
  assumes "null_test s op x = Ok q" "op \<noteq> UnaryOp.Not" "rewrites_sound s (keval j k) a x"
    and "row_agrees s \<rho> k" "eval_row cfg \<rho> x = Ok a"
  shows "keval j k q = VBool (if op = IsNull then a = None else a \<noteq> None)"
proof (cases "bare_column x")
  case True
  then obtain c where c: "strip_alias x = Column c" by (auto simp: bare_column_def split: Expr.splits)
  then have "\<rho> c = Some a" using assms(5) strip_alias_eval[of cfg \<rho> x] by auto
  with row_agreesD(1)[OF assms(4) this] c show ?thesis
    using assms(1,2) by (cases op) (auto simp: null_test.simps split: if_splits)
next
  case False
  then obtain ko where ko: "known s x = Ok ko"
      "q = (case ko of None \<Rightarrow> lit_bool (op \<noteq> IsNull) | Some k \<Rightarrow> if op = IsNull then not_expr k else k)"
    using assms(1) by (auto simp: null_test.simps bare_column_def split: Expr.splits)
  have "known_ok a ko (keval j k)" using rewrites_soundD(3)[OF assms(3) ko(1)] .
  then show ?thesis using ko(2) False by (auto simp: known_ok_def present_def split: option.splits)
qed


lemma rewrites_sound_by_value:
  assumes "is_true s e = bindR (known s e) (\<lambda>c. bindR (val_expr s e) (\<lambda>q.
      Ok (case c of None \<Rightarrow> q | Some c \<Rightarrow> and_expr c q)))"
    and "is_false s e = bindR (known s e) (\<lambda>c. bindR (val_expr s e) (\<lambda>q.
      Ok (case c of None \<Rightarrow> not_expr q | Some c \<Rightarrow> and_expr c (not_expr q))))"
    and "\<And>c. known s e = Ok c \<Longrightarrow> known_ok v c (keval j k)" "\<And>q. val_expr s e = Ok q \<Longrightarrow> carries v (keval j k q)"
  shows "rewrites_sound s (keval j k) v e"
  unfolding rewrites_sound_def assms(1,2) using assms(3,4) tested_by_value by auto

lemma sound_column:
  assumes "row_agrees s \<rho> k" "eval_row cfg \<rho> (Column c) = Ok v" "touches_nulls s (Column c)"
  shows "rewrites_sound s (keval j k) v (Column c)"
proof -
  have "\<rho> c = Some v" using assms(2) by simp
  from row_agreesD(1)[OF assms(1) this] assms(3) show ?thesis
    by (intro rewrites_sound_by_value)
      (auto simp: is_true.simps is_false.simps known.simps val_expr.simps known_ok_def present_def carries_def)
qed

lemma sound_null: "rewrites_sound s (keval j k) None (Lit LNull)"
  by (simp add: rewrites_sound_def is_true.simps is_false.simps known.simps val_expr.simps
      truth_def falsity_def known_ok_def present_def carries_def)

lemma sound_alias:
  assumes "rewrites_sound s (keval j k) v x" "touches_nulls s x"
  shows "rewrites_sound s (keval j k) v (Alias x n)"
  using assms by (auto simp: rewrites_sound_def is_true.simps[of s "Alias x n"] is_false.simps[of s "Alias x n"]
      known.simps[of s "Alias x n"] val_expr.simps[of s "Alias x n"])

lemma and_opt_ok:
  assumes "known_ok a x (keval j k)" "known_ok b y (keval j k)" "v \<noteq> None \<longleftrightarrow> a \<noteq> None \<and> b \<noteq> None"
  shows "known_ok v (and_opt x y) (keval j k)"
  using assms by (cases x; cases y) (auto simp: known_ok_def present_def keval_and_False keval_and_expr)

lemma sound_strict_binary:
  assumes "rewrites_sound s (keval j k) a l" "rewrites_sound s (keval j k) b r" "row_binary op a b = Ok v"
    and "op \<noteq> And" "op \<noteq> Or" "op \<noteq> Div" "op \<noteq> Mod" "touches_nulls s (Binary op l r)"
  shows "rewrites_sound s (keval j k) v (Binary op l r)"
proof (rule rewrites_sound_by_value)
  note strict = row_binary_strict[OF assms(3-7)]
  show "known_ok v c (keval j k)" if "known s (Binary op l r) = Ok c" for c
    using that assms(4,5,8) rewrites_soundD(3)[OF assms(1)] rewrites_soundD(3)[OF assms(2)] and_opt_ok[OF _ _ strict]
    by (auto simp: known.simps[of s "Binary op l r"])
  show "carries v (keval j k q)" if vq: "val_expr s (Binary op l r) = Ok q" for q
  proof -
    obtain x y where "val_expr s l = Ok x" "val_expr s r = Ok y" "q = Binary op x y"
      using vq assms(8) by (auto simp: val_expr.simps[of s "Binary op l r"])
    then show ?thesis
      using assms(3-5) strict rewrites_soundD(4)[OF assms(1)] rewrites_soundD(4)[OF assms(2)]
      by (auto simp: carries_def kresult_def)
  qed
qed (use assms(4,5,8) in \<open>auto simp: is_true.simps[of s "Binary op l r"] is_false.simps[of s "Binary op l r"]
      split: BinaryOp.splits\<close>)

lemma sound_kleene:
  assumes t: "\<And>q. is_true s e = Ok q \<Longrightarrow> truth v (keval j k q)" and f: "\<And>q. is_false s e = Ok q \<Longrightarrow> falsity v (keval j k q)"
    and "v = map_option VBool b" "kleene e" "touches_nulls s e" "\<And>q. val_expr s e = Ok q \<Longrightarrow> carries v (keval j k q)"
  shows "rewrites_sound s (keval j k) v e"
proof -
  have kn: "known s e = bindR (is_true s e) (\<lambda>t. bindR (is_false s e) (\<lambda>f. Ok (Some (or_expr t f))))"
    using assms(4,5) by (cases e rule: kleene.cases) (auto simp: known.simps)
  have "known_ok v c (keval j k)" if "known s e = Ok c" for c
  proof -
    obtain x y where xy: "is_true s e = Ok x" "is_false s e = Ok y" "c = Some (or_expr x y)"
      using \<open>known s e = Ok c\<close> unfolding kn by auto
    then show ?thesis using t[OF xy(1)] f[OF xy(2)] assms(3) keval_or_expr[of j k x _ y]
      by (cases b) (auto simp: known_ok_def present_def)
  qed
  then show ?thesis using t f assms(6) by (simp add: rewrites_sound_def)
qed

lemma kleene_carries:
  assumes "carries (map_option VBool x) a" "carries (map_option VBool y) b"
  shows "carries (map_option VBool (and3 x y)) (VBool (kbool a \<and> kbool b))"
    and "carries (map_option VBool (or3 x y)) (VBool (kbool a \<or> kbool b))"
proof -
  have c: "z = None \<or> z = Some True \<or> z = Some False" for z :: "bool option" by (cases z) auto
  show "carries (map_option VBool (and3 x y)) (VBool (kbool a \<and> kbool b))"
    "carries (map_option VBool (or3 x y)) (VBool (kbool a \<or> kbool b))"
    using c[of x] c[of y] assms by (elim disjE; simp add: carries_def)+
qed

lemma kleene_rewrites:
  assumes "touches_nulls s (Binary op l r)" "op = And \<or> op = Or"
  shows "is_true s (Binary op l r) = bindR (is_true s l) (\<lambda>a. bindR (is_true s r) (\<lambda>b.
      Ok (if op = And then and_expr a b else or_expr a b)))"
    and "is_false s (Binary op l r) = bindR (is_false s l) (\<lambda>a. bindR (is_false s r) (\<lambda>b.
      Ok (if op = And then or_expr a b else and_expr a b)))"
    and "val_expr s (Binary op l r) = bindR (val_expr s l) (\<lambda>a. bindR (val_expr s r) (\<lambda>b. Ok (Binary op a b)))"
proof -
  show "is_true s (Binary op l r) = bindR (is_true s l) (\<lambda>a. bindR (is_true s r) (\<lambda>b.
      Ok (if op = And then and_expr a b else or_expr a b)))"
    using assms(2)
  proof
    assume "op = And"
    then show ?thesis using assms(1) by (subst is_true.simps) (simp del: touches_nulls.simps)
  next
    assume "op = Or"
    then show ?thesis using assms(1) by (subst is_true.simps) (simp del: touches_nulls.simps)
  qed
  show "is_false s (Binary op l r) = bindR (is_false s l) (\<lambda>a. bindR (is_false s r) (\<lambda>b.
      Ok (if op = And then or_expr a b else and_expr a b)))"
    using assms(2)
  proof
    assume "op = And"
    then show ?thesis using assms(1) by (subst is_false.simps) (simp del: touches_nulls.simps)
  next
    assume "op = Or"
    then show ?thesis using assms(1) by (subst is_false.simps) (simp del: touches_nulls.simps)
  qed
  show "val_expr s (Binary op l r) = bindR (val_expr s l) (\<lambda>a. bindR (val_expr s r) (\<lambda>b. Ok (Binary op a b)))"
    using assms(1) by (subst val_expr.simps) (simp del: touches_nulls.simps)
qed

lemma sound_and_or:
  assumes "rewrites_sound s (keval j k) a l" "rewrites_sound s (keval j k) b r" "row_binary op a b = Ok v"
    and op: "op = And \<or> op = Or" and "touches_nulls s (Binary op l r)"
  shows "rewrites_sound s (keval j k) v (Binary op l r)"
proof -
  obtain x y where xy: "a = map_option VBool x" "b = map_option VBool y" "v = map_option VBool (logical3 op x y)"
    using row_binary_logical[OF assms(3) op] .
  have tr: "truth v (keval j k q)" if "is_true s (Binary op l r) = Ok q" for q
  proof -
    obtain c d where cd: "is_true s l = Ok c" "is_true s r = Ok d" "q = (if op = And then and_expr c d else or_expr c d)"
      using \<open>is_true s (Binary op l r) = Ok q\<close> kleene_rewrites(1)[OF assms(5) op] by auto
    have c: "keval j k c = VBool (x = Some True)" and d: "keval j k d = VBool (y = Some True)"
      using rewrites_soundD(1)[OF assms(1) cd(1)] rewrites_soundD(1)[OF assms(2) cd(2)] unfolding xy by simp_all
    show ?thesis using op keval_and_expr[OF c d] keval_or_expr[OF c d]
      unfolding xy(3) cd(3) by (elim disjE) (simp_all add: logical3_def kleene_iff)
  qed
  have fa: "falsity v (keval j k q)" if "is_false s (Binary op l r) = Ok q" for q
  proof -
    obtain c d where cd: "is_false s l = Ok c" "is_false s r = Ok d" "q = (if op = And then or_expr c d else and_expr c d)"
      using \<open>is_false s (Binary op l r) = Ok q\<close> kleene_rewrites(2)[OF assms(5) op] by auto
    have c: "keval j k c = VBool (x = Some False)" and d: "keval j k d = VBool (y = Some False)"
      using rewrites_soundD(2)[OF assms(1) cd(1)] rewrites_soundD(2)[OF assms(2) cd(2)] unfolding xy by simp_all
    show ?thesis using op keval_and_expr[OF c d] keval_or_expr[OF c d]
      unfolding xy(3) cd(3) by (elim disjE) (simp_all add: logical3_def kleene_iff)
  qed
  have ca: "carries v (keval j k q)" if "val_expr s (Binary op l r) = Ok q" for q
  proof -
    obtain c d where cd: "val_expr s l = Ok c" "val_expr s r = Ok d" "q = Binary op c d"
      using \<open>val_expr s (Binary op l r) = Ok q\<close> kleene_rewrites(3)[OF assms(5) op] by auto
    have cx: "carries (map_option VBool x) (keval j k c)" and dy: "carries (map_option VBool y) (keval j k d)"
      using rewrites_soundD(4)[OF assms(1) cd(1)] rewrites_soundD(4)[OF assms(2) cd(2)] unfolding xy by blast+
    show ?thesis unfolding xy(3) cd(3) using op kleene_carries[OF cx dy] by (elim disjE) (simp_all add: logical3_def)
  qed
  show ?thesis using sound_kleene[OF tr fa xy(3) _ assms(5) ca] op by simp
qed

lemma sound_not:
  assumes "rewrites_sound s (keval j k) a x" "row_unary UnaryOp.Not a = Ok v" "touches_nulls s x"
  shows "rewrites_sound s (keval j k) v (Unary UnaryOp.Not x)"
proof -
  obtain b where b: "a = map_option VBool b" "v = map_option VBool (not3 b)"
    using assms(2) by (auto simp: row_unary_def row_bool_Ok_iff)
  have "truth v (keval j k q)" if "is_true s (Unary UnaryOp.Not x) = Ok q" for q
    using that assms(3) rewrites_soundD(2)[OF assms(1)] b by (auto simp: is_true.simps[of s "Unary _ x"] kleene_iff)
  moreover have "falsity v (keval j k q)" if "is_false s (Unary UnaryOp.Not x) = Ok q" for q
    using that assms(3) rewrites_soundD(1)[OF assms(1)] b by (auto simp: is_false.simps[of s "Unary _ x"] kleene_iff)
  moreover have "carries v (keval j k q)" if "val_expr s (Unary UnaryOp.Not x) = Ok q" for q
    using that assms(3) rewrites_soundD(4)[OF assms(1)] b
    by (cases b) (auto simp: val_expr.simps[of s "Unary _ x"] carries_def not3_def)
  ultimately show ?thesis using sound_kleene[of s "Unary UnaryOp.Not x" v j k, OF _ _ b(2)] assms(3) by auto
qed

lemma sound_null_test:
  assumes "rewrites_sound s (keval j k) a x" "row_unary op a = Ok v" "touches_nulls s x" "op \<noteq> UnaryOp.Not"
    and "row_agrees s \<rho> k" "eval_row cfg \<rho> x = Ok a"
  shows "rewrites_sound s (keval j k) v (Unary op x)"
proof -
  have v: "v = Some (VBool (if op = IsNull then a = None else a \<noteq> None))"
    using assms(2,4) by (cases op) (auto simp: row_unary_def)
  have un: "is_true s (Unary op x) = null_test s op x" "known s (Unary op x) = Ok None"
      "is_false s (Unary op x) = bindR (null_test s op x) (\<lambda>t. Ok (not_expr t))" "val_expr s (Unary op x) = null_test s op x"
    using assms(3,4) by (cases op; simp add: is_true.simps[of s "Unary _ x"] is_false.simps[of s "Unary _ x"]
        known.simps[of s "Unary _ x"] val_expr.simps[of s "Unary _ x"])+
  have t: "keval j k q = VBool (if op = IsNull then a = None else a \<noteq> None)" if "null_test s op x = Ok q" for q
    using null_test_ok[OF that assms(4,1,5,6)] .
  show ?thesis unfolding rewrites_sound_def un using t v by (auto simp: known_ok_def carries_def)
qed

lemma sound_cast:
  assumes "rewrites_sound s (keval j k) a x" "row_cast a t False = Ok v" "touches_nulls s x"
  shows "rewrites_sound s (keval j k) v (Cast x t False)"
proof (rule rewrites_sound_by_value)
  have v: "v \<noteq> None \<longleftrightarrow> a \<noteq> None" using assms(2) by (auto simp: row_cast_def split: option.splits)
  show "known_ok v c (keval j k)" if "known s (Cast x t False) = Ok c" for c
    using that assms(3) rewrites_soundD(3)[OF assms(1)] v
    by (auto simp: known.simps[of s "Cast x t False"] known_ok_def present_def split: option.splits)
  show "carries v (keval j k q)" if "val_expr s (Cast x t False) = Ok q" for q
    using that assms(2,3) rewrites_soundD(4)[OF assms(1)] v
    by (cases a) (auto simp: val_expr.simps[of s "Cast x t False"] carries_def kresult_def row_cast_def)
qed (use assms(3) in \<open>auto simp: is_true.simps[of s "Cast x t False"] is_false.simps[of s "Cast x t False"]\<close>)


lemma sound_case:
  assumes rc: "row_case (map (\<lambda>b. (eval_row cfg \<rho> (fst b), eval_row cfg \<rho> (snd b))) bs)
      (map_option (eval_row cfg \<rho>) els) = Ok v"
    and sub: "\<And>b u. b \<in> set bs \<Longrightarrow> eval_row cfg \<rho> (fst b) = Ok u \<Longrightarrow> rewrites_sound s (keval j k) u (fst b)"
      "\<And>b u. b \<in> set bs \<Longrightarrow> eval_row cfg \<rho> (snd b) = Ok u \<Longrightarrow> rewrites_sound s (keval j k) u (snd b)"
      "\<And>x u. els = Some x \<Longrightarrow> eval_row cfg \<rho> x = Ok u \<Longrightarrow> rewrites_sound s (keval j k) u x"
    and tn: "touches_nulls s (Case bs els)"
  shows "rewrites_sound s (keval j k) v (Case bs els)"
  unfolding rewrites_sound_def
proof (intro conjI allI impI)
  note conds = rewrites_soundD(1)[OF sub(1)]
  have arms: "Q v (kcase (map (\<lambda>b. (keval j k (fst b), keval j k (snd b))) bs') (keval j k x'))"
    if bs': "mapR (\<lambda>b. bindR (is_true s (fst b)) (\<lambda>w. bindR (H (snd b)) (\<lambda>t. Ok (w, t)))) bs = Ok bs'"
      and x': "(case els of Some x \<Rightarrow> H x | None \<Rightarrow> Ok d) = Ok x'"
      and H: "\<And>e u w. rewrites_sound s (keval j k) u e \<Longrightarrow> eval_row cfg \<rho> e = Ok u \<Longrightarrow> H e = Ok w \<Longrightarrow> Q u (keval j k w)"
      and d: "Q None (keval j k d)"
    for Q H d bs' x'
  proof (rule case_rel[OF rc bs', where ev = "keval j k"])
    fix u assume "(case map_option (eval_row cfg \<rho>) els of None \<Rightarrow> Ok None | Some r \<Rightarrow> r) = Ok u"
    then show "Q u (keval j k x')" using x' d H[OF sub(3)] by (cases els) auto
  qed (rule conds H[OF sub(2)]; assumption)+
  have tr: "\<And>u e w. rewrites_sound s (keval j k) u e \<Longrightarrow> is_true s e = Ok w \<Longrightarrow> truth u (keval j k w)"
    and fa: "\<And>u e w. rewrites_sound s (keval j k) u e \<Longrightarrow> is_false s e = Ok w \<Longrightarrow> falsity u (keval j k w)"
    by (auto dest: rewrites_soundD)
  show "truth v (keval j k q)" if "is_true s (Case bs els) = Ok q" for q
    by (use that tn arms[where H = "is_true s" and Q = truth and d = "lit_bool False"] tr in
      \<open>auto simp: is_true.simps[of s "Case bs els"] simp del: touches_nulls.simps\<close>)
  show "falsity v (keval j k q)" if "is_false s (Case bs els) = Ok q" for q
    by (use that tn arms[where H = "is_false s" and Q = falsity and d = "lit_bool False"] fa in
      \<open>auto simp: is_false.simps[of s "Case bs els"] simp del: touches_nulls.simps\<close>)
  show "known_ok v q (keval j k)" if q: "known s (Case bs els) = Ok q" for q
  proof -
    let ?H = "\<lambda>e. bindR (known s e) (\<lambda>k. Ok (or_true k))"
    have H: "present u (keval j k w)" if "rewrites_sound s (keval j k) u e" "?H e = Ok w" for u e w
      using that rewrites_soundD(3)[OF that(1)] by (auto simp: known_ok_def present_def or_true_def split: option.splits)
    obtain bs' x' where "mapR (\<lambda>b. bindR (is_true s (fst b)) (\<lambda>w. bindR (?H (snd b)) (\<lambda>t. Ok (w, t)))) bs = Ok bs'"
        "(case els of Some x \<Rightarrow> ?H x | None \<Rightarrow> Ok (lit_bool False)) = Ok x'" "q = Some (Case bs' (Some x'))"
      using q tn by (auto simp: known.simps[of s "Case bs els"] simp del: touches_nulls.simps)
    then show ?thesis using arms[where H = ?H and Q = present and d = "lit_bool False", OF _ _ H]
      by (simp add: known_ok_def present_def)
  qed
  show "carries v (keval j k q)" if q: "val_expr s (Case bs els) = Ok q" for q
  proof -
    obtain f bs' x' where p: "mapR (\<lambda>b. bindR (is_true s (fst b)) (\<lambda>w.
           bindR (if is_null_literal (snd b) then Ok f else val_expr s (snd b)) (\<lambda>t. Ok (w, t)))) bs = Ok bs'"
        "(case els of Some x \<Rightarrow> if is_null_literal x then Ok f else val_expr s x | None \<Rightarrow> Ok f) = Ok x'"
        "q = Case bs' (Some x')"
      using q tn by (auto simp: val_expr.simps[of s "Case bs els"] simp del: touches_nulls.simps split: option.splits)
    have "carries u (keval j k w)" if "rewrites_sound s (keval j k) u e" "eval_row cfg \<rho> e = Ok u"
      "(if is_null_literal e then Ok f else val_expr s e) = Ok w" for u e w
      using that(2,3) rewrites_soundD(4)[OF that(1)] by (auto simp: carries_def is_null_literal_def split: if_splits)
    from arms[where H = "\<lambda>e. if is_null_literal e then Ok f else val_expr s e" and Q = carries, OF p(1,2) this]
    show ?thesis using p(3) by (simp add: carries_def)
  qed
qed



lemma sound_untouched:
  assumes "kernel_fragment s e" "row_agrees s \<rho> k" "eval_row cfg \<rho> e = Ok v" "\<not> touches_nulls s e"
  shows "rewrites_sound s (keval j k) v e"
  by (rule rewrites_sound_untouched[OF assms(4) keval_untouched[OF assms(1,2,4,3)]])

lemma rewrites_sound_eval:
  assumes "kernel_fragment s e" "row_agrees s \<rho> k" "eval_row cfg \<rho> e = Ok v"
  shows "rewrites_sound s (keval j k) v e"
proof (cases "touches_nulls s e")
  case False
  then show ?thesis by (rule sound_untouched[OF assms])
next
  case True
  then show ?thesis using assms
  proof (induction s e arbitrary: v rule: touches_nulls.induct)
    case (1 s c)
    show ?case by (rule sound_column[OF "1.prems"(3,4,1)])
  next
    case (2 s l)
    then show ?case using sound_null by simp
  next
    case (3 s x n)
    then have "rewrites_sound s (keval j k) v x" "touches_nulls s x" by simp_all
    then show ?case by (rule sound_alias)
  next
    case (4 s op l r)
    obtain a b where ab: "eval_row cfg \<rho> l = Ok a" "eval_row cfg \<rho> r = Ok b" "row_binary op a b = Ok v"
      using "4.prems"(4) by auto
    have f: "kernel_fragment s l" "kernel_fragment s r" "op \<noteq> Div" "op \<noteq> Mod" using "4.prems"(2) by simp_all
    have a: "rewrites_sound s (keval j k) a l"
      using "4.IH"(1)[OF _ f(1) "4.prems"(3) ab(1)] sound_untouched[OF f(1) "4.prems"(3) ab(1)] by blast
    have b: "rewrites_sound s (keval j k) b r"
      using "4.IH"(2)[OF _ f(2) "4.prems"(3) ab(2)] sound_untouched[OF f(2) "4.prems"(3) ab(2)] by blast
    show ?case using sound_and_or[OF a b ab(3) _ "4.prems"(1)]
        sound_strict_binary[OF a b ab(3) _ _ f(3,4) "4.prems"(1)] by blast
  next
    case (5 s op x)
    obtain a where a: "eval_row cfg \<rho> x = Ok a" "row_unary op a = Ok v" using "5.prems"(4) by auto
    have t: "touches_nulls s x" "kernel_fragment s x" using "5.prems"(1,2) by simp_all
    have r: "rewrites_sound s (keval j k) a x" by (rule "5.IH"[OF t "5.prems"(3) a(1)])
    show ?case using sound_not[OF r _ t(1)] sound_null_test[OF r a(2) t(1) _ "5.prems"(3) a(1)] a(2) by blast
  next
    case (6 s x t safe)
    obtain a where a: "eval_row cfg \<rho> x = Ok a" "row_cast a t False = Ok v" using "6.prems"(2,4) by auto
    have t: "touches_nulls s x" "kernel_fragment s x" "\<not> safe" using "6.prems"(1,2) by simp_all
    have r: "rewrites_sound s (keval j k) a x" by (rule "6.IH"[OF t(1,2) "6.prems"(3) a(1)])
    show ?case using sound_cast[OF r a(2) t(1)] t(3) by simp
  next
    case (7 s bs els)
    show ?case
    proof (rule sound_case[OF "7.prems"(4)[unfolded eval_row.simps] _ _ _ "7.prems"(1)])
      fix b u assume b: "b \<in> set bs"
      then have f: "kernel_fragment s (fst b)" "kernel_fragment s (snd b)"
        using "7.prems"(2) by (auto simp: list_all_iff)
      show "eval_row cfg \<rho> (fst b) = Ok u \<Longrightarrow> rewrites_sound s (keval j k) u (fst b)"
        using "7.IH"(1)[OF b _ f(1) "7.prems"(3)] sound_untouched[OF f(1) "7.prems"(3)] by blast
      show "eval_row cfg \<rho> (snd b) = Ok u \<Longrightarrow> rewrites_sound s (keval j k) u (snd b)"
        using "7.IH"(2)[OF b _ f(2) "7.prems"(3)] sound_untouched[OF f(2) "7.prems"(3)] by blast
    next
      fix x u assume x: "els = Some x"
      then have f: "kernel_fragment s x" using "7.prems"(2) by simp
      show "eval_row cfg \<rho> x = Ok u \<Longrightarrow> rewrites_sound s (keval j k) u x"
        using "7.IH"(3)[OF x _ f "7.prems"(3)] sound_untouched[OF f "7.prems"(3)] by blast
    qed
  qed simp_all
qed

end
