(* ===== verification/Kernel_Outputs.thy ===== *)
theory Kernel_Outputs
  imports Null_Soundness
begin

text \<open>
  How a scan kernel is built over nullable columns (\<^verbatim>\<open>plan/physical_plan.rs\<close>, \<open>build_kernel\<close>) and how
  its outputs become SQL columns (\<^verbatim>\<open>exec/engine_support.rs\<close>, \<open>apply_hidden_validity\<close>): the predicate is
  rewritten to its two-valued form, each output over nullable columns gets a hidden validity output,
  and the executor applies those and drops them.
\<close>

section \<open>Building the kernel's expressions\<close>

definition hidden_prefix :: string where
  "hidden_prefix = ''__bolt_valid_''"

definition rewrite_predicate :: "Schema \<Rightarrow> Expr option \<Rightarrow> Expr option" where
  "rewrite_predicate s predicate =
    (case predicate of
       Some p \<Rightarrow> if touches_nulls s p then Some (case is_true s p of Inr q \<Rightarrow> q | Inl _ \<Rightarrow> p) else Some p
     | None \<Rightarrow> None)"

fun rewrite_outputs :: "Schema \<Rightarrow> bool \<Rightarrow> nat \<Rightarrow> (string \<times> Expr) list
    \<Rightarrow> (string \<times> Expr) list \<times> (string \<times> Expr) list" where
  "rewrite_outputs s hidden i [] = ([], [])"
| "rewrite_outputs s hidden i ((nm, e) # rest) =
    (let (vals, valid) = rewrite_outputs s hidden (Suc i) rest in
     if \<not> touches_nulls s e \<or> \<not> hidden then ((nm, e) # vals, valid)
     else case (val_expr s e, known s e) of
       (Inr v, Inr k) \<Rightarrow>
         ((nm, v) # vals, (case k of Some q \<Rightarrow> (hidden_prefix @ digits i, q) # valid | None \<Rightarrow> valid))
     | _ \<Rightarrow> ((nm, e) # vals, valid))"

section \<open>Applying the hidden validity\<close>

definition strip_prefix :: "string \<Rightarrow> string \<Rightarrow> string option" where
  "strip_prefix p s = (if starts_with s p then Some (drop (length p) s) else None)"

definition hidden_target :: "string \<Rightarrow> nat option" where
  "hidden_target nm = (case strip_prefix hidden_prefix nm of None \<Rightarrow> None | Some j \<Rightarrow> parse_usize j)"

definition hidden_outputs :: "string list \<Rightarrow> (nat \<times> nat) list" where
  "hidden_outputs outputs =
    concat (map (\<lambda>(k, nm). case hidden_target nm of Some j \<Rightarrow> [(k, j)] | None \<Rightarrow> []) (enum outputs))"

text \<open>Arrow's \<^verbatim>\<open>not\<close> on a Boolean column and \<^verbatim>\<open>nullif\<close>: a cell becomes NULL where the mask is true.\<close>

definition bool_cells :: "Value option list \<Rightarrow> bool option list BoltResult" where
  "bool_cells c = mapR row_bool c"

definition nullif :: "Value option list \<Rightarrow> bool option list \<Rightarrow> Value option list" where
  "nullif target nulls = map (\<lambda>(c, m). if m = Some True then None else c) (zip target nulls)"

definition apply_one :: "Value option list list \<Rightarrow> nat \<times> nat \<Rightarrow> Value option list list BoltResult" where
  "apply_one arrays kj =
    (let (k, j) = kj in
     if k \<ge> length arrays then Err OtherErr
     else bindR (bool_cells (arrays ! k)) (\<lambda>valid.
          let null_rows = map not3 valid in
          if j \<ge> length arrays then Err OtherErr
          else if length null_rows \<noteq> length (arrays ! j) then Err OtherErr
          else Ok (arrays[j := nullif (arrays ! j) null_rows])))"

definition apply_hidden_validity :: "Value option list list \<Rightarrow> string list \<Rightarrow> Value option list list BoltResult" where
  "apply_hidden_validity arrays outputs =
    (case hidden_outputs outputs of
       [] \<Rightarrow> Ok arrays
     | (first, _) # _ \<Rightarrow> bindR (foldR apply_one arrays (hidden_outputs outputs)) (\<lambda>a. Ok (take first a)))"

section \<open>Lemmas\<close>

lemma hidden_target_digits: "n < 2 ^ 64 \<Longrightarrow> hidden_target (hidden_prefix @ digits n) = Some n"
  by (simp add: hidden_target_def strip_prefix_def starts_with_iff parse_usize_digits)

lemma hidden_target_visible: "\<not> starts_with nm hidden_prefix \<Longrightarrow> hidden_target nm = None"
  by (simp add: hidden_target_def strip_prefix_def)


text \<open>What \<open>rewrite_outputs\<close> computes, output by output.\<close>

definition out_value :: "Schema \<Rightarrow> Expr \<Rightarrow> Expr" where
  "out_value s e = (if touches_nulls s e then (case val_expr s e of Inr v \<Rightarrow> v | Inl _ \<Rightarrow> e) else e)"

definition out_known :: "Schema \<Rightarrow> Expr \<Rightarrow> Expr option" where
  "out_known s e = (if touches_nulls s e then (case known s e of Inr k \<Rightarrow> k | Inl _ \<Rightarrow> None) else None)"

definition rewritable :: "Schema \<Rightarrow> Expr \<Rightarrow> bool" where
  "rewritable s e \<longleftrightarrow> \<not> touches_nulls s e \<or> isl (val_expr s e) = False \<and> isl (known s e) = False"

definition known_list :: "Schema \<Rightarrow> nat \<Rightarrow> (string \<times> Expr) list \<Rightarrow> (nat \<times> Expr) list" where
  "known_list s i outs = concat (map (\<lambda>(t, nm, e). case out_known s e of Some q \<Rightarrow> [(t, q)] | None \<Rightarrow> [])
     (zip [i..<i + length outs] outs))"

lemma known_list_Cons: "known_list s i ((nm, e) # rest) =
    (case out_known s e of Some q \<Rightarrow> [(i, q)] | None \<Rightarrow> []) @ known_list s (Suc i) rest"
  by (simp add: known_list_def upt_conv_Cons del: upt_Suc)

lemma rewrite_outputs_eq:
  assumes "list_all (\<lambda>(nm, e). rewritable s e) outs"
  shows "rewrite_outputs s True i outs =
    (map (\<lambda>(nm, e). (nm, out_value s e)) outs, map (\<lambda>(t, q). (hidden_prefix @ digits t, q)) (known_list s i outs))"
  using assms
proof (induction outs arbitrary: i)
  case Nil
  then show ?case by (simp add: known_list_def)
next
  case (Cons ne rest)
  obtain nm e where ne: "ne = (nm, e)" by fastforce
  from Cons have IH: "rewrite_outputs s True (Suc i) rest = (map (\<lambda>(nm, e). (nm, out_value s e)) rest,
      map (\<lambda>(t, q). (hidden_prefix @ digits t, q)) (known_list s (Suc i) rest))" by simp
  from Cons.prems have "rewritable s e" by (simp add: ne)
  then show ?case
    by (auto simp: ne IH known_list_Cons out_value_def out_known_def rewritable_def split: sum.splits option.splits)
qed

lemma known_list_mem:
  "(t, q) \<in> set (known_list s i outs) \<longleftrightarrow> i \<le> t \<and> t < i + length outs \<and> out_known s (snd (outs ! (t - i))) = Some q"
proof (induction outs arbitrary: i)
  case (Cons ne rest)
  show ?case
    using Cons.IH[of "Suc i"] by (cases ne; cases "t = i") (auto simp: known_list_Cons nth_Cons' split: option.splits)
qed (simp add: known_list_def)

lemma known_list_distinct: "distinct (map fst (known_list s i outs))"
proof (induction outs arbitrary: i)
  case (Cons ne rest)
  have "i \<notin> fst ` set (known_list s (Suc i) rest)" using known_list_mem by fastforce
  then show ?case using Cons by (cases ne) (auto simp: known_list_Cons split: option.splits)
qed (simp add: known_list_def)

lemma hidden_outputs_eq:
  assumes "list_all (\<lambda>nm. \<not> starts_with nm hidden_prefix) vis" "list_all (\<lambda>t. t < 2 ^ 64) ts"
  shows "hidden_outputs (vis @ map (\<lambda>t. hidden_prefix @ digits t) ts) = zip [length vis..<length vis + length ts] ts"
proof -
  have a: "concat (map (\<lambda>(k, nm). case hidden_target nm of Some j \<Rightarrow> [(k, j)] | None \<Rightarrow> []) (zip ks vis)) = []" for ks
    using assms(1) by (auto simp: list_all_iff hidden_target_visible dest!: set_zip_rightD)
  have b: "concat (map (\<lambda>(k, nm). case hidden_target nm of Some j \<Rightarrow> [(k, j)] | None \<Rightarrow> [])
      (zip ks (map (\<lambda>t. hidden_prefix @ digits t) ts))) = zip ks ts" if "length ks = length ts" for ks :: "nat list"
    using that assms(2) by (induction ks ts rule: list_induct2) (simp_all add: hidden_target_digits)
  have "enum (vis @ map (\<lambda>t. hidden_prefix @ digits t) ts) = zip [0..<length vis] vis
      @ zip [length vis..<length vis + length ts] (map (\<lambda>t. hidden_prefix @ digits t) ts)"
    by (simp add: enum_def upt_add_eq_append[of 0 "length vis" "length ts"])
  then show ?thesis using a[of "[0..<length vis]"] b[of "[length vis..<length vis + length ts]"] by (simp add: hidden_outputs_def)
qed

definition hide :: "Value option list \<Rightarrow> bool list \<Rightarrow> Value option list" where
  "hide c bs = map (\<lambda>(x, b). if b then x else None) (zip c bs)"

lemma apply_one_bools:
  assumes "k < length A" "A ! k = map (\<lambda>b. Some (VBool b)) bs" "j < length A" "length bs = length (A ! j)"
  shows "apply_one A (k, j) = Ok (A[j := hide (A ! j) bs])"
proof -
  have "bool_cells (A ! k) = Ok (map Some bs)" unfolding assms(2) bool_cells_def by (induction bs) auto
  moreover have "nullif (A ! j) (map not3 (map Some bs)) = hide (A ! j) bs"
    by (auto simp: nullif_def hide_def zip_map2 not3_def comp_def)
  ultimately show ?thesis using assms by (simp add: apply_one_def)
qed

lemma foldR_apply:
  assumes "\<And>k j. (k, j) \<in> set hs \<Longrightarrow> j < n \<and> n \<le> k \<and> k < length A \<and> A ! k = map (\<lambda>b. Some (VBool b)) (B k)
      \<and> length (B k) = length (A ! j)" and "distinct (map snd hs)"
  shows "\<exists>A'. foldR apply_one A hs = Ok A' \<and> length A' = length A \<and>
    (\<forall>i < n. i < length A \<longrightarrow> A' ! i = (case map_of (map prod.swap hs) i of Some k \<Rightarrow> hide (A ! i) (B k) | None \<Rightarrow> A ! i))"
  using assms
proof (induction hs arbitrary: A)
  case (Cons h hs)
  obtain k j where h: "h = (k, j)" by fastforce
  let ?A = "A[j := hide (A ! j) (B k)]"
  have kj: "j < n" "n \<le> k" "k < length A" "A ! k = map (\<lambda>b. Some (VBool b)) (B k)"
    "length (B k) = length (A ! j)" using Cons.prems(1)[of k j] by (simp_all add: h)
  have step: "apply_one A h = Ok ?A" unfolding h by (rule apply_one_bools) (use kj in auto)
  have upd: "j' < n \<and> n \<le> k' \<and> k' < length ?A \<and> ?A ! k' = map (\<lambda>b. Some (VBool b)) (B k')
      \<and> length (B k') = length (?A ! j')" if m: "(k', j') \<in> set hs" for k' j'
  proof -
    have "j' \<noteq> j" using Cons.prems(2) m by (force simp: h)
    moreover have "k' \<noteq> j" using Cons.prems(1)[of k' j'] m kj(1) by auto
    ultimately show ?thesis using Cons.prems(1)[of k' j'] m by auto
  qed
  obtain A' where A': "foldR apply_one ?A hs = Ok A'" "length A' = length ?A"
    "\<And>i. i < n \<Longrightarrow> i < length ?A \<Longrightarrow>
      A' ! i = (case map_of (map prod.swap hs) i of Some k \<Rightarrow> hide (?A ! i) (B k) | None \<Rightarrow> ?A ! i)"
    using Cons.IH[of ?A, OF upd] Cons.prems(2) by auto
  have "map_of (map prod.swap hs) j = None"
    using Cons.prems(2) by (auto simp: h map_of_eq_None_iff image_iff)
  then have "A' ! i = (case map_of (map prod.swap (h # hs)) i of Some k \<Rightarrow> hide (A ! i) (B k) | None \<Rightarrow> A ! i)"
    if "i < n" "i < length A" for i
    using A'(3)[of i] that by (cases "i = j") (auto simp: h split: option.splits)
  then show ?case using step A'(1,2) by simp
qed simp


section \<open>Properties\<close>

definition kernel_column :: "Value \<Rightarrow> KernelRow list \<Rightarrow> Expr \<Rightarrow> Value option list" where
  "kernel_column j rows e = map (\<lambda>k. Some (keval j k e)) rows"

definition row_column :: "HostConfig \<Rightarrow> RowEnv list \<Rightarrow> Expr \<Rightarrow> Value option list BoltResult" where
  "row_column cfg \<rho>s e = mapR (\<lambda>\<rho>. eval_row cfg \<rho> e) \<rho>s"

lemma output_cell:
  assumes "kernel_fragment s e" "row_agrees s \<rho> k" "eval_row cfg \<rho> e = Ok v" "rewritable s e"
  shows "v = (if (case out_known s e of Some q \<Rightarrow> kbool (keval j k q) | None \<Rightarrow> True)
              then Some (keval j k (out_value s e)) else None)
    \<and> (\<forall>q. out_known s e = Some q \<longrightarrow> keval j k q = VBool (v \<noteq> None))"
proof (cases "touches_nulls s e")
  case True
  then obtain q ko where q: "val_expr s e = Ok q" "known s e = Ok ko"
    using assms(4) by (cases "val_expr s e"; cases "known s e") (auto simp: rewritable_def)
  note r = rewrites_sound_eval[OF assms(1-3), of j]
  show ?thesis using rewrites_soundD(3)[OF r q(2)] rewrites_soundD(4)[OF r q(1)] True
    by (cases ko; cases v) (auto simp: out_known_def out_value_def q known_ok_def present_def carries_def)
next
  case False
  then show ?thesis using keval_untouched[OF assms(1,2) False assms(3)]
    by (simp add: out_known_def out_value_def)
qed

text \<open>C26: a kernel keeps exactly the rows on which the WHERE predicate is TRUE
  under SQL's three-valued logic: with the predicate rewritten by the planner, the two-valued kernel
  evaluation is true iff the predicate evaluates to TRUE, whatever the NULL cells hold (\<open>k\<close>) and
  whatever an undefined operation leaves (\<open>j\<close>); rows on which it is FALSE or UNKNOWN are dropped.\<close>

theorem kernel_predicate_three_valued:
  assumes "kernel_fragment s p" "row_agrees s \<rho> k" "eval_row cfg \<rho> p = Ok (map_option VBool b)"
    and "rewrite_predicate s (Some p) = Some q" "isl (is_true s p) = False"
  shows "kbool (keval j k q) \<longleftrightarrow> b = Some True"
proof -
  have "is_true s p = Ok q" using assms(4,5)
    by (cases "is_true s p") (auto simp: rewrite_predicate_def is_true.simps split: if_splits)
  then show ?thesis using rewrites_soundD(1)[OF rewrites_sound_eval[OF assms(1-3)]] by auto
qed

definition demo_nulls :: Schema where
  "demo_nulls = [Field_new ''a'' Int32 True, Field_new ''b'' Int32 False]"

definition demo_row :: "bool \<Rightarrow> 32 word \<Rightarrow> RowEnv" where
  "demo_row valid a = [''a'' \<mapsto> (if valid then Some (VI32 a) else None), ''b'' \<mapsto> Some (VI32 3)]"

definition demo_kernel_row :: "bool \<Rightarrow> 32 word \<Rightarrow> KernelRow" where
  "demo_kernel_row valid a c = (if c = ''a'' then (VI32 a, valid) else (VI32 3, True))"

lemma demo_row_agrees: "row_agrees demo_nulls (demo_row valid a) (demo_kernel_row valid a)"
proof -
  have "col_nullable demo_nulls ''a''" by code_simp
  then show ?thesis by (auto simp: row_agrees_def demo_row_def demo_kernel_row_def)
qed

theorem kernel_predicate_three_valued_witness:
  "\<not> kbool (keval (VBool True) (demo_kernel_row False 0)
     (the (rewrite_predicate demo_nulls (Some (Unary UnaryOp.Not (Binary Gt (Column ''a'') (Column ''b'')))))))"
proof -
  let ?p = "Unary UnaryOp.Not (Binary Gt (Column ''a'') (Column ''b''))"
  have f: "kernel_fragment demo_nulls ?p" by simp
  have e: "eval_row \<lparr>uc = (\<lambda>c. [c]), pad_cap = 8\<rparr> (demo_row False 0) ?p = Ok (map_option VBool None)" by code_simp
  have q: "rewrite_predicate demo_nulls (Some ?p) = Some (the (rewrite_predicate demo_nulls (Some ?p)))"
    by (simp add: rewrite_predicate_def)
  have "isl (is_true demo_nulls ?p) = False" by code_simp
  from kernel_predicate_three_valued[OF f demo_row_agrees e q this] show ?thesis by simp
qed


definition output_ok :: "Schema \<Rightarrow> string \<times> Expr \<Rightarrow> bool" where
  "output_ok s out = (kernel_fragment s (snd out) \<and> rewritable s (snd out) \<and> \<not> starts_with (fst out) hidden_prefix)"

lemma hide_column:
  assumes "list_all2 (row_agrees s) \<rho>s rows" "row_column cfg \<rho>s e = Ok col" "kernel_fragment s e" "rewritable s e"
  shows "out_known s e = None \<Longrightarrow> col = kernel_column j rows (out_value s e)"
    and "out_known s e = Some q \<Longrightarrow> kernel_column j rows q = map (\<lambda>b. Some (VBool b)) (map (\<lambda>v. v \<noteq> None) col)
      \<and> col = hide (kernel_column j rows (out_value s e)) (map (\<lambda>v. v \<noteq> None) col)"
proof -
  have "list_all2 (\<lambda>\<rho> v. eval_row cfg \<rho> e = Ok v) \<rho>s col"
    using assms(2) by (simp add: row_column_def mapR_Ok_iff)
  with assms(1) have l: "length rows = length col"
    and c: "\<And>i. i < length col \<Longrightarrow> row_agrees s (\<rho>s ! i) (rows ! i) \<and> eval_row cfg (\<rho>s ! i) e = Ok (col ! i)"
    by (auto simp: list_all2_conv_all_nth)
  have c1: "col ! i = (if (case out_known s e of Some q \<Rightarrow> kbool (keval j (rows ! i) q) | None \<Rightarrow> True)
        then Some (keval j (rows ! i) (out_value s e)) else None)" if "i < length col" for i
    using output_cell[OF assms(3) conjunct1[OF c[OF that]] conjunct2[OF c[OF that]] assms(4)] by blast
  have c2: "keval j (rows ! i) q = VBool (col ! i \<noteq> None)" if "out_known s e = Some q" "i < length col" for i q
    using output_cell[OF assms(3) conjunct1[OF c[OF that(2)]] conjunct2[OF c[OF that(2)]] assms(4)] that(1) by blast
  show "col = kernel_column j rows (out_value s e)" if "out_known s e = None"
  proof (rule nth_equalityI)
    fix i assume "i < length col"
    then show "col ! i = kernel_column j rows (out_value s e) ! i" using c1[of i] that l by (simp add: kernel_column_def)
  qed (simp add: kernel_column_def l)
  show "kernel_column j rows q = map (\<lambda>b. Some (VBool b)) (map (\<lambda>v. v \<noteq> None) col)
      \<and> col = hide (kernel_column j rows (out_value s e)) (map (\<lambda>v. v \<noteq> None) col)" if q: "out_known s e = Some q"
  proof (intro conjI nth_equalityI)
    fix i assume i: "i < length col"
    show "col ! i = hide (kernel_column j rows (out_value s e)) (map (\<lambda>v. v \<noteq> None) col) ! i"
      using c1[OF i] c2[OF q i] i l q by (cases "col ! i") (simp_all add: kernel_column_def hide_def)
  next
    fix i assume "i < length (kernel_column j rows q)"
    then have i: "i < length col" using l by (simp add: kernel_column_def)
    show "kernel_column j rows q ! i = map (\<lambda>b. Some (VBool b)) (map (\<lambda>v. v \<noteq> None) col) ! i"
      using c2[OF q i] i l by (simp add: kernel_column_def)
  qed (simp_all add: kernel_column_def hide_def l)
qed

lemma known_list_iff: "(t, q) \<in> set (known_list s 0 outs) \<longleftrightarrow> t < length outs \<and> out_known s (snd (outs ! t)) = Some q"
  using known_list_mem[of t q s 0 outs] by simp

text \<open>What the kernel returns, visible outputs first, and the pairs (hidden output, its target).\<close>

definition built :: "Schema \<Rightarrow> Value \<Rightarrow> KernelRow list \<Rightarrow> (string \<times> Expr) list \<Rightarrow> Value option list list" where
  "built s j rows outs = map (\<lambda>(nm, e). kernel_column j rows (out_value s e)) outs
    @ map (\<lambda>(t, q). kernel_column j rows q) (known_list s 0 outs)"

definition targets :: "Schema \<Rightarrow> (string \<times> Expr) list \<Rightarrow> (nat \<times> nat) list" where
  "targets s outs = zip [length outs..<length outs + length (known_list s 0 outs)] (map fst (known_list s 0 outs))"

lemma built_nth:
  "i < length outs \<Longrightarrow> built s j rows outs ! i = kernel_column j rows (out_value s (snd (outs ! i)))"
  "m < length (known_list s 0 outs) \<Longrightarrow> built s j rows outs ! (length outs + m) = kernel_column j rows (snd (known_list s 0 outs ! m))"
  "length (built s j rows outs) = length outs + length (known_list s 0 outs)"
  by (simp_all add: built_def nth_append split_beta)

lemma kernel_outputs_built:
  assumes "list_all (output_ok s) outs" "length outs < 2 ^ 64" "rewrite_outputs s True 0 outs = (vals, valid)"
  shows "map (\<lambda>(nm, e). kernel_column j rows e) (vals @ valid) = built s j rows outs"
    and "hidden_outputs (map fst (vals @ valid)) = targets s outs"
proof -
  let ?kl = "known_list s 0 outs"
  have "list_all (\<lambda>(nm, e). rewritable s e) outs" using assms(1) by (auto simp: list_all_iff output_ok_def)
  from rewrite_outputs_eq[OF this, of 0] assms(3)
  have vals: "vals = map (\<lambda>(nm, e). (nm, out_value s e)) outs"
    and valid: "valid = map (\<lambda>(t, q). (hidden_prefix @ digits t, q)) ?kl" by simp_all
  show "map (\<lambda>(nm, e). kernel_column j rows e) (vals @ valid) = built s j rows outs"
    by (simp add: vals valid built_def comp_def split_beta)
  have "map fst (vals @ valid) = map fst outs @ map (\<lambda>t. hidden_prefix @ digits t) (map fst ?kl)"
    by (simp add: vals valid comp_def split_beta)
  moreover have "list_all (\<lambda>nm. \<not> starts_with nm hidden_prefix) (map fst outs)"
    using assms(1) by (simp add: list_all_iff output_ok_def)
  moreover have "list_all (\<lambda>t. t < 2 ^ 64) (map fst ?kl)"
    using known_list_iff assms(2) by (fastforce simp: list_all_iff)
  ultimately show "hidden_outputs (map fst (vals @ valid)) = targets s outs"
    using hidden_outputs_eq[of "map fst outs" "map fst ?kl"] by (simp add: targets_def)
qed

definition masks :: "Schema \<Rightarrow> (string \<times> Expr) list \<Rightarrow> Value option list list \<Rightarrow> nat \<Rightarrow> bool list" where
  "masks s outs cols k = map (\<lambda>v. v \<noteq> None) (cols ! fst (known_list s 0 outs ! (k - length outs)))"

definition evaluates :: "HostConfig \<Rightarrow> RowEnv list \<Rightarrow> (string \<times> Expr) list \<Rightarrow> Value option list list \<Rightarrow> bool" where
  "evaluates cfg \<rho>s outs cols \<longleftrightarrow> length cols = length outs \<and> (\<forall>i < length outs. row_column cfg \<rho>s (snd (outs ! i)) = Ok (cols ! i))"

lemma target_mask:
  assumes "list_all (output_ok s) outs" "list_all2 (row_agrees s) \<rho>s rows" "evaluates cfg \<rho>s outs cols" "(k, t) \<in> set (targets s outs)"
  shows "t < length outs \<and> length outs \<le> k \<and> k < length (built s j rows outs)
    \<and> built s j rows outs ! k = map (\<lambda>b. Some (VBool b)) (masks s outs cols k)
    \<and> length (masks s outs cols k) = length (built s j rows outs ! t)
    \<and> masks s outs cols k = map (\<lambda>v. v \<noteq> None) (cols ! t)"
proof -
  let ?kl = "known_list s 0 outs"
  obtain m where m: "m < length ?kl" "k = length outs + m" "t = fst (?kl ! m)"
    using assms(4) by (auto simp: targets_def set_zip)
  have t: "t < length outs" "out_known s (snd (outs ! t)) = Some (snd (?kl ! m))"
    using known_list_iff[of "fst (?kl ! m)" "snd (?kl ! m)"] m nth_mem[OF m(1)] by simp_all
  have c: "row_column cfg \<rho>s (snd (outs ! t)) = Ok (cols ! t)" "kernel_fragment s (snd (outs ! t))" "rewritable s (snd (outs ! t))"
    using assms(1,3) t(1) by (auto simp: list_all_iff output_ok_def evaluates_def)
  have "length (cols ! t) = length rows"
    using c(1) assms(2) by (auto simp: row_column_def dest!: mapR_length list_all2_lengthD)
  then show ?thesis using hide_column(2)[where j = j, OF assms(2) c t(2)] t(1) m built_nth(2)[OF m(1)] built_nth(1)[OF t(1)]
    by (simp add: kernel_column_def built_nth(3) masks_def)
qed

lemma masked_output:
  assumes "list_all (output_ok s) outs" "list_all2 (row_agrees s) \<rho>s rows" "evaluates cfg \<rho>s outs cols" "i < length outs"
  shows "(case map_of (map prod.swap (targets s outs)) i of
      Some k \<Rightarrow> hide (built s j rows outs ! i) (masks s outs cols k) | None \<Rightarrow> built s j rows outs ! i) = cols ! i"
proof -
  let ?kl = "known_list s 0 outs"
  have c: "row_column cfg \<rho>s (snd (outs ! i)) = Ok (cols ! i)" "kernel_fragment s (snd (outs ! i))" "rewritable s (snd (outs ! i))"
    using assms(1,3,4) by (auto simp: list_all_iff output_ok_def evaluates_def)
  note hc = hide_column[where j = j, OF assms(2) c]
  show ?thesis
  proof (cases "out_known s (snd (outs ! i))")
    case None
    then have "i \<notin> fst ` set ?kl" using known_list_iff by auto
    then have "(k, i) \<notin> set (targets s outs)" for k unfolding targets_def by (metis list.set_map set_zip_rightD)
    then have "map_of (map prod.swap (targets s outs)) i = None" by (auto simp: map_of_eq_None_iff)
    then show ?thesis using hc(1)[OF None] built_nth(1)[OF assms(4)] by simp
  next
    case (Some q)
    then have "(i, q) \<in> set ?kl" using known_list_iff assms(4) by simp
    then obtain m where "m < length ?kl" "fst (?kl ! m) = i" by (metis fst_conv in_set_conv_nth)
    then have "i \<in> fst ` set (map prod.swap (targets s outs))" by (force simp: set_zip targets_def)
    then obtain k where k: "map_of (map prod.swap (targets s outs)) i = Some k" by (metis map_of_eq_None_iff not_None_eq)
    then have "(k, i) \<in> set (targets s outs)" by (auto dest!: map_of_SomeD)
    from target_mask[where j = j, OF assms(1-3) this] show ?thesis using k hc(2)[OF Some] built_nth(1)[OF assms(4)] by simp
  qed
qed

text \<open>C27: the projection pipeline is correct on NULLs.  Building a kernel for a
  projection list, evaluating its visible and hidden outputs on a batch with the two-valued kernel
  evaluation, and applying the hidden validity gives exactly the columns of SQL's evaluation, NULLs
  included; visible outputs must not be named with the reserved prefix.\<close>

theorem hidden_validity_restores_nulls:
  assumes "list_all (output_ok s) outs" "length outs < 2 ^ 64" "list_all2 (row_agrees s) \<rho>s rows"
    and "mapR (\<lambda>(nm, e). row_column cfg \<rho>s e) outs = Ok cols"
    and "rewrite_outputs s True 0 outs = (vals, valid)"
  shows "apply_hidden_validity (map (\<lambda>(nm, e). kernel_column j rows e) (vals @ valid)) (map fst (vals @ valid)) = Ok cols"
proof -
  let ?n = "length outs" and ?kl = "known_list s 0 outs" and ?A = "built s j rows outs" and ?hs = "targets s outs"
  note kb = kernel_outputs_built[OF assms(1,2,5)]
  have ev: "evaluates cfg \<rho>s outs cols"
    using assms(4) by (auto simp: evaluates_def mapR_Ok_iff list_all2_conv_all_nth split_beta)
  have pre: "t < ?n \<and> ?n \<le> k \<and> k < length ?A \<and> ?A ! k = map (\<lambda>b. Some (VBool b)) (masks s outs cols k)
      \<and> length (masks s outs cols k) = length (?A ! t)" if "(k, t) \<in> set ?hs" for k t
    using target_mask[where j = j, OF assms(1,3) ev that] by blast
  have "distinct (map snd ?hs)" using known_list_distinct[of s 0 outs] by (simp add: targets_def)
  from foldR_apply[of ?hs ?n ?A "masks s outs cols", OF pre this] obtain A' where A': "foldR apply_one ?A ?hs = Ok A'" "length A' = length ?A"
    "\<And>i. i < ?n \<Longrightarrow> A' ! i = (case map_of (map prod.swap ?hs) i of Some k \<Rightarrow> hide (?A ! i) (masks s outs cols k) | None \<Rightarrow> ?A ! i)"
    using built_nth(3)[of s j rows outs] by auto
  have eq: "take ?n A' = cols"
    using A'(2,3) masked_output[where j = j, OF assms(1,3) ev] ev
    by (intro nth_equalityI) (auto simp: built_nth(3) evaluates_def)
  show ?thesis
  proof (cases ?kl)
    case Nil
    then have "?hs = []" "A' = ?A" using A'(1) by (simp_all add: targets_def)
    then show ?thesis using eq Nil built_nth(3)[of s j rows outs] unfolding apply_hidden_validity_def kb by simp
  next
    case (Cons t ts)
    then have "\<exists>y hs'. ?hs = (?n, y) # hs'" by (simp add: targets_def upt_conv_Cons del: upt_Suc)
    then show ?thesis using A'(1) eq unfolding apply_hidden_validity_def kb by auto
  qed
qed


theorem hidden_validity_restores_nulls_witness:
  "apply_hidden_validity
     (map (\<lambda>(nm, e). kernel_column (VBool True) [demo_kernel_row True 5, demo_kernel_row False 9] e)
       [(''x'', Binary Add (Column ''a'') (Column ''b'')), (hidden_prefix @ digits 0, Unary IsNotNull (Column ''a''))])
     [''x'', hidden_prefix @ digits 0] = Ok [[Some (VI32 8), None]]"
proof -
  let ?outs = "[(''x'', Binary Add (Column ''a'') (Column ''b''))]"
  have o: "list_all (output_ok demo_nulls) ?outs" by code_simp
  have l: "length ?outs < 2 ^ 64" by simp
  have r: "list_all2 (row_agrees demo_nulls) [demo_row True 5, demo_row False 9]
      [demo_kernel_row True 5, demo_kernel_row False 9]" by (simp add: demo_row_agrees)
  have c: "mapR (\<lambda>(nm, e). row_column \<lparr>uc = (\<lambda>c. [c]), pad_cap = 8\<rparr> [demo_row True 5, demo_row False 9] e) ?outs
      = Ok [[Some (VI32 8), None]]" by code_simp
  have w: "rewrite_outputs demo_nulls True 0 ?outs = ([(''x'', Binary Add (Column ''a'') (Column ''b''))],
      [(hidden_prefix @ digits 0, Unary IsNotNull (Column ''a''))])" by code_simp
  from hidden_validity_restores_nulls[OF o l r c w, of "VBool True"] show ?thesis by simp
qed

section \<open>Strict feeds\<close>

lemma untouched_columns: "\<not> touches_nulls s e \<Longrightarrow> c \<in> set (collect_columns e) \<Longrightarrow> \<not> col_nullable s c"
proof (induction s e rule: touches_nulls.induct)
  case (7 s bs els)
  then show ?case by (cases els) (force simp: list_ex_iff)+
qed auto

lemma strict_untouched:
  assumes "\<not> touches_nulls s e" "kernel_fragment s e" "row_agrees s \<rho> k" "eval_row cfg \<rho> e = Ok v"
  shows "v \<noteq> None \<longleftrightarrow> (\<forall>c \<in> set (collect_columns e). snd (k c))"
  using keval_untouched[OF assms(2,3,1,4)] untouched_columns[OF assms(1)] row_agreesD(2)[OF assms(3)] by blast

lemma strict_null_iff:
  assumes "is_strict s e" "kernel_fragment s e" "row_agrees s \<rho> k" "eval_row cfg \<rho> e = Ok v"
  shows "v \<noteq> None \<longleftrightarrow> (\<forall>c \<in> set (collect_columns e). snd (k c))"
proof (cases "touches_nulls s e")
  case True
  then show ?thesis using assms
  proof (induction s e arbitrary: v rule: is_strict.induct)
    case (1 s c)
    then show ?case using row_agreesD(1)[of s \<rho> k c v] by auto
  next
    case (3 s x a)
    then show ?case by simp
  next
    case (4 s op l r)
    obtain a b where ab: "eval_row cfg \<rho> l = Ok a" "eval_row cfg \<rho> r = Ok b" "row_binary op a b = Ok v"
      using "4.prems"(5) by auto
    have op: "op \<noteq> And" "op \<noteq> Or" "op \<noteq> Div" "op \<noteq> Mod" and f: "kernel_fragment s l" "kernel_fragment s r"
      and st: "is_strict s l" "is_strict s r"
      using "4.prems"(1-3) by auto
    have l: "a \<noteq> None \<longleftrightarrow> (\<forall>c \<in> set (collect_columns l). snd (k c))"
      using "4.IH"(1)[OF _ st(1) f(1) "4.prems"(4) ab(1)] strict_untouched[OF _ f(1) "4.prems"(4) ab(1)] by blast
    have r: "b \<noteq> None \<longleftrightarrow> (\<forall>c \<in> set (collect_columns r). snd (k c))"
      using "4.IH"(2)[OF _ st(2) f(2) "4.prems"(4) ab(2)] strict_untouched[OF _ f(2) "4.prems"(4) ab(2)] by blast
    show ?case unfolding row_binary_strict[OF ab(3) op] l r by auto
  next
    case (5 s x t safe)
    obtain a where a: "eval_row cfg \<rho> x = Ok a" "row_cast a t False = Ok v" using "5.prems"(3,5) by auto
    have "a \<noteq> None \<longleftrightarrow> (\<forall>c \<in> set (collect_columns x). snd (k c))" using 5 a(1) by simp
    moreover have "v \<noteq> None \<longleftrightarrow> a \<noteq> None" using a(2) by (auto simp: row_cast_def split: option.splits)
    ultimately show ?case by simp
  next
    case (6 s op x)
    obtain a where a: "eval_row cfg \<rho> x = Ok a" "row_unary op a = Ok v" using "6.prems"(5) by auto
    have op: "op = UnaryOp.Not" using "6.prems"(1,2) by auto
    have "a \<noteq> None \<longleftrightarrow> (\<forall>c \<in> set (collect_columns x). snd (k c))" using 6 a(1) by simp
    moreover have "v \<noteq> None \<longleftrightarrow> a \<noteq> None"
      using a(2) by (auto simp: op row_unary_def row_bool_Ok_iff not3_def)
    ultimately show ?case by simp
  qed auto
qed (rule strict_untouched[OF _ assms(2-4)])



end
