(* ===== verification/Memory_Governor.thy ===== *)
theory Memory_Governor
  imports Prelude
begin

text \<open>
  The query-level memory governor (\<^verbatim>\<open>exec/memory.rs\<close>).  The first part models the operations of
  \<open>MemoryGovernor\<close> as one thread executes them, with \<^verbatim>\<open>usize\<close> counters as 64-bit words that wrap as in a
  release build.  Registered consumers are foreign trait objects: what they hold and what spilling
  does is a parameter (\<open>Consumers\<close>).  The second part interleaves threads at the granularity of the
  atomic accesses of \<open>try_reserve\<close> and \<open>reserve_unchecked\<close>.
\<close>

section \<open>The governor\<close>

datatype MemoryKind = Host | Device

type_synonym usize = "64 word"

record MemoryGovernor =
  budgets :: "MemoryKind \<Rightarrow> usize option"
  reserved :: "MemoryKind \<Rightarrow> usize"
  peak :: "MemoryKind \<Rightarrow> usize"
  consumers :: "nat list"
  spill_files :: "64 word"
  spilled_bytes :: "64 word"
  evictions :: "64 word"
  ooc_statements :: "64 word"
  repartitions :: "64 word"

record MemoryReservation =
  rkind :: MemoryKind
  rbytes :: usize

record MemoryStats =
  s_host_budget :: "usize option"
  s_device_budget :: "usize option"
  s_host_reserved :: usize
  s_host_peak :: usize
  s_spill_files :: "64 word"
  s_spilled_bytes :: "64 word"
  s_evictions :: "64 word"
  s_out_of_core_statements :: "64 word"
  s_repartitions :: "64 word"

definition saturating_sub :: "usize \<Rightarrow> usize \<Rightarrow> usize" where
  "saturating_sub a b = (if b \<le> a then a - b else 0)"

definition gov_new :: "usize option \<Rightarrow> usize option \<Rightarrow> MemoryGovernor" where
  "gov_new host_budget device_budget =
    \<lparr>budgets = (\<lambda>k. case k of Host \<Rightarrow> host_budget | Device \<Rightarrow> device_budget),
     reserved = (\<lambda>_. 0), peak = (\<lambda>_. 0), consumers = [],
     spill_files = 0, spilled_bytes = 0, evictions = 0, ooc_statements = 0, repartitions = 0\<rparr>"

definition available :: "MemoryGovernor \<Rightarrow> MemoryKind \<Rightarrow> usize" where
  "available g k = (case budgets g k of Some b \<Rightarrow> saturating_sub b (reserved g k) | None \<Rightarrow> - 1)"

definition drop_reservation :: "MemoryReservation \<Rightarrow> MemoryGovernor \<Rightarrow> MemoryGovernor" where
  "drop_reservation r g = g\<lparr>reserved := (reserved g)(rkind r := reserved g (rkind r) - rbytes r)\<rparr>"

definition reserve_unchecked :: "MemoryKind \<Rightarrow> usize \<Rightarrow> MemoryGovernor \<Rightarrow> MemoryReservation \<times> MemoryGovernor" where
  "reserve_unchecked k bytes g =
    (let now = reserved g k + bytes
     in (\<lparr>rkind = k, rbytes = bytes\<rparr>,
         g\<lparr>reserved := (reserved g)(k := now), peak := (peak g)(k := max (peak g k) now)\<rparr>))"

text \<open>The registered consumers: which are still alive, how much each holds, and what spilling one
  does to the governor and to the consumers' own state.\<close>

record 'w Consumers =
  c_live :: "nat \<Rightarrow> 'w \<Rightarrow> bool"
  c_held :: "nat \<Rightarrow> 'w \<Rightarrow> usize"
  c_spill :: "nat \<Rightarrow> usize \<Rightarrow> MemoryGovernor \<times> 'w \<Rightarrow> usize BoltResult \<times> (MemoryGovernor \<times> 'w)"

definition register_consumer :: "'w Consumers \<Rightarrow> 'w \<Rightarrow> nat \<Rightarrow> MemoryGovernor \<Rightarrow> MemoryGovernor" where
  "register_consumer C w c g = g\<lparr>consumers := filter (\<lambda>d. c_live C d w) (consumers g) @ [c]\<rparr>"

fun spill_loop :: "'w Consumers \<Rightarrow> nat list \<Rightarrow> usize \<Rightarrow> MemoryGovernor \<times> 'w
    \<Rightarrow> unit BoltResult \<times> (MemoryGovernor \<times> 'w)" where
  "spill_loop C [] need st = (Ok (), st)"
| "spill_loop C (c # cs) need st =
    (if need = 0 then (Ok (), st)
     else case c_spill C c need st of
       (Inl e, st') \<Rightarrow> (Err e, st')
     | (Inr freed, st') \<Rightarrow> spill_loop C cs (saturating_sub need freed) st')"

definition spill_consumers :: "'w Consumers \<Rightarrow> usize \<Rightarrow> MemoryGovernor \<times> 'w
    \<Rightarrow> unit BoltResult \<times> (MemoryGovernor \<times> 'w)" where
  "spill_consumers C need st =
    (let live = filter (\<lambda>c. c_live C c (snd st)) (consumers (fst st))
     in spill_loop C (sort_key (\<lambda>c. - uint (c_held C c (snd st))) live) need st)"

definition try_reserve :: "'w Consumers \<Rightarrow> MemoryKind \<Rightarrow> usize \<Rightarrow> MemoryGovernor \<times> 'w
    \<Rightarrow> MemoryReservation BoltResult \<times> (MemoryGovernor \<times> 'w)" where
  "try_reserve C k bytes st =
    (case budgets (fst st) k of
       None \<Rightarrow> (let (r, g) = reserve_unchecked k bytes (fst st) in (Ok r, (g, snd st)))
     | Some budget \<Rightarrow>
         let over = saturating_sub (reserved (fst st) k + bytes) budget;
             (res, st') = (if over > 0 then spill_consumers C over st else (Ok (), st))
         in case res of
              Inl e \<Rightarrow> (Err e, st')
            | Inr _ \<Rightarrow>
                if reserved (fst st') k + bytes > budget then (Err MemoryErr, st')
                else let (r, g) = reserve_unchecked k bytes (fst st') in (Ok r, (g, snd st')))"

definition record_spill :: "64 word \<Rightarrow> 64 word \<Rightarrow> MemoryGovernor \<Rightarrow> MemoryGovernor" where
  "record_spill files bytes g = g\<lparr>spill_files := spill_files g + files, spilled_bytes := spilled_bytes g + bytes\<rparr>"

definition record_eviction :: "MemoryGovernor \<Rightarrow> MemoryGovernor" where
  "record_eviction g = g\<lparr>evictions := evictions g + 1\<rparr>"

definition record_out_of_core :: "MemoryGovernor \<Rightarrow> MemoryGovernor" where
  "record_out_of_core g = g\<lparr>ooc_statements := ooc_statements g + 1\<rparr>"

definition record_repartition :: "MemoryGovernor \<Rightarrow> MemoryGovernor" where
  "record_repartition g = g\<lparr>repartitions := repartitions g + 1\<rparr>"

definition stats :: "MemoryGovernor \<Rightarrow> MemoryStats" where
  "stats g =
    \<lparr>s_host_budget = budgets g Host, s_device_budget = budgets g Device,
     s_host_reserved = reserved g Host, s_host_peak = peak g Host,
     s_spill_files = spill_files g, s_spilled_bytes = spilled_bytes g, s_evictions = evictions g,
     s_out_of_core_statements = ooc_statements g, s_repartitions = repartitions g\<rparr>"

section \<open>Interleaved threads\<close>

text \<open>Where a thread stands in \<open>try_reserve\<close>: about to read the counter and spill, about to compare, past
  the comparison, between \<^verbatim>\<open>fetch_add\<close> and \<^verbatim>\<open>fetch_max\<close>.  Spilling by consumers is the dropping of
  reservations, a step of its own.\<close>

datatype PC = Idle | Requested MemoryKind usize | Checking MemoryKind usize
  | Admitted MemoryKind usize | Added MemoryKind usize usize

record System =
  gov :: MemoryGovernor
  pcs :: "nat \<Rightarrow> PC"
  live :: "MemoryReservation list"

definition init_system :: "usize option \<Rightarrow> usize option \<Rightarrow> System" where
  "init_system h d = \<lparr>gov = gov_new h d, pcs = (\<lambda>_. Idle), live = []\<rparr>"

text \<open>\<open>gov_step n R s s'\<close>: one of \<open>n\<close> threads moves, requests being limited to the sizes in \<open>R\<close>.\<close>

inductive gov_step :: "nat \<Rightarrow> usize set \<Rightarrow> System \<Rightarrow> System \<Rightarrow> bool" for n R where
  request: "t < n \<Longrightarrow> pcs s t = Idle \<Longrightarrow> b \<in> R \<Longrightarrow> gov_step n R s (s\<lparr>pcs := (pcs s)(t := Requested k b)\<rparr>)"
| unlimited: "t < n \<Longrightarrow> pcs s t = Requested k b \<Longrightarrow> budgets (gov s) k = None \<Longrightarrow>
    gov_step n R s (s\<lparr>pcs := (pcs s)(t := Admitted k b)\<rparr>)"
| within: "t < n \<Longrightarrow> pcs s t = Requested k b \<Longrightarrow> budgets (gov s) k = Some m \<Longrightarrow>
    saturating_sub (reserved (gov s) k + b) m = 0 \<Longrightarrow> gov_step n R s (s\<lparr>pcs := (pcs s)(t := Checking k b)\<rparr>)"
| spilled: "t < n \<Longrightarrow> pcs s t = Requested k b \<Longrightarrow> budgets (gov s) k = Some m \<Longrightarrow>
    saturating_sub (reserved (gov s) k + b) m > 0 \<Longrightarrow> gov_step n R s (s\<lparr>pcs := (pcs s)(t := Checking k b)\<rparr>)"
| spill_failed: "t < n \<Longrightarrow> pcs s t = Requested k b \<Longrightarrow> budgets (gov s) k = Some m \<Longrightarrow>
    saturating_sub (reserved (gov s) k + b) m > 0 \<Longrightarrow> gov_step n R s (s\<lparr>pcs := (pcs s)(t := Idle)\<rparr>)"
| rejected: "t < n \<Longrightarrow> pcs s t = Checking k b \<Longrightarrow> budgets (gov s) k = Some m \<Longrightarrow>
    reserved (gov s) k + b > m \<Longrightarrow> gov_step n R s (s\<lparr>pcs := (pcs s)(t := Idle)\<rparr>)"
| admitted: "t < n \<Longrightarrow> pcs s t = Checking k b \<Longrightarrow> budgets (gov s) k = Some m \<Longrightarrow>
    reserved (gov s) k + b \<le> m \<Longrightarrow> gov_step n R s (s\<lparr>pcs := (pcs s)(t := Admitted k b)\<rparr>)"
| fetch_add: "t < n \<Longrightarrow> pcs s t = Admitted k b \<Longrightarrow> now = reserved (gov s) k + b \<Longrightarrow>
    gov_step n R s (s\<lparr>gov := (gov s)\<lparr>reserved := (reserved (gov s))(k := now)\<rparr>, pcs := (pcs s)(t := Added k b now)\<rparr>)"
| fetch_max: "t < n \<Longrightarrow> pcs s t = Added k b now \<Longrightarrow>
    gov_step n R s (s\<lparr>gov := (gov s)\<lparr>peak := (peak (gov s))(k := max (peak (gov s) k) now)\<rparr>,
      pcs := (pcs s)(t := Idle), live := \<lparr>rkind = k, rbytes = b\<rparr> # live s\<rparr>)"
| release: "live s = xs @ r # ys \<Longrightarrow>
    gov_step n R s (s\<lparr>gov := drop_reservation r (gov s), live := xs @ ys\<rparr>)"

inductive reachable :: "nat \<Rightarrow> usize set \<Rightarrow> System \<Rightarrow> System \<Rightarrow> bool" for n R s0 where
  start: "reachable n R s0 s0"
| step: "reachable n R s0 s \<Longrightarrow> gov_step n R s s' \<Longrightarrow> reachable n R s0 s'"

inductive_cases gov_stepE: "gov_step n R s s'"

section \<open>Accounting\<close>

definition held_bytes :: "MemoryKind \<Rightarrow> MemoryReservation list \<Rightarrow> nat" where
  "held_bytes k rs = (\<Sum>r \<leftarrow> rs. if rkind r = k then unat (rbytes r) else 0)"

fun pending :: "MemoryKind \<Rightarrow> PC \<Rightarrow> nat" where
  "pending k (Added k' b _) = (if k = k' then unat b else 0)"
| "pending k _ = 0"

definition total_bytes :: "nat \<Rightarrow> MemoryKind \<Rightarrow> System \<Rightarrow> nat" where
  "total_bytes n k s = held_bytes k (live s) + (\<Sum>t<n. pending k (pcs s t))"

lemma sum_update:
  fixes f :: "PC \<Rightarrow> nat" and p :: "nat \<Rightarrow> PC"
  assumes "t < n"
  shows "(\<Sum>i<n. f ((p(t := c)) i)) + f (p t) = (\<Sum>i<n. f (p i)) + f c"
proof -
  have "(\<Sum>i<n. f ((p(t := c)) i)) = f c + (\<Sum>i \<in> {..<n} - {t}. f (p i))"
    using assms by (subst sum.remove[of _ t]) (auto intro!: sum.cong)
  moreover have "(\<Sum>i<n. f (p i)) = f (p t) + (\<Sum>i \<in> {..<n} - {t}. f (p i))"
    using assms by (subst sum.remove[of _ t]) auto
  ultimately show ?thesis by simp
qed

lemma held_bytes_append [simp]: "held_bytes k (xs @ ys) = held_bytes k xs + held_bytes k ys"
  by (simp add: held_bytes_def)

lemma held_bytes_Cons [simp]: "held_bytes k (r # rs) = (if rkind r = k then unat (rbytes r) else 0) + held_bytes k rs"
  by (simp add: held_bytes_def)

lemma total_silent:
  assumes "t < n" "pending k (pcs s t) = 0" "pending k c = 0"
  shows "total_bytes n k (s\<lparr>pcs := (pcs s)(t := c)\<rparr>) = total_bytes n k s"
  using sum_update[OF assms(1), of "pending k" "pcs s" c] assms(2,3) by (simp add: total_bytes_def)

lemma accounting_step:
  assumes "gov_step n R s s'" "\<forall>k. reserved (gov s) k = of_nat (total_bytes n k s)"
  shows "\<forall>k. reserved (gov s') k = of_nat (total_bytes n k s')"
  using assms(1)
proof (cases rule: gov_step.cases)
  case (fetch_add t k b now)
  show ?thesis
  proof
    fix k'
    have "total_bytes n k' s' = total_bytes n k' s + (if k' = k then unat b else 0)"
      using sum_update[OF fetch_add(2), of "pending k'" "pcs s" "Added k b now"] fetch_add(3)
      by (simp add: total_bytes_def fetch_add(1))
    then show "reserved (gov s') k' = of_nat (total_bytes n k' s')" using assms(2) fetch_add(4) by (simp add: fetch_add(1))
  qed
next
  case (fetch_max t k b now)
  have "total_bytes n k' s' = total_bytes n k' s" for k'
    using sum_update[OF fetch_max(2), of "pending k'" "pcs s" Idle] fetch_max(3)
    by (cases "k = k'") (simp_all add: total_bytes_def fetch_max(1))
  then show ?thesis using assms(2) by (simp add: fetch_max(1))
next
  case (release xs r ys)
  have "total_bytes n k' s = total_bytes n k' s' + (if rkind r = k' then unat (rbytes r) else 0)" for k'
    by (simp add: total_bytes_def release)
  moreover have "reserved (gov s') k' = reserved (gov s) k' - (if rkind r = k' then rbytes r else 0)" for k'
    by (simp add: release(1) drop_reservation_def)
  ultimately show ?thesis using assms(2) by simp
qed (use assms(2) in \<open>simp_all add: total_silent\<close>)

lemma governor_exact:
  assumes "reachable n R s0 s" "\<forall>k. reserved (gov s0) k = of_nat (total_bytes n k s0)"
  shows "reserved (gov s) k = of_nat (total_bytes n k s)"
proof -
  from assms(1) have "\<forall>k. reserved (gov s) k = of_nat (total_bytes n k s)"
    by (induction rule: reachable.induct) (use assms(2) accounting_step in blast)+
  then show ?thesis by blast
qed

lemma init_total [simp]: "total_bytes n k (init_system h d) = 0"
  by (simp add: total_bytes_def init_system_def held_bytes_def)

lemma init_reserved [simp]: "reserved (gov (init_system h d)) k = 0"
  by (simp add: init_system_def gov_new_def)

text \<open>C36: whatever the interleaving of requests and releases by any number of threads, the
  counter of each memory kind equals (modulo the word size) the bytes of the reservations that are
  held plus those of the threads between the two halves of \<open>reserve_unchecked\<close>: no reservation is
  lost or counted twice, and when everything is released the counter is zero.\<close>

theorem governor_accounting:
  assumes "reachable n R (init_system h d) s"
  shows "reserved (gov s) k = of_nat (held_bytes k (live s) + (\<Sum>t<n. pending k (pcs s t)))"
proof -
  have "reserved (gov s) k = of_nat (total_bytes n k s)" by (rule governor_exact[OF assms]) simp
  then show ?thesis unfolding total_bytes_def .
qed

lemma reachable_run:
  assumes "reachable n R s0 s" "gov_step n R s s'" "s' = s''"
  shows "reachable n R s0 s''"
  using reachable.step[OF assms(1,2)] assms(3) by simp

definition at :: "MemoryGovernor \<Rightarrow> PC \<Rightarrow> PC \<Rightarrow> MemoryReservation list \<Rightarrow> System" where
  "at g p q rs = \<lparr>gov = g, pcs = (\<lambda>_. Idle)(0 := p, 1 := q), live = rs\<rparr>"

lemma first_admitted:
  assumes "0 < n"
  defines "g \<equiv> gov_new (Some 100) None"
  shows "reachable n {60} (init_system (Some 100) None) (at g (Admitted Host 60) Idle [])"
proof -
  note r = reachable_run[of n "{60}" "init_system (Some 100) None"]
  have g: "budgets g Host = Some 100" "reserved g Host = 0" by (simp_all add: g_def gov_new_def)
  have "reachable n {60} (init_system (Some 100) None) (init_system (Some 100) None)" by (rule reachable.start)
  then have "reachable n {60} (init_system (Some 100) None) (at g (Requested Host 60) Idle [])"
    by (rule r[OF _ request[of 0 _ _ 60 _ Host]]) (use assms(1) in \<open>auto simp: at_def init_system_def g_def\<close>)
  then have "reachable n {60} (init_system (Some 100) None) (at g (Checking Host 60) Idle [])"
    by (rule r[OF _ within[of 0 _ _ Host 60 100]]) (use assms(1) in \<open>auto simp: at_def g saturating_sub_def\<close>)
  then show ?thesis
    by (rule r[OF _ admitted[of 0 _ _ Host 60 100]]) (use assms(1) in \<open>auto simp: at_def g\<close>)
qed

lemma solo_run:
  defines "g \<equiv> gov_new (Some 100) None"
  shows "reachable 1 {60} (init_system (Some 100) None)
    (at (g\<lparr>reserved := (reserved g)(Host := 60)\<rparr>) (Added Host 60 60) Idle [])"
  by (rule reachable_run[OF first_admitted fetch_add[of 0 _ _ Host 60]]) (auto simp: at_def g_def gov_new_def)

lemma race_run:
  defines "g \<equiv> gov_new (Some 100) None"
  shows "reachable 2 {60} (init_system (Some 100) None)
    (at (g\<lparr>reserved := (reserved g)(Host := 120)\<rparr>) (Added Host 60 60) (Added Host 60 120) [])"
proof -
  note r = reachable_run[of 2 "{60}" "init_system (Some 100) None"]
  have g: "budgets g Host = Some 100" "reserved g Host = 0" by (simp_all add: g_def gov_new_def)
  have "reachable 2 {60} (init_system (Some 100) None) (at g (Admitted Host 60) Idle [])"
    using first_admitted[of 2] by (simp add: g_def)
  then have "reachable 2 {60} (init_system (Some 100) None) (at g (Admitted Host 60) (Requested Host 60) [])"
    by (rule r[OF _ request[of 1 _ _ 60 _ Host]]) (auto simp: at_def)
  then have "reachable 2 {60} (init_system (Some 100) None) (at g (Admitted Host 60) (Checking Host 60) [])"
    by (rule r[OF _ within[of 1 _ _ Host 60 100]]) (auto simp: at_def g saturating_sub_def)
  then have "reachable 2 {60} (init_system (Some 100) None) (at g (Admitted Host 60) (Admitted Host 60) [])"
    by (rule r[OF _ admitted[of 1 _ _ Host 60 100]]) (auto simp: at_def g)
  then have "reachable 2 {60} (init_system (Some 100) None)
      (at (g\<lparr>reserved := (reserved g)(Host := 60)\<rparr>) (Added Host 60 60) (Admitted Host 60) [])"
    by (rule r[OF _ fetch_add[of 0 _ _ Host 60]]) (auto simp: at_def g)
  then show ?thesis
    by (rule r[OF _ fetch_add[of 1 _ _ Host 60]]) (auto simp: at_def g)
qed


theorem governor_accounting_witness:
  "reserved (gov (at ((gov_new (Some 100) None)\<lparr>reserved := (reserved (gov_new (Some 100) None))(Host := 120)\<rparr>)
      (Added Host 60 60) (Added Host 60 120) [])) Host = 120"
proof -
  have two: "{..<2 :: nat} = {0, 1}" by auto
  show ?thesis using governor_accounting[OF race_run, of Host] by (simp add: at_def held_bytes_def two)
qed

section \<open>The budget\<close>

text \<open>With one thread and sizes below 2 to the 63, the bytes a passed comparison promised stay within
  the budget until they are added.\<close>

fun promised :: "MemoryKind \<Rightarrow> PC \<Rightarrow> nat" where
  "promised k (Admitted k' b) = (if k = k' then unat b else 0)"
| "promised k _ = 0"

fun small_request :: "PC \<Rightarrow> bool" where
  "small_request Idle = True"
| "small_request (Requested _ b) = (unat b < 2 ^ 63)"
| "small_request (Checking _ b) = (unat b < 2 ^ 63)"
| "small_request (Admitted _ b) = (unat b < 2 ^ 63)"
| "small_request (Added _ b _) = True"

definition budget_inv :: "System \<Rightarrow> bool" where
  "budget_inv s \<longleftrightarrow> small_request (pcs s 0) \<and> (\<forall>k. reserved (gov s) k = of_nat (total_bytes 1 k s))
    \<and> (\<forall>k m. budgets (gov s) k = Some m \<longrightarrow> unat m < 2 ^ 63 \<and> total_bytes 1 k s + promised k (pcs s 0) \<le> unat m)"

lemma unat_of_small: "x < 2 ^ 63 \<Longrightarrow> unat (of_nat x :: usize) = x"
  by (simp add: unat_of_nat)

lemma admitted_fits:
  assumes "reserved g k = of_nat x" "x < 2 ^ 63" "unat b < 2 ^ 63" "reserved g k + b \<le> m"
  shows "x + unat b \<le> unat (m :: usize)"
proof -
  have "unat (reserved g k + b) = x + unat b"
    using assms(1-3) unat_of_small[OF assms(2)] by (simp add: unat_word_ariths(1))
  then show ?thesis using assms(4) by (simp add: word_le_nat_alt)
qed

lemma budget_inv_step:
  assumes "gov_step 1 R s s'" "R \<subseteq> {b. unat b < 2 ^ 63}" "budget_inv s"
  shows "budget_inv s'"
proof -
  have acc: "\<forall>k. reserved (gov s') k = of_nat (total_bytes 1 k s')"
    using accounting_step[OF assms(1)] assms(3) by (simp add: budget_inv_def)
  have inv: "small_request (pcs s 0)" "\<And>k m. budgets (gov s) k = Some m \<Longrightarrow> unat m < 2 ^ 63"
    "\<And>k m. budgets (gov s) k = Some m \<Longrightarrow> total_bytes 1 k s + promised k (pcs s 0) \<le> unat m"
    "\<And>k. reserved (gov s) k = of_nat (total_bytes 1 k s)"
    using assms(3) by (auto simp: budget_inv_def)
  have "small_request (pcs s' 0) \<and> budgets (gov s') = budgets (gov s)
    \<and> (\<forall>k m. budgets (gov s) k = Some m \<longrightarrow> total_bytes 1 k s' + promised k (pcs s' 0) \<le> unat m)"
    using assms(1)
  proof (cases rule: gov_step.cases)
    case (request t b k)
    then show ?thesis using assms(2) inv by (auto simp: total_bytes_def)
  next
    case (admitted t k b m)
    then have "total_bytes 1 k s + unat b \<le> unat m"
      using inv(2,3)[of k m] inv(1,4) by (intro admitted_fits[of "gov s" k]) (auto simp: total_bytes_def)
    then show ?thesis using admitted inv by (auto simp: total_bytes_def)
  next
    case (release xs r ys)
    have "total_bytes 1 k s' + promised k (pcs s' 0) \<le> unat m" if "budgets (gov s) k = Some m" for k m
      using inv(3)[OF that] by (simp add: release total_bytes_def)
    then show ?thesis using inv(1) by (simp add: release drop_reservation_def)
  next
    case (fetch_max t k b now)
    have "total_bytes 1 k' s' + promised k' (pcs s' 0) \<le> unat m" if "budgets (gov s) k' = Some m" for k' m
      using inv(3)[OF that] fetch_max by (auto simp: total_bytes_def split: if_splits)
    then show ?thesis using inv(1) by (simp add: fetch_max)
  qed (use inv in \<open>auto simp: total_bytes_def split: if_splits\<close>)
  then show ?thesis using acc inv(2) by (simp add: budget_inv_def)
qed




definition no_consumers :: "unit Consumers" where
  "no_consumers = \<lparr>c_live = (\<lambda>_ _. False), c_held = (\<lambda>_ _. 0), c_spill = (\<lambda>_ _ st. (Ok 0, st))\<rparr>"


section \<open>Spilling makes room\<close>

text \<open>The contract of \<open>MemoryConsumer::spill\<close>: it releases at least the requested bytes if the consumer holds
  them, at most what it holds, and returns the bytes released; other consumers are not affected.\<close>

definition honest_consumers :: "'w Consumers \<Rightarrow> MemoryKind \<Rightarrow> bool" where
  "honest_consumers C k \<longleftrightarrow>
    (\<forall>c need g w. c_held C c w \<le> reserved g k \<longrightarrow>
      (\<exists>freed g' w'. c_spill C c need (g, w) = (Ok freed, (g', w')) \<and> budgets g' = budgets g
        \<and> reserved g' k = reserved g k - freed \<and> min need (c_held C c w) \<le> freed \<and> freed \<le> c_held C c w
        \<and> (\<forall>d. d \<noteq> c \<longrightarrow> c_held C d w' = c_held C d w)))"

definition spillable :: "'w Consumers \<Rightarrow> 'w \<Rightarrow> nat list \<Rightarrow> nat" where
  "spillable C w cs = (\<Sum>c \<leftarrow> cs. unat (c_held C c w))"

lemma spillable_cong: "(\<And>c. c \<in> set cs \<Longrightarrow> c_held C c w' = c_held C c w) \<Longrightarrow> spillable C w' cs = spillable C w cs"
  unfolding spillable_def by (intro arg_cong[where f = sum_list] map_cong) auto

lemma unat_saturating_sub: "unat (saturating_sub a b) = unat a - unat b"
  by (auto simp: saturating_sub_def word_le_nat_alt unat_sub_if_size)

lemma spill_loop_frees:
  assumes "honest_consumers C k" "distinct cs" "spillable C w cs \<le> unat (reserved g k)" "unat need \<le> spillable C w cs"
  shows "\<exists>g' w'. spill_loop C cs need (g, w) = (Ok (), (g', w')) \<and> budgets g' = budgets g
    \<and> unat (reserved g' k) + unat need \<le> unat (reserved g k)"
  using assms(2-)
proof (induction cs arbitrary: need g w)
  case Nil
  then show ?case by (simp add: spillable_def)
next
  case (Cons c cs)
  let ?h = "unat (c_held C c w)" and ?r = "unat (reserved g k)"
  show ?case
  proof (cases "need = 0")
    case False
    have split: "spillable C w (c # cs) = ?h + spillable C w cs" by (simp add: spillable_def)
    have "c_held C c w \<le> reserved g k" using Cons.prems(2) split by (simp add: word_le_nat_alt)
    with assms(1) obtain freed g' w' where sp: "c_spill C c need (g, w) = (Ok freed, (g', w'))" "budgets g' = budgets g"
        "reserved g' k = reserved g k - freed" "min need (c_held C c w) \<le> freed" "freed \<le> c_held C c w"
        "\<forall>d. d \<noteq> c \<longrightarrow> c_held C d w' = c_held C d w"
      unfolding honest_consumers_def by meson
    have f: "unat freed \<le> ?h" "min (unat need) ?h \<le> unat freed"
      using sp(4,5) by (auto simp: word_le_nat_alt min_def split: if_splits)
    then have r': "unat (reserved g' k) = ?r - unat freed"
      using Cons.prems(2) split by (simp add: sp(3) unat_sub word_le_nat_alt)
    have sw: "spillable C w' cs = spillable C w cs"
      using Cons.prems(1) sp(6) by (intro spillable_cong) auto
    have "\<exists>g'' w''. spill_loop C cs (saturating_sub need freed) (g', w') = (Ok (), (g'', w'')) \<and> budgets g'' = budgets g'
        \<and> unat (reserved g'' k) + unat (saturating_sub need freed) \<le> unat (reserved g' k)"
      using Cons.prems f split by (intro Cons.IH) (auto simp: r' sw unat_saturating_sub)
    then show ?thesis using False sp(1,2) f r' Cons.prems(2) split by (auto simp: unat_saturating_sub)
  qed simp
qed

text \<open>C38: a request that fits the budget succeeds whenever the live consumers hold enough to
  make room: if they honour their contract, their holdings are part of the reserved bytes and cover
  the excess, and the sum does not overflow, \<open>try_reserve\<close> grants the reservation and the counter
  ends within the budget.\<close>

theorem try_reserve_progress:
  assumes "honest_consumers C k" "budgets g k = Some m" "unat (reserved g k) + unat bytes < 2 ^ 64"
    and "distinct (consumers g)" "alive = filter (\<lambda>c. c_live C c w) (consumers g)"
    and "spillable C w alive \<le> unat (reserved g k)"
    and "unat (reserved g k) + unat bytes \<le> unat m + spillable C w alive"
  shows "\<exists>g' w'. try_reserve C k bytes (g, w) = (Ok \<lparr>rkind = k, rbytes = bytes\<rparr>, (g', w')) \<and> reserved g' k \<le> m"
proof -
  let ?over = "saturating_sub (reserved g k + bytes) m"
  have u: "unat (reserved g k + bytes) = unat (reserved g k) + unat bytes"
    using assms(3) by (simp add: unat_word_ariths(1))
  have over: "unat ?over = unat (reserved g k) + unat bytes - unat m" by (simp add: unat_saturating_sub u)
  let ?cs = "sort_key (\<lambda>c. - uint (c_held C c w)) alive"
  have cs: "spillable C w ?cs = spillable C w alive" "distinct ?cs"
    using assms(4,5) by (simp_all add: spillable_def flip: sum_mset_sum_list)
  have "\<exists>g' w'. (if ?over > 0 then spill_consumers C ?over (g, w) else (Ok (), (g, w))) = (Ok (), (g', w'))
      \<and> budgets g' = budgets g \<and> unat (reserved g' k) + unat ?over \<le> unat (reserved g k)"
  proof (cases "?over > 0")
    case True
    have "\<exists>g' w'. spill_loop C ?cs ?over (g, w) = (Ok (), (g', w')) \<and> budgets g' = budgets g
      \<and> unat (reserved g' k) + unat ?over \<le> unat (reserved g k)"
      using assms(1,6,7) cs over by (intro spill_loop_frees) auto
    then show ?thesis using True assms(5) by (simp add: spill_consumers_def)
  next
    case False
    then have "unat ?over = 0" by (simp add: word_less_nat_alt)
    then show ?thesis using False by simp
  qed
  then obtain g' w' where st: "(if ?over > 0 then spill_consumers C ?over (g, w) else (Ok (), (g, w))) = (Ok (), (g', w'))"
      "unat (reserved g' k) + unat ?over \<le> unat (reserved g k)" by blast
  have "unat (reserved g' k) + unat bytes \<le> unat m" using st(2) over by linarith
  moreover from this have "unat (reserved g' k + bytes) = unat (reserved g' k) + unat bytes"
    using unsigned_less[where w = m and 'a = nat] by (simp add: unat_word_ariths(1))
  ultimately have le: "reserved g' k + bytes \<le> m" by (simp add: word_le_nat_alt)
  then show ?thesis using st(1) assms(2)
    by (simp add: try_reserve_def reserve_unchecked_def Let_def)
qed


text \<open>A cache per consumer that gives back what it is asked for, up to what it holds.\<close>

definition caches :: "(nat \<Rightarrow> usize) Consumers" where
  "caches = \<lparr>c_live = (\<lambda>_ _. True), c_held = (\<lambda>c w. w c),
    c_spill = (\<lambda>c need (g, w). let freed = min need (w c) in
      (Ok freed, (g\<lparr>reserved := (reserved g)(Host := reserved g Host - freed)\<rparr>, w(c := w c - freed))))\<rparr>"

theorem try_reserve_progress_witness:
  "\<exists>g' w'. try_reserve caches Host 50
      (register_consumer caches (\<lambda>_. 90) 7 (snd (reserve_unchecked Host 90 (gov_new (Some 100) None))), (\<lambda>_. 90))
    = (Ok \<lparr>rkind = Host, rbytes = 50\<rparr>, (g', w')) \<and> reserved g' Host \<le> 100"
proof (rule try_reserve_progress[where alive = "[7]"])
  show "honest_consumers caches Host" by (auto simp: honest_consumers_def caches_def Let_def)
qed (simp_all add: register_consumer_def reserve_unchecked_def gov_new_def caches_def spillable_def Let_def)

end
