(* ===== verification/Catalog.thy ===== *)
theory Catalog
  imports Typing Strings
begin

text \<open>
  The persistent catalog (\<^verbatim>\<open>storage/catalog.rs\<close>): immutable data files, numbered manifests, the file
  CURRENT that names the published one, transactions and vacuum.

  The file system is a store of files by path; a path is the structured form of the names the code
  formats.  Every operation on the catalog passes the store along and performs the same sequence of
  primitive file operations as the code; \<open>ops_left\<close> counts those that still succeed, so that an
  I/O error or a crash of the process can happen before (and, for a write, in the middle of) any of
  them.  JSON text is the manifest it encodes (serde's round trip), a Parquet file is the batches it
  holds; the statistics and the size of a written file are parameters (\<open>Parquet\<close>).
\<close>

section \<open>Metadata\<close>

record ColumnMeta =
  col_name :: string
  col_type :: string
  col_null :: bool

datatype Path = PCurrent | PCurrentTmp | PManifest nat | PManifestTmp nat | PData nat nat nat

record 's DataFile =
  file_path :: Path
  file_rows :: nat
  file_bytes :: nat
  file_stats :: 's

datatype TableKind = Managed | External string

record 's TableMeta =
  table_id :: nat
  table_kind :: TableKind
  columns :: "ColumnMeta list"
  data_files :: "'s DataFile list"
  table_version :: nat
  analyzed :: "'s option"
  cluster_by :: "string list"

datatype RefreshPolicy = Manual | OnCommit | Scheduled nat

record ViewMeta =
  view_sql :: string
  dependencies :: "string list"
  base_versions :: "(string \<times> nat) list"
  refresh :: RefreshPolicy
  backing_table :: string
  refreshed_at_ms :: "nat option"
  base_files :: "(string \<times> Path list) list"

record 's Manifest =
  m_format :: nat
  m_version :: nat
  next_table_id :: nat
  m_tables :: "string \<rightharpoonup> 's TableMeta"
  m_views :: "string \<rightharpoonup> ViewMeta"

definition FORMAT_VERSION :: nat where "FORMAT_VERSION = 1"

definition manifest_empty :: "'s Manifest" where
  "manifest_empty = \<lparr>m_format = FORMAT_VERSION, m_version = 0, next_table_id = 1,
     m_tables = Map.empty, m_views = Map.empty\<rparr>"

definition row_count :: "'s TableMeta \<Rightarrow> nat" where
  "row_count t = (\<Sum>f \<leftarrow> data_files t. file_rows f)"

section \<open>Column types as text\<close>

fun unit_text :: "TimeUnit \<Rightarrow> string" where
  "unit_text Second = ''s''"
| "unit_text Millisecond = ''ms''"
| "unit_text Microsecond = ''us''"
| "unit_text Nanosecond = ''ns''"

definition int_text :: "int \<Rightarrow> string" where
  "int_text i = (if i < 0 then ''-'' @ digits (nat (- i)) else digits (nat i))"

fun dtype_to_text :: "DataType \<Rightarrow> string" where
  "dtype_to_text Bool = ''bool''"
| "dtype_to_text Int32 = ''int32''"
| "dtype_to_text Int64 = ''int64''"
| "dtype_to_text Float32 = ''float32''"
| "dtype_to_text Float64 = ''float64''"
| "dtype_to_text Utf8 = ''utf8''"
| "dtype_to_text Date32 = ''date32''"
| "dtype_to_text (Decimal128 p s) = ''decimal128('' @ digits p @ '','' @ int_text s @ '')''"
| "dtype_to_text (Timestamp u (Some tz)) = ''timestamp('' @ unit_text u @ '','' @ tz @ '')''"
| "dtype_to_text (Timestamp u None) = ''timestamp('' @ unit_text u @ '')''"

text \<open>\<^verbatim>\<open>split_once\<close>: the text before and after the first occurrence of a character.\<close>

fun split_once :: "char \<Rightarrow> string \<Rightarrow> (string \<times> string) option" where
  "split_once c [] = None"
| "split_once c (x # xs) =
    (if x = c then Some ([], xs) else map_option (\<lambda>(a, b). (x # a, b)) (split_once c xs))"

definition strip_suffix_char :: "char \<Rightarrow> string \<Rightarrow> string option" where
  "strip_suffix_char c s = (if s \<noteq> [] \<and> last s = c then Some (butlast s) else None)"

definition parse_u8 :: "string \<Rightarrow> nat option" where
  "parse_u8 s = (case parse_usize s of Some v \<Rightarrow> if v < 256 then Some v else None | None \<Rightarrow> None)"

definition unit_from_text :: "string \<Rightarrow> TimeUnit option" where
  "unit_from_text a =
    (if a = ''s'' then Some Second else if a = ''ms'' then Some Millisecond
     else if a = ''us'' then Some Microsecond else if a = ''ns'' then Some Nanosecond else None)"

definition dtype_args :: "string \<Rightarrow> string \<Rightarrow> string option \<Rightarrow> DataType BoltResult" where
  "dtype_args head a b =
    (if head = ''decimal128'' then
       bindR (okOrR (parse_u8 a) OtherErr) (\<lambda>p.
       bindR (okOrR b OtherErr) (\<lambda>t.
       bindR (okOrR (parse_signed 8 t) OtherErr) (\<lambda>s. Ok (Decimal128 p s))))
     else if head = ''timestamp'' then
       bindR (okOrR (unit_from_text a) OtherErr) (\<lambda>u. Ok (Timestamp u b))
     else Err OtherErr)"

definition dtype_from_text :: "string \<Rightarrow> DataType BoltResult" where
  "dtype_from_text s =
    (if s = ''bool'' then Ok Bool
     else if s = ''int32'' then Ok Int32
     else if s = ''int64'' then Ok Int64
     else if s = ''float32'' then Ok Float32
     else if s = ''float64'' then Ok Float64
     else if s = ''utf8'' then Ok Utf8
     else if s = ''date32'' then Ok Date32
     else case strip_suffix_char (CHR '')'') s of
       None \<Rightarrow> Err OtherErr
     | Some r \<Rightarrow>
         (case split_once (CHR ''('') r of
            None \<Rightarrow> Err OtherErr
          | Some (head, args) \<Rightarrow>
              (case split_once (CHR '','') args of
                 None \<Rightarrow> dtype_args head args None
               | Some (a, b) \<Rightarrow> dtype_args head a (Some b))))"

definition columns_meta :: "Schema \<Rightarrow> ColumnMeta list" where
  "columns_meta s = map (\<lambda>f. \<lparr>col_name = name f, col_type = dtype_to_text (dtype f), col_null = nullable f\<rparr>) s"

definition table_schema :: "'s TableMeta \<Rightarrow> Schema BoltResult" where
  "table_schema t =
    mapR (\<lambda>c. bindR (dtype_from_text (col_type c)) (\<lambda>d. Ok (Field_new (col_name c) d (col_null c)))) (columns t)"

lemma split_once_append: "c \<notin> set a \<Longrightarrow> split_once c (a @ c # b) = Some (a, b)"
  by (induction a) auto

lemma split_once_None: "c \<notin> set a \<Longrightarrow> split_once c a = None"
  by (induction a) auto

lemma digits_no_comma: "CHR '','' \<notin> set (digits n)"
  using digits_parse[of n] by (auto simp: list_all_iff is_ascii_digit_def)

lemma parse_signed_int_text:
  assumes "- 128 \<le> s" "s \<le> 127"
  shows "parse_signed 8 (int_text s) = Some s"
proof -
  have d: "parse_digits (digits n) = Some (int n)" "hd (digits n) \<noteq> CHR ''+'' \<and> hd (digits n) \<noteq> CHR ''-''" for n
  proof -
    show "parse_digits (digits n) = Some (int n)" using digits_parse[of n] by (simp add: parse_digits_def)
    show "hd (digits n) \<noteq> CHR ''+'' \<and> hd (digits n) \<noteq> CHR ''-''"
      using digits_parse[of n] by (cases "digits n") (auto simp: is_ascii_digit_def)
  qed
  show ?thesis
  proof (cases "s < 0")
    case True
    then show ?thesis using assms d by (simp add: int_text_def parse_signed_def)
  next
    case False
    then obtain c r where c: "digits (nat s) = c # r" by (cases "digits (nat s)") auto
    then show ?thesis using False assms d[of "nat s"] by (auto simp: int_text_def parse_signed_def)
  qed
qed

lemma parse_u8_digits: "p < 256 \<Longrightarrow> parse_u8 (digits p) = Some p"
  by (simp add: parse_u8_def parse_usize_digits)

fun storable_type :: "DataType \<Rightarrow> bool" where
  "storable_type (Decimal128 p s) = (p < 256 \<and> - 128 \<le> s \<and> s \<le> 127)"
| "storable_type _ = True"

lemma dtype_from_args:
  assumes "CHR ''('' \<notin> set head" "CHR '','' \<notin> set a"
  shows "dtype_from_text (head @ ''('' @ a @ '')'') = dtype_args head a None"
    "dtype_from_text (head @ ''('' @ a @ '','' @ b @ '')'') = dtype_args head a (Some b)"
proof -
  have l: "last (head @ ''('' @ x @ '')'') = CHR '')''" "butlast (head @ ''('' @ x @ '')'') = head @ CHR ''('' # x" for x
    by (simp_all add: butlast_append)
  have ne: "head @ ''('' @ x @ '')'' \<notin> {''bool'', ''int32'', ''int64'', ''float32'', ''float64'', ''utf8'', ''date32''}" for x
    using l(1)[of x] by auto
  show "dtype_from_text (head @ ''('' @ a @ '')'') = dtype_args head a None"
    using ne[of a] l[of a] split_once_append[OF assms(1), of a] split_once_None[OF assms(2)]
    by (simp add: dtype_from_text_def strip_suffix_char_def)
  show "dtype_from_text (head @ ''('' @ a @ '','' @ b @ '')'') = dtype_args head a (Some b)"
    using ne[of "a @ '','' @ b"] l[of "a @ '','' @ b"] split_once_append[OF assms(1), of "a @ '','' @ b"]
      split_once_append[OF assms(2), of b]
    by (simp add: dtype_from_text_def strip_suffix_char_def)
qed

lemma dtype_text: "storable_type d \<Longrightarrow> dtype_from_text (dtype_to_text d) = Ok d"
proof (cases d rule: dtype_to_text.cases)
  case (8 p s)
  assume "storable_type d"
  then show ?thesis using dtype_from_args(2)[of "''decimal128''" "digits p" "int_text s"]
    by (simp add: 8 digits_no_comma dtype_args_def parse_u8_digits parse_signed_int_text)
next
  case (9 u tz)
  then show ?thesis using dtype_from_args(2)[of "''timestamp''" "unit_text u" tz]
    by (cases u) (simp_all add: dtype_args_def unit_from_text_def)
next
  case (10 u)
  then show ?thesis using dtype_from_args(1)[of "''timestamp''" "unit_text u"]
    by (cases u) (simp_all add: dtype_args_def unit_from_text_def)
qed (simp_all add: dtype_from_text_def)


section \<open>The file store\<close>

datatype ('b, 's) Content = Text string | Json "'s Manifest" | Batches "'b list" | Torn

record ('b, 's) Disk =
  files :: "Path \<rightharpoonup> ('b, 's) Content"
  locked :: bool
  ops_left :: nat

datatype ('b, 's) FsOp = Create Path | WriteAll Path "('b, 's) Content" | SyncAll Path | Rename Path Path | Remove Path

fun fs_effect :: "('b, 's) FsOp \<Rightarrow> (Path \<rightharpoonup> ('b, 's) Content) \<Rightarrow> (Path \<rightharpoonup> ('b, 's) Content)" where
  "fs_effect (Create p) f = f(p \<mapsto> Text [])"
| "fs_effect (WriteAll p c) f = f(p \<mapsto> c)"
| "fs_effect (SyncAll p) f = f"
| "fs_effect (Rename p q) f = f(q := f p, p := None)"
| "fs_effect (Remove p) f = f(p := None)"

text \<open>An interrupted write leaves a torn file; the other operations happen or do not.\<close>

fun fs_fault :: "('b, 's) FsOp \<Rightarrow> (Path \<rightharpoonup> ('b, 's) Content) \<Rightarrow> (Path \<rightharpoonup> ('b, 's) Content)" where
  "fs_fault (WriteAll p c) f = f(p \<mapsto> Torn)"
| "fs_fault _ f = f"

fun run_ops :: "('b, 's) FsOp list \<Rightarrow> ('b, 's) Disk \<Rightarrow> unit BoltResult \<times> ('b, 's) Disk" where
  "run_ops [] d = (Ok (), d)"
| "run_ops (op # ops) d =
    (if ops_left d = 0 then (Err OtherErr, d\<lparr>files := fs_fault op (files d)\<rparr>)
     else run_ops ops (d\<lparr>files := fs_effect op (files d), ops_left := ops_left d - 1\<rparr>))"

fun tmp_path :: "Path \<Rightarrow> Path" where
  "tmp_path PCurrent = PCurrentTmp"
| "tmp_path (PManifest v) = PManifestTmp v"
| "tmp_path p = p"

definition write_atomic :: "Path \<Rightarrow> ('b, 's) Content \<Rightarrow> ('b, 's) FsOp list" where
  "write_atomic p c = [Create (tmp_path p), WriteAll (tmp_path p) c, SyncAll (tmp_path p), Rename (tmp_path p) p]"

text \<open>\<^verbatim>\<open>format!("manifest-{:09}.json\n")\<close> and its inverse.\<close>

definition pad9 :: "nat \<Rightarrow> string" where
  "pad9 v = replicate (9 - length (digits v)) (CHR ''0'') @ digits v"

definition current_text :: "nat \<Rightarrow> string" where
  "current_text v = ''manifest-'' @ pad9 v @ ''.json'' @ [CHR 0x0A]"

definition strip_text_suffix :: "string \<Rightarrow> string \<Rightarrow> string option" where
  "strip_text_suffix p s = (if ends_with s p then Some (take (length s - length p) s) else None)"

definition parse_current :: "string \<Rightarrow> nat option" where
  "parse_current s =
    (let t = str_trim s in
     if \<not> starts_with t ''manifest-'' then None
     else case strip_text_suffix ''.json'' (drop 9 t) of
       None \<Rightarrow> None
     | Some n \<Rightarrow> parse_usize n)"

definition read_current :: "(Path \<rightharpoonup> ('b, 's) Content) \<Rightarrow> nat option BoltResult" where
  "read_current f =
    (case f PCurrent of
       None \<Rightarrow> Ok None
     | Some (Text s) \<Rightarrow> (case parse_current s of Some v \<Rightarrow> Ok (Some v) | None \<Rightarrow> Err OtherErr)
     | Some _ \<Rightarrow> Err OtherErr)"

definition read_manifest :: "(Path \<rightharpoonup> ('b, 's) Content) \<Rightarrow> nat \<Rightarrow> 's Manifest BoltResult" where
  "read_manifest f v =
    (case f (PManifest v) of
       Some (Json m) \<Rightarrow> if m_format m > FORMAT_VERSION then Err PlanErr else Ok m
     | _ \<Rightarrow> Err OtherErr)"

section \<open>The catalog\<close>

record 's Catalog =
  manifest :: "'s Manifest"
  holds_lock :: bool
  txn_base :: "'s Manifest option"

type_synonym ('b, 's) CatState = "'s Catalog \<times> ('b, 's) Disk"
type_synonym ('a, 'b, 's) act = "('b, 's) CatState \<Rightarrow> 'a BoltResult \<times> ('b, 's) CatState"

definition bindA :: "('a, 'b, 's) act \<Rightarrow> ('a \<Rightarrow> ('c, 'b, 's) act) \<Rightarrow> ('c, 'b, 's) act" where
  "bindA m f st = (case m st of (Inl e, st') \<Rightarrow> (Err e, st') | (Inr x, st') \<Rightarrow> f x st')"

definition okA :: "'a \<Rightarrow> ('a, 'b, 's) act" where "okA x st = (Ok x, st)"
definition errA :: "BoltError \<Rightarrow> ('a, 'b, 's) act" where "errA e st = (Err e, st)"
definition guardA :: "bool \<Rightarrow> BoltError \<Rightarrow> (unit, 'b, 's) act" where "guardA p e = (if p then okA () else errA e)"
definition getA :: "('s Manifest, 'b, 's) act" where "getA st = (Ok (manifest (fst st)), st)"

definition open_files :: "(Path \<rightharpoonup> ('b, 's) Content) \<Rightarrow> 's Manifest BoltResult" where
  "open_files f =
    bindR (read_current f) (\<lambda>cur. case cur of Some n \<Rightarrow> read_manifest f n | None \<Rightarrow> Ok manifest_empty)"

definition open_catalog :: "('b, 's) Disk \<Rightarrow> 's Catalog BoltResult \<times> ('b, 's) Disk" where
  "open_catalog d =
    (if locked d then (Err PlanErr, d)
     else case open_files (files d) of
       Inl e \<Rightarrow> (Err e, d)
     | Inr m \<Rightarrow> (Ok \<lparr>manifest = m, holds_lock = True, txn_base = None\<rparr>, d\<lparr>locked := True\<rparr>))"

definition open_snapshot :: "('b, 's) Disk \<Rightarrow> nat \<Rightarrow> 's Catalog BoltResult" where
  "open_snapshot d version =
    bindR (if version = 0 then Ok manifest_empty else read_manifest (files d) version) (\<lambda>m.
    Ok \<lparr>manifest = m, holds_lock = False, txn_base = None\<rparr>)"

definition require :: "string \<Rightarrow> ('s TableMeta, 'b, 's) act" where
  "require nm st = (okOrR (m_tables (manifest (fst st)) nm) PlanErr, st)"

definition writable :: "(unit, 'b, 's) act" where
  "writable st = (if holds_lock (fst st) then Ok () else Err PlanErr, st)"

definition managed :: "'s TableMeta \<Rightarrow> (unit, 'b, 's) act" where
  "managed t = guardA (table_kind t = Managed) PlanErr"

definition name_free :: "string \<Rightarrow> (unit, 'b, 's) act" where
  "name_free nm st =
    (if nm \<in> dom (m_tables (manifest (fst st))) \<or> nm \<in> dom (m_views (manifest (fst st))) then Err PlanErr else Ok (), st)"

definition publish :: "'s Manifest \<Rightarrow> ('b, 's) FsOp list" where
  "publish m = write_atomic (PManifest (m_version m)) (Json m) @ write_atomic PCurrent (Text (current_text (m_version m)))"

definition commit :: "'s Manifest \<Rightarrow> (unit, 'b, 's) act" where
  "commit nxt st =
    (let (c, d) = st; nxt = nxt\<lparr>m_format := FORMAT_VERSION\<rparr> in
     case txn_base c of
       Some base \<Rightarrow> (Ok (), (c\<lparr>manifest := nxt\<lparr>m_version := m_version base + 1\<rparr>\<rparr>, d))
     | None \<Rightarrow>
         let nxt = nxt\<lparr>m_version := m_version (manifest c) + 1\<rparr> in
         (case run_ops (publish nxt) d of
            (Inl e, d') \<Rightarrow> (Err e, (c, d'))
          | (Inr _, d') \<Rightarrow> (Ok (), (c\<lparr>manifest := nxt\<rparr>, d'))))"

section \<open>Data files\<close>

record ('b, 's) Parquet =
  num_rows :: "'b \<Rightarrow> nat"
  size_of :: "'b list \<Rightarrow> nat"
  stats_of :: "'b list \<Rightarrow> 's"
  cluster :: "string list \<Rightarrow> 'b list \<Rightarrow> 'b list BoltResult"

fun first_unused :: "(nat \<Rightarrow> bool) \<Rightarrow> nat \<Rightarrow> nat \<Rightarrow> nat option" where
  "first_unused used k n =
    (if n = 0 then None else if used k then first_unused used (Suc k) (n - 1) else Some k)"

declare first_unused.simps [simp del]

definition write_files :: "('b, 's) Parquet \<Rightarrow> nat \<Rightarrow> nat \<Rightarrow> 'b list \<Rightarrow> ('s DataFile list, 'b, 's) act" where
  "write_files P tid version batches st =
    (let (c, d) = st; bs = filter (\<lambda>b. num_rows P b > 0) batches in
     if bs = [] then (Ok [], st)
     else case first_unused (\<lambda>k. files d (PData tid version k) \<noteq> None) 0 (2 ^ 32) of
       None \<Rightarrow> (Err OtherErr, st)
     | Some k \<Rightarrow>
         (case run_ops [WriteAll (PData tid version k) (Batches bs)] d of
            (Inl e, d') \<Rightarrow> (Err e, (c, d'))
          | (Inr _, d') \<Rightarrow>
              (Ok [\<lparr>file_path = PData tid version k, file_rows = (\<Sum>b \<leftarrow> bs. num_rows P b),
                   file_bytes = size_of P bs, file_stats = stats_of P bs\<rparr>], (c, d'))))"

definition read_data :: "(Path \<rightharpoonup> ('b, 's) Content) \<Rightarrow> 's DataFile \<Rightarrow> 'b list BoltResult" where
  "read_data f df = (case f (file_path df) of Some (Batches bs) \<Rightarrow> Ok bs | _ \<Rightarrow> Err OtherErr)"

definition read_table :: "(Path \<rightharpoonup> ('b, 's) Content) \<Rightarrow> 's TableMeta \<Rightarrow> 'b list BoltResult" where
  "read_table f t = bindR (mapR (read_data f) (data_files t)) (\<lambda>bss. Ok (concat bss))"


section \<open>Statements\<close>

definition put_table :: "string \<Rightarrow> 's TableMeta \<Rightarrow> 's Manifest \<Rightarrow> 's Manifest" where
  "put_table nm t m = m\<lparr>m_tables := (m_tables m)(nm \<mapsto> t)\<rparr>"

definition create_table :: "('b, 's) Parquet \<Rightarrow> string \<Rightarrow> Schema \<Rightarrow> 'b list \<Rightarrow> (unit, 'b, 's) act" where
  "create_table P nm sch batches =
    bindA writable (\<lambda>_. bindA (name_free nm) (\<lambda>_. bindA getA (\<lambda>m.
    bindA (write_files P (next_table_id m) (m_version m + 1) batches) (\<lambda>fs.
    commit (put_table nm
      \<lparr>table_id = next_table_id m, table_kind = Managed, columns = columns_meta sch, data_files = fs,
       table_version = 1, analyzed = None, cluster_by = []\<rparr>
      (m\<lparr>next_table_id := next_table_id m + 1\<rparr>))))))"

text \<open>\<open>external\<close> is the schema the Parquet reader finds at the location, or its error.\<close>

definition create_external_table :: "string \<Rightarrow> string \<Rightarrow> Schema BoltResult \<Rightarrow> (unit, 'b, 's) act" where
  "create_external_table nm location external =
    bindA writable (\<lambda>_. bindA (name_free nm) (\<lambda>_. bindA (\<lambda>st. (external, st)) (\<lambda>sch. bindA getA (\<lambda>m.
    commit (put_table nm
      \<lparr>table_id = next_table_id m, table_kind = External location, columns = columns_meta sch, data_files = [],
       table_version = 1, analyzed = None, cluster_by = []\<rparr>
      (m\<lparr>next_table_id := next_table_id m + 1\<rparr>))))))"

definition append_rows :: "('b, 's) Parquet \<Rightarrow> string \<Rightarrow> 'b list \<Rightarrow> (unit, 'b, 's) act" where
  "append_rows P nm batches =
    bindA writable (\<lambda>_. bindA (require nm) (\<lambda>t. bindA (managed t) (\<lambda>_. bindA getA (\<lambda>m.
    bindA (write_files P (table_id t) (m_version m + 1) batches) (\<lambda>fs.
    if fs = [] then okA ()
    else commit (put_table nm (t\<lparr>data_files := data_files t @ fs, table_version := table_version t + 1, analyzed := None\<rparr>) m))))))"

definition truncate_table :: "string \<Rightarrow> (unit, 'b, 's) act" where
  "truncate_table nm =
    bindA writable (\<lambda>_. bindA (require nm) (\<lambda>t. bindA (managed t) (\<lambda>_. bindA getA (\<lambda>m.
    commit (put_table nm (t\<lparr>data_files := [], table_version := table_version t + 1, analyzed := None\<rparr>) m)))))"

definition drop_table :: "string \<Rightarrow> (unit, 'b, 's) act" where
  "drop_table nm =
    bindA writable (\<lambda>_. bindA (require nm) (\<lambda>_. bindA getA (\<lambda>m.
    commit (m\<lparr>m_tables := (m_tables m)(nm := None)\<rparr>))))"

definition set_statistics :: "string \<Rightarrow> 's \<Rightarrow> (unit, 'b, 's) act" where
  "set_statistics nm stats =
    bindA writable (\<lambda>_. bindA (require nm) (\<lambda>t. bindA getA (\<lambda>m.
    commit (put_table nm (t\<lparr>analyzed := Some stats\<rparr>) m))))"

definition compact :: "('b, 's) Parquet \<Rightarrow> string \<Rightarrow> string list option \<Rightarrow> (nat \<times> nat, 'b, 's) act" where
  "compact P nm key_arg =
    bindA writable (\<lambda>_. bindA (require nm) (\<lambda>t. bindA (managed t) (\<lambda>_.
    let key = (case key_arg of Some k \<Rightarrow> k | None \<Rightarrow> cluster_by t);
        before = length (data_files t);
        resort = (key_arg \<noteq> None \<and> key \<noteq> [])
    in if before \<le> 1 \<and> \<not> resort then okA (before, before)
       else bindA (\<lambda>st. (read_table (files (snd st)) t, st)) (\<lambda>batches.
            bindA (\<lambda>st. (if key \<noteq> [] \<and> batches \<noteq> [] then cluster P key batches else Ok batches, st)) (\<lambda>batches.
            bindA getA (\<lambda>m.
            bindA (write_files P (table_id t) (m_version m + 1) batches) (\<lambda>fs.
            bindA (commit (put_table nm (t\<lparr>data_files := fs, cluster_by := key\<rparr>) m)) (\<lambda>_.
            okA (before, length fs)))))))))"

definition rewrite_files :: "('b, 's) Parquet \<Rightarrow> string \<Rightarrow> Path list \<Rightarrow> 'b list \<Rightarrow> (unit, 'b, 's) act" where
  "rewrite_files P nm remove add =
    bindA writable (\<lambda>_. bindA (require nm) (\<lambda>t. bindA (managed t) (\<lambda>_. bindA getA (\<lambda>m.
    bindA (write_files P (table_id t) (m_version m + 1) add) (\<lambda>fs.
    commit (put_table nm
      (t\<lparr>data_files := filter (\<lambda>f. file_path f \<notin> set remove) (data_files t) @ fs,
         cluster_by := (if fs \<noteq> [] then [] else cluster_by t),
         table_version := table_version t + 1, analyzed := None\<rparr>) m))))))"

definition replace_table :: "('b, 's) Parquet \<Rightarrow> string \<Rightarrow> Schema \<Rightarrow> 'b list \<Rightarrow> string list \<Rightarrow> (unit, 'b, 's) act" where
  "replace_table P nm sch batches key =
    bindA writable (\<lambda>_. bindA (require nm) (\<lambda>t. bindA (managed t) (\<lambda>_. bindA getA (\<lambda>m.
    bindA (write_files P (table_id t) (m_version m + 1) batches) (\<lambda>fs.
    commit (put_table nm
      (t\<lparr>columns := columns_meta sch, data_files := fs, cluster_by := key,
         table_version := table_version t + 1, analyzed := None\<rparr>) m))))))"

definition reads_table :: "'s Manifest \<Rightarrow> string \<Rightarrow> bool" where
  "reads_table m nm \<longleftrightarrow> (\<exists>v \<in> ran (m_views m). nm \<in> set (dependencies v))"

definition rename_table :: "string \<Rightarrow> string \<Rightarrow> (unit, 'b, 's) act" where
  "rename_table old new =
    bindA writable (\<lambda>_. bindA (require old) (\<lambda>t. bindA (name_free new) (\<lambda>_. bindA getA (\<lambda>m.
    bindA (guardA (\<not> reads_table m old) PlanErr) (\<lambda>_.
    commit (put_table new (t\<lparr>table_version := table_version t + 1\<rparr>) (m\<lparr>m_tables := (m_tables m)(old := None)\<rparr>)))))))"

definition put_view :: "string \<Rightarrow> ViewMeta \<Rightarrow> (unit, 'b, 's) act" where
  "put_view nm v =
    bindA writable (\<lambda>_. bindA getA (\<lambda>m. commit (m\<lparr>m_views := (m_views m)(nm \<mapsto> v)\<rparr>)))"

definition remove_view :: "string \<Rightarrow> (unit, 'b, 's) act" where
  "remove_view nm =
    bindA writable (\<lambda>_. bindA getA (\<lambda>m. commit (m\<lparr>m_views := (m_views m)(nm := None)\<rparr>)))"

definition replace_contents :: "('b, 's) Parquet \<Rightarrow> string \<Rightarrow> 'b list \<Rightarrow> (unit, 'b, 's) act" where
  "replace_contents P nm batches =
    bindA writable (\<lambda>_. bindA (require nm) (\<lambda>t. bindA getA (\<lambda>m.
    bindA (write_files P (table_id t) (m_version m + 1) batches) (\<lambda>fs.
    commit (put_table nm (t\<lparr>data_files := fs, table_version := table_version t + 1, analyzed := None\<rparr>) m)))))"

section \<open>Transactions\<close>

definition begin_txn :: "(unit, 'b, 's) act" where
  "begin_txn =
    bindA writable (\<lambda>_ st.
      if txn_base (fst st) \<noteq> None then (Err PlanErr, st)
      else (Ok (), ((fst st)\<lparr>txn_base := Some (manifest (fst st))\<rparr>, snd st)))"

definition commit_transaction :: "(unit, 'b, 's) act" where
  "commit_transaction st =
    (let (c, d) = st in
     case txn_base c of
       None \<Rightarrow> (Err PlanErr, st)
     | Some base \<Rightarrow>
         if manifest c = base then (Ok (), (c\<lparr>txn_base := None\<rparr>, d))
         else commit (manifest c) (c\<lparr>manifest := base, txn_base := None\<rparr>, d))"

definition rollback_transaction :: "(unit, 'b, 's) act" where
  "rollback_transaction st =
    (let (c, d) = st in
     case txn_base c of
       None \<Rightarrow> (Err PlanErr, st)
     | Some base \<Rightarrow> (Ok (), (c\<lparr>manifest := base, txn_base := None\<rparr>, d)))"

text \<open>The three-way merge of \<open>commit_concurrent\<close>: an entry the transaction changed must not have been changed
  by a later commit.\<close>

definition merge_conflict :: "(string \<rightharpoonup> 'v) \<Rightarrow> (string \<rightharpoonup> 'v) \<Rightarrow> (string \<rightharpoonup> 'v) \<Rightarrow> string \<Rightarrow> bool" where
  "merge_conflict base work committed nm \<longleftrightarrow> base nm \<noteq> work nm \<and> committed nm \<noteq> base nm"

definition merge_entries :: "(string \<rightharpoonup> 'v) \<Rightarrow> (string \<rightharpoonup> 'v) \<Rightarrow> (string \<rightharpoonup> 'v) \<Rightarrow> string list
    \<Rightarrow> (string \<rightharpoonup> 'v) BoltResult" where
  "merge_entries base work committed names =
    foldR (\<lambda>nxt nm.
      if base nm = work nm then Ok nxt
      else if committed nm \<noteq> base nm then Err PlanErr
      else Ok (nxt(nm := work nm))) committed names"

text \<open>\<open>names\<close> and \<open>views\<close> enumerate the keys of base and work, in the order of the B-tree.\<close>

definition commit_concurrent :: "string list \<Rightarrow> string list \<Rightarrow> 's Manifest \<Rightarrow> (unit, 'b, 's) act" where
  "commit_concurrent names views committed st =
    (let (c, d) = st in
     case txn_base c of
       None \<Rightarrow> (Err PlanErr, st)
     | Some base \<Rightarrow>
         let work = manifest c; c' = c\<lparr>manifest := committed, txn_base := None\<rparr> in
         (case merge_entries (m_tables base) (m_tables work) (m_tables committed) names of
            Inl e \<Rightarrow> (Err e, (c', d))
          | Inr ts \<Rightarrow>
              (case merge_entries (m_views base) (m_views work) (m_views committed) views of
                 Inl e \<Rightarrow> (Err e, (c', d))
               | Inr vs \<Rightarrow>
                   let nxt = committed\<lparr>m_tables := ts, m_views := vs,
                         next_table_id := max (next_table_id committed) (next_table_id work)\<rparr>
                   in if nxt = committed then (Ok (), (c', d)) else commit nxt (c', d))))"

section \<open>Vacuum\<close>

text \<open>\<open>snaps\<close> is the ascending list of the manifests in the directory, \<open>data\<close> the list of the data files.\<close>

definition referenced :: "'s Manifest \<Rightarrow> Path set" where
  "referenced m = {file_path f | t f. t \<in> ran (m_tables m) \<and> f \<in> set (data_files t)}"

fun snapshot_refs :: "'s Catalog \<Rightarrow> (Path \<rightharpoonup> ('b, 's) Content) \<Rightarrow> nat list \<Rightarrow> Path set BoltResult" where
  "snapshot_refs c f [] = Ok {}"
| "snapshot_refs c f (v # vs) =
    bindR (if v = m_version (manifest c) then Ok (manifest c) else read_manifest f v) (\<lambda>m.
    bindR (snapshot_refs c f vs) (\<lambda>r. Ok (referenced m \<union> r)))"

text \<open>Failures of \<^verbatim>\<open>remove_file\<close> are ignored by the code: a file is removed or it stays.\<close>

fun remove_all :: "Path list \<Rightarrow> ('b, 's) Disk \<Rightarrow> ('b, 's) Disk" where
  "remove_all [] d = d"
| "remove_all (p # ps) d =
    (if ops_left d = 0 then d
     else remove_all ps (d\<lparr>files := fs_effect (Remove p) (files d), ops_left := ops_left d - 1\<rparr>))"

definition vacuum :: "nat \<Rightarrow> nat list \<Rightarrow> Path list \<Rightarrow> (unit, 'b, 's) act" where
  "vacuum keep_snapshots snaps data =
    bindA writable (\<lambda>_ st.
      let (c, d) = st in
      if txn_base c \<noteq> None then (Err PlanErr, st)
      else let keep = max keep_snapshots 1;
               cut = length snaps - keep;
               d = remove_all (map PManifest (filter (\<lambda>v. v \<noteq> m_version (manifest c)) (take cut snaps))) d
           in case snapshot_refs c (files d) (filter (\<lambda>v. files d (PManifest v) \<noteq> None) snaps) of
                Inl e \<Rightarrow> (Err e, (c, d))
              | Inr refs \<Rightarrow> (Ok (), (c, remove_all (filter (\<lambda>p. p \<notin> refs) data) d)))"

end
