(* ===== verification/Catalog_Safety.thy ===== *)
theory Catalog_Safety
  imports Catalog
begin

text \<open>
  Crash safety and transaction semantics of the catalog.  The interface between the catalog and the
  file store is the locale \<open>snapshot_store\<close> (a published snapshot is seen entirely or not at all),
  interpreted on the file operations of \<open>commit\<close>; the invariant of the catalog is kept by every
  statement, with a fault or a crash at any file operation.
\<close>

named_theorems action_rules "what the primitive actions of the catalog establish"

section \<open>CURRENT names a snapshot\<close>

lemma parse_digits_pad: "parse_digits (replicate n (CHR ''0'') @ digits v) = Some (int v)"
proof -
  have z: "is_ascii_digit (CHR ''0'')" "digit_value (CHR ''0'') = 0" by code_simp+
  have "foldl (\<lambda>v c. v * 10 + digit_value c) 0 (replicate n (CHR ''0'')) = 0" by (induction n) (simp_all add: z)
  then show ?thesis using digits_parse[of v] z(1) by (auto simp: parse_digits_def list_all_iff)
qed

lemma pad9_digits: "list_all is_ascii_digit (pad9 v)" "pad9 v \<noteq> []"
  using digits_parse[of v] by (auto simp: pad9_def list_all_iff) code_simp

lemma parse_pad9: "parse_usize (pad9 v) = (if v < 2 ^ 64 then Some v else None)"
proof -
  obtain c r where c: "pad9 v = c # r" using pad9_digits(2)[of v] by (cases "pad9 v") auto
  then have "is_ascii_digit c" using pad9_digits(1)[of v] by simp
  then have "c \<noteq> CHR ''+''" by (auto simp: is_ascii_digit_def)
  then show ?thesis using c parse_digits_pad[of "9 - length (digits v)" v] by (simp add: parse_usize_def pad9_def)
qed

lemma parse_current_text: "parse_current (current_text v) = (if v < 2 ^ 64 then Some v else None)"
proof -
  have trim: "str_trim (current_text v) = ''manifest-'' @ pad9 v @ ''.json''"
    by (simp add: str_trim_def trim_matches_def trim_start_matches_def trim_end_matches_def current_text_def is_whitespace_def)
  have "ends_with (pad9 v @ ''.json'') ''.json''" by (simp add: ends_with_def starts_with_iff)
  then show ?thesis using parse_pad9[of v]
    by (simp add: parse_current_def trim strip_text_suffix_def starts_with_iff)
qed


section \<open>Publishing a snapshot\<close>

text \<open>The interface: a publication that reports success is what a reader sees next, and one that fails
  leaves the reader's view unchanged.\<close>

locale snapshot_store =
  fixes publish_to :: "'m \<Rightarrow> 'd \<Rightarrow> bool \<times> 'd" and latest :: "'d \<Rightarrow> 'm option"
    and usable :: "'d \<Rightarrow> bool" and fits :: "'d \<Rightarrow> 'm \<Rightarrow> bool"
  assumes publish_law: "usable d \<Longrightarrow> fits d m \<Longrightarrow> publish_to m d = (ok, d') \<Longrightarrow>
      usable d' \<and> latest d' = (if ok then Some m else latest d)"
begin

lemma failed_publish: "usable d \<Longrightarrow> fits d m \<Longrightarrow> publish_to m d = (False, d') \<Longrightarrow> usable d' \<and> latest d' = latest d"
  using publish_law[of d m False d'] by simp

lemma retry_publish:
  assumes "usable d" "fits d m" "publish_to m d = (False, d')" "fits d' m'" "publish_to m' d' = (True, d'')"
  shows "latest d'' = Some m'"
  using failed_publish[OF assms(1-3)] publish_law[OF _ assms(4,5)] by simp

end

lemma tmp_path_distinct [simp]:
  "tmp_path PCurrent \<noteq> PCurrent" "tmp_path (PManifest v) \<noteq> PManifest w" "tmp_path (PManifest v) \<noteq> PCurrent"
  "tmp_path PCurrent \<noteq> PManifest w" "tmp_path (PManifest v) \<noteq> PData a b c" "tmp_path PCurrent \<noteq> PData a b c"
  by simp_all

text \<open>An atomic write happens or touches only the temporary file.\<close>

lemma write_atomic_cases:
  assumes "run_ops (write_atomic p c @ ops) d = (r, d')"
  shows "isl r \<and> locked d' = locked d \<and> (\<forall>q. q \<noteq> tmp_path p \<longrightarrow> files d' q = files d q)
    \<or> (\<exists>n. run_ops ops (d\<lparr>files := (files d)(p \<mapsto> c, tmp_path p := None), ops_left := n\<rparr>) = (r, d'))"
proof -
  let ?n = "ops_left d"
  have "?n = 0 \<or> ?n = 1 \<or> ?n = 2 \<or> ?n = 3 \<or> (\<exists>n. ?n = Suc (Suc (Suc (Suc n))))" by presburger
  then show ?thesis
  proof (elim disjE exE)
    fix n assume "?n = Suc (Suc (Suc (Suc n)))"
    then have "run_ops ops (d\<lparr>files := (files d)(p \<mapsto> c, tmp_path p := None), ops_left := n\<rparr>) = (r, d')"
      using assms by (simp add: write_atomic_def fun_upd_twist)
    then show ?thesis by blast
  qed (use assms in \<open>auto simp: write_atomic_def\<close>)
qed


definition same_except :: "Path set \<Rightarrow> (Path \<rightharpoonup> ('b, 's) Content) \<Rightarrow> (Path \<rightharpoonup> ('b, 's) Content) \<Rightarrow> bool" where
  "same_except A f g \<longleftrightarrow> (\<forall>q. q \<notin> A \<longrightarrow> g q = f q)"

lemma publish_cases:
  assumes "run_ops (publish m) d = (r, d')"
  shows "isl r \<and> same_except {PManifestTmp (m_version m), PCurrentTmp, PManifest (m_version m)} (files d) (files d')
      \<and> files d' (PManifest (m_version m)) \<in> {files d (PManifest (m_version m)), Some (Json m)}
    \<or> \<not> isl r \<and> same_except {PManifestTmp (m_version m), PCurrentTmp, PManifest (m_version m), PCurrent} (files d) (files d')
      \<and> files d' (PManifest (m_version m)) = Some (Json m) \<and> files d' PCurrent = Some (Text (current_text (m_version m)))"
proof -
  let ?v = "m_version m"
  from write_atomic_cases[OF assms[unfolded publish_def]]
  consider "isl r" "\<forall>q. q \<noteq> PManifestTmp ?v \<longrightarrow> files d' q = files d q"
    | n where "run_ops (write_atomic PCurrent (Text (current_text ?v)) @ [])
        (d\<lparr>files := (files d)(PManifest ?v \<mapsto> Json m, PManifestTmp ?v := None), ops_left := n\<rparr>) = (r, d')" by auto
  then show ?thesis
  proof cases
    case 1
    then show ?thesis by (simp add: same_except_def)
  next
    case 2
    from write_atomic_cases[OF 2] show ?thesis
    proof (elim disjE exE)
      fix k assume "run_ops [] (d\<lparr>files := (files d)(PManifest ?v \<mapsto> Json m, PManifestTmp ?v := None), ops_left := n,
          files := (files (d\<lparr>files := (files d)(PManifest ?v \<mapsto> Json m, PManifestTmp ?v := None), ops_left := n\<rparr>))
            (PCurrent \<mapsto> Text (current_text ?v), tmp_path PCurrent := None), ops_left := k\<rparr>) = (r, d')"
      then show ?thesis by (auto simp: same_except_def)
    qed (simp add: same_except_def)
  qed
qed

definition publish_manifest :: "'s Manifest \<Rightarrow> ('b, 's) Disk \<Rightarrow> bool \<times> ('b, 's) Disk" where
  "publish_manifest m d = (\<not> isl (fst (run_ops (publish m) d)), snd (run_ops (publish m) d))"

definition latest_manifest :: "('b, 's) Disk \<Rightarrow> 's Manifest option" where
  "latest_manifest d = (case open_files (files d) of Inr m \<Rightarrow> Some m | Inl _ \<Rightarrow> None)"

definition disk_usable :: "('b, 's) Disk \<Rightarrow> bool" where
  "disk_usable d \<longleftrightarrow> \<not> isl (open_files (files d))"

definition manifest_fits :: "('b, 's) Disk \<Rightarrow> 's Manifest \<Rightarrow> bool" where
  "manifest_fits d m \<longleftrightarrow> m_format m \<le> FORMAT_VERSION \<and> m_version m < 2 ^ 64 \<and> read_current (files d) \<noteq> Ok (Some (m_version m))"

lemma open_files_cong:
  assumes "g PCurrent = f PCurrent" "\<And>v. read_current f = Ok (Some v) \<Longrightarrow> g (PManifest v) = f (PManifest v)"
  shows "open_files g = open_files f"
proof -
  have c: "read_current g = read_current f" using assms(1) by (simp add: read_current_def)
  show ?thesis
  proof (cases "read_current f")
    case (Inr x)
    then show ?thesis using c assms(2) by (cases x) (simp_all add: open_files_def read_manifest_def)
  qed (simp add: open_files_def c)
qed

lemma open_published:
  assumes "f PCurrent = Some (Text (current_text (m_version m)))" "f (PManifest (m_version m)) = Some (Json m)"
    "m_version m < 2 ^ 64" "m_format m \<le> FORMAT_VERSION"
  shows "open_files f = Ok m"
  using assms by (simp add: open_files_def read_current_def read_manifest_def parse_current_text)

interpretation catalog_store: snapshot_store publish_manifest latest_manifest disk_usable manifest_fits
proof
  fix d :: "('b, 's) Disk" and m ok d'
  assume d: "disk_usable d" "manifest_fits d m" "publish_manifest m d = (ok, d')"
  let ?r = "fst (run_ops (publish m) d)"
  have p: "run_ops (publish m) d = (?r, d')" "ok = (\<not> isl ?r)"
    using d(3) by (simp_all add: publish_manifest_def prod_eq_iff)
  from publish_cases[OF p(1)] have "open_files (files d') = (if ok then Ok m else open_files (files d))"
  proof
    assume a: "isl ?r \<and> same_except {PManifestTmp (m_version m), PCurrentTmp, PManifest (m_version m)} (files d) (files d')
      \<and> files d' (PManifest (m_version m)) \<in> {files d (PManifest (m_version m)), Some (Json m)}"
    then have "open_files (files d') = open_files (files d)"
      using d(2) by (intro open_files_cong) (auto simp: same_except_def manifest_fits_def)
    then show ?thesis using a p(2) by simp
  next
    assume a: "\<not> isl ?r \<and> same_except {PManifestTmp (m_version m), PCurrentTmp, PManifest (m_version m), PCurrent} (files d) (files d')
      \<and> files d' (PManifest (m_version m)) = Some (Json m) \<and> files d' PCurrent = Some (Text (current_text (m_version m)))"
    then have "open_files (files d') = Ok m"
      using d(2) by (intro open_published) (auto simp: manifest_fits_def)
    then show ?thesis using a p(2) by simp
  qed
  then show "disk_usable d' \<and> latest_manifest d' = (if ok then Some m else latest_manifest d)"
    using d(1) by (auto simp: disk_usable_def latest_manifest_def)
qed


section \<open>The invariant\<close>

definition published :: "'s Catalog \<Rightarrow> 's Manifest" where
  "published c = (case txn_base c of Some b \<Rightarrow> b | None \<Rightarrow> manifest c)"

definition file_ok :: "(Path \<rightharpoonup> ('b, 's) Content) \<Rightarrow> Path \<Rightarrow> bool" where
  "file_ok f p \<longleftrightarrow> (\<exists>a b c bs. p = PData a b c \<and> f p = Some (Batches bs))"

definition refs_ok :: "(Path \<rightharpoonup> ('b, 's) Content) \<Rightarrow> 's Manifest \<Rightarrow> bool" where
  "refs_ok f m \<longleftrightarrow> (\<forall>p \<in> referenced m. file_ok f p)"

definition ids_ok :: "'s Manifest \<Rightarrow> bool" where
  "ids_ok m \<longleftrightarrow> (\<forall>n t. m_tables m n = Some t \<longrightarrow> table_id t < next_table_id m)"

text \<open>A manifest is sound over a store when each data file it names is there in full.\<close>

definition sound_in :: "(Path \<rightharpoonup> ('b, 's) Content) \<Rightarrow> 's Manifest \<Rightarrow> bool" where
  "sound_in f m \<longleftrightarrow> refs_ok f m \<and> ids_ok m"

definition current_ok :: "(Path \<rightharpoonup> ('b, 's) Content) \<Rightarrow> 's Manifest \<Rightarrow> bool" where
  "current_ok f m \<longleftrightarrow> sound_in f m \<and> m_format m \<le> FORMAT_VERSION \<and>
    (if m_version m = 0 then f PCurrent = None \<and> m = manifest_empty
     else f PCurrent = Some (Text (current_text (m_version m))) \<and> f (PManifest (m_version m)) = Some (Json m))"

definition manifests_ok :: "(Path \<rightharpoonup> ('b, 's) Content) \<Rightarrow> bool" where
  "manifests_ok f \<longleftrightarrow> (\<forall>v x. f (PManifest v) = Some x \<longrightarrow>
    (\<exists>m. x = Json m \<and> m_version m = v \<and> 0 < v \<and> m_format m \<le> FORMAT_VERSION \<and> sound_in f m))"

text \<open>The invariant of a catalog and its directory, over what the surroundings fix: \<open>solo\<close> says that the
  catalog's own transaction is the only writer, so that its base is the snapshot on disk; \<open>others\<close> are
  further manifests somebody may still install (savepoints, transactions of other sessions);
  \<open>history\<close> is an earlier store, whose data files and whose manifests up to \<open>pinned\<close> stay as they were.\<close>

record ('b, 's) Context =
  solo :: bool
  others :: "'s Manifest set"
  pinned :: nat
  history :: "Path \<rightharpoonup> ('b, 's) Content"

definition keeps_history :: "('b, 's) Context \<Rightarrow> (Path \<rightharpoonup> ('b, 's) Content) \<Rightarrow> bool" where
  "keeps_history G f \<longleftrightarrow> (\<forall>a b k. history G (PData a b k) \<noteq> None \<longrightarrow> f (PData a b k) = history G (PData a b k))
    \<and> (\<forall>v \<le> pinned G. f (PManifest v) = history G (PManifest v))"

definition cat_inv :: "('b, 's) Context \<Rightarrow> ('b, 's) CatState \<Rightarrow> bool" where
  "cat_inv G st \<longleftrightarrow> (let (c, d) = st in manifests_ok (files d) \<and> sound_in (files d) (manifest c)
    \<and> (\<forall>m \<in> others G. sound_in (files d) m) \<and> keeps_history G (files d)
    \<and> (\<exists>cur. current_ok (files d) cur \<and> pinned G \<le> m_version cur \<and> (txn_base c = None \<or> solo G \<longrightarrow> published c = cur)))"

lemma sound_mono:
  assumes "sound_in f m" "\<And>a b c. f (PData a b c) \<noteq> None \<Longrightarrow> g (PData a b c) = f (PData a b c)"
  shows "sound_in g m"
proof -
  have "refs_ok g m" unfolding refs_ok_def
  proof
    fix p assume "p \<in> referenced m"
    then have "file_ok f p" using assms(1) by (simp add: sound_in_def refs_ok_def)
    then show "file_ok g p" using assms(2) by (fastforce simp: file_ok_def)
  qed
  then show ?thesis using assms(1) by (simp add: sound_in_def)
qed

lemma sound_version [simp]: "sound_in f (m\<lparr>m_version := v\<rparr>) = sound_in f m" "sound_in f (m\<lparr>m_format := v\<rparr>) = sound_in f m"
  by (simp_all add: sound_in_def refs_ok_def referenced_def ids_ok_def)

lemma sound_views [simp]: "sound_in f (m\<lparr>m_views := v\<rparr>) = sound_in f m"
  by (simp add: sound_in_def refs_ok_def referenced_def ids_ok_def)

lemma sound_empty [simp]: "sound_in f manifest_empty"
  by (simp add: sound_in_def refs_ok_def referenced_def ids_ok_def manifest_empty_def)

lemma manifests_ok_mono:
  assumes "manifests_ok f" "\<And>a b c. f (PData a b c) \<noteq> None \<Longrightarrow> g (PData a b c) = f (PData a b c)"
    and "\<And>v x. g (PManifest v) = Some x \<Longrightarrow> f (PManifest v) = Some x \<or>
      (\<exists>m. x = Json m \<and> m_version m = v \<and> 0 < v \<and> m_format m \<le> FORMAT_VERSION \<and> sound_in f m)"
  shows "manifests_ok g"
  unfolding manifests_ok_def
proof (intro allI impI)
  fix v x assume "g (PManifest v) = Some x"
  from assms(3)[OF this] assms(1)
  obtain m where m: "x = Json m" "m_version m = v" "0 < v" "m_format m \<le> FORMAT_VERSION" "sound_in f m"
    unfolding manifests_ok_def by blast
  then show "\<exists>m. x = Json m \<and> m_version m = v \<and> 0 < v \<and> m_format m \<le> FORMAT_VERSION \<and> sound_in g m"
    using sound_mono[OF m(5) assms(2)] by blast
qed

lemma commit_inv:
  assumes "cat_inv G (c, d)" "sound_in (files d) nxt"
  shows "cat_inv G (snd (commit nxt (c, d)))"
proof (cases "txn_base c")
  case (Some base)
  then show ?thesis using assms by (simp add: commit_def cat_inv_def published_def)
next
  case None
  let ?m = "nxt\<lparr>m_format := FORMAT_VERSION, m_version := m_version (manifest c) + 1\<rparr>"
  obtain r d' where rd: "run_ops (publish ?m) d = (r, d')" by fastforce
  have i: "current_ok (files d) (manifest c)" "manifests_ok (files d)" "\<forall>m \<in> others G. sound_in (files d) m"
      "keeps_history G (files d)" "pinned G \<le> m_version (manifest c)"
    using assms(1) None by (auto simp: cat_inv_def published_def)
  note pc = publish_cases[OF rd]
  have data: "files d' (PData a b k) = files d (PData a b k)" for a b k using pc by (auto simp: same_except_def)
  have mok: "manifests_ok (files d')"
  proof (rule manifests_ok_mono[OF i(2)])
    fix v x assume x: "files d' (PManifest v) = Some x"
    show "files d (PManifest v) = Some x \<or>
      (\<exists>m. x = Json m \<and> m_version m = v \<and> 0 < v \<and> m_format m \<le> FORMAT_VERSION \<and> sound_in (files d) m)"
    proof (cases "v = m_version ?m")
      case True
      have "x = Json ?m \<or> files d (PManifest v) = Some x" using pc x True by auto
      then show ?thesis using True assms(2) by auto
    next
      case False
      then show ?thesis using pc x by (auto simp: same_except_def)
    qed
  qed (rule data)
  have refs: "sound_in (files d') m" if "sound_in (files d) m" for m using sound_mono[OF that] data by blast
  have "files d' (PManifest v) = files d (PManifest v)" if "v \<le> pinned G" for v
    using pc i(5) that by (auto simp: same_except_def)
  then have hist: "keeps_history G (files d')" using i(4) data by (simp add: keeps_history_def)
  show ?thesis
  proof (cases r)
    case (Inl e)
    then have "current_ok (files d') (manifest c)" using pc i(1) refs by (auto simp: same_except_def current_ok_def)
    then show ?thesis using Inl None rd mok refs i hist by (simp add: commit_def cat_inv_def published_def current_ok_def)
  next
    case (Inr u)
    then have "current_ok (files d') ?m" using pc refs[OF assms(2)] by (auto simp: current_ok_def)
    then show ?thesis using Inr None rd mok refs[OF assms(2)] refs i hist
      by (simp add: commit_def cat_inv_def published_def)
  qed
qed

section \<open>Every statement keeps the invariant\<close>

text \<open>\<open>ensures I pre A post\<close>: from a state in \<open>pre\<close>, the action keeps the invariant \<open>I\<close> when it fails and
  establishes \<open>post\<close> when it succeeds.\<close>

definition ensures :: "(('b, 's) CatState \<Rightarrow> bool) \<Rightarrow> (('b, 's) CatState \<Rightarrow> bool) \<Rightarrow> ('a, 'b, 's) act
    \<Rightarrow> ('a \<Rightarrow> ('b, 's) CatState \<Rightarrow> bool) \<Rightarrow> bool" where
  "ensures I pre A post \<longleftrightarrow> (\<forall>st. pre st \<longrightarrow> (case A st of (Inr x, st') \<Rightarrow> post x st' | (Inl _, st') \<Rightarrow> I st'))"

definition keeps :: "(('b, 's) CatState \<Rightarrow> bool) \<Rightarrow> ('a, 'b, 's) act \<Rightarrow> bool" where
  "keeps I A \<longleftrightarrow> (\<forall>st. I st \<longrightarrow> I (snd (A st)))"

definition holds :: "(('b, 's) CatState \<Rightarrow> bool) \<Rightarrow> ('s Catalog \<Rightarrow> bool) \<Rightarrow> ('b, 's) CatState \<Rightarrow> bool" where
  "holds I F st \<longleftrightarrow> I st \<and> F (fst st)"

definition wrote :: "(('b, 's) CatState \<Rightarrow> bool) \<Rightarrow> ('s Catalog \<Rightarrow> bool) \<Rightarrow> 's DataFile list \<Rightarrow> ('b, 's) CatState \<Rightarrow> bool" where
  "wrote I F fs st \<longleftrightarrow> holds I F st \<and> (\<forall>f \<in> set fs. file_ok (files (snd st)) (file_path f))"

lemma ensuresD:
  "ensures I pre A post \<Longrightarrow> pre st \<Longrightarrow> (case A st of (Inr x, st') \<Rightarrow> post x st' | (Inl _, st') \<Rightarrow> I st')"
  unfolding ensures_def by (drule spec, drule mp)

lemma keepsD: "keeps I A \<Longrightarrow> I st \<Longrightarrow> I (snd (A st))"
  by (simp only: keeps_def)

lemma keepsI: "ensures I (holds I (\<lambda>_. True)) A (\<lambda>_. I) \<Longrightarrow> keeps I A"
  unfolding keeps_def
proof (intro allI impI)
  fix st assume "ensures I (holds I (\<lambda>_. True)) A (\<lambda>_. I)" "I st"
  then have "case A st of (Inr x, st') \<Rightarrow> I st' | (Inl _, st') \<Rightarrow> I st'" using ensuresD[of I "holds I (\<lambda>_. True)" A "\<lambda>_. I" st] by (simp add: holds_def)
  then show "I (snd (A st))" by (auto split: prod.splits sum.splits)
qed

lemma ensures_bind [action_rules]:
  assumes "ensures I pre m mid" "\<And>x. ensures I (mid x) (f x) post"
  shows "ensures I pre (bindA m f) post"
  unfolding ensures_def
proof (intro allI impI)
  fix st assume "pre st"
  then have m: "case m st of (Inr x, st') \<Rightarrow> mid x st' | (Inl _, st') \<Rightarrow> I st'" using ensuresD[OF assms(1)] by simp
  obtain r st' where r: "m st = (r, st')" by (cases "m st") auto
  show "case bindA m f st of (Inr x, st') \<Rightarrow> post x st' | (Inl _, st') \<Rightarrow> I st'"
  proof (cases r)
    case (Inl e)
    then show ?thesis using m r by (simp add: bindA_def)
  next
    case (Inr x)
    then have "mid x st'" using m r by simp
    then have "case f x st' of (Inr y, s) \<Rightarrow> post y s | (Inl _, s) \<Rightarrow> I s" using ensuresD[OF assms(2)] by simp
    then show ?thesis using r Inr by (simp add: bindA_def)
  qed
qed

lemma ensures_writable [action_rules]: "ensures I (holds I F) writable (\<lambda>_. holds I F)"
  by (auto simp: ensures_def writable_def holds_def)

lemma ensures_require [action_rules]:
  "ensures I (holds I F) (require nm) (\<lambda>t. holds I (\<lambda>c. F c \<and> m_tables (manifest c) nm = Some t))"
  by (auto simp: ensures_def require_def holds_def okOrR_def split: option.splits)

lemma ensures_get [action_rules]: "ensures I (holds I F) getA (\<lambda>m. holds I (\<lambda>c. F c \<and> m = manifest c))"
  by (auto simp: ensures_def getA_def holds_def)

lemma ensures_guard [action_rules]: "ensures I (holds I F) (guardA p e) (\<lambda>_. holds I F)"
  by (auto simp: ensures_def guardA_def okA_def errA_def holds_def)

lemma ensures_managed [action_rules]: "ensures I (holds I F) (managed t) (\<lambda>_. holds I F)"
  by (simp add: managed_def ensures_guard)

lemma ensures_free [action_rules]: "ensures I (holds I F) (name_free nm) (\<lambda>_. holds I F)"
  by (auto simp: ensures_def name_free_def holds_def)

lemma ensures_pure [action_rules]: "ensures I (holds I F) (\<lambda>st. (g st, st)) (\<lambda>_. holds I F)"
  by (auto simp: ensures_def holds_def split: sum.splits)

lemma ensures_ok: "(\<And>st. pre st \<Longrightarrow> post x st) \<Longrightarrow> ensures I pre (okA x) post"
  by (auto simp: ensures_def okA_def)

lemma ensures_commit:
  assumes "\<And>st. pre st \<Longrightarrow> cat_inv G st \<and> sound_in (files (snd st)) nxt"
  shows "ensures (cat_inv G) pre (commit nxt) (\<lambda>_. cat_inv G)"
  unfolding ensures_def
proof (intro allI impI)
  fix st assume "pre st"
  from assms[OF this] have "cat_inv G (snd (commit nxt st))" using commit_inv by (cases st) auto
  then show "case commit nxt st of (Inl _, st') \<Rightarrow> cat_inv G st' | (Inr _, st') \<Rightarrow> cat_inv G st'"
    by (auto split: prod.splits sum.splits)
qed

lemma first_unused_free: "first_unused used k n = Some j \<Longrightarrow> \<not> used j"
  by (induction used k n rule: first_unused.induct) (subst (asm) first_unused.simps, auto split: if_splits)

lemma add_file_inv:
  assumes "cat_inv G (c, d)" "files d (PData a b k) = None" "files d' = (files d)(PData a b k \<mapsto> x)"
  shows "cat_inv G (c, d')"
proof -
  let ?g = "(files d)(PData a b k \<mapsto> x)"
  have r: "sound_in (files d) m \<Longrightarrow> sound_in ?g m" for m using assms(2) by (erule_tac sound_mono) auto
  have "manifests_ok (files d) \<Longrightarrow> manifests_ok ?g" using assms(2) by (erule_tac manifests_ok_mono) auto
  moreover have "keeps_history G (files d) \<Longrightarrow> keeps_history G ?g"
    using assms(2) by (auto simp: keeps_history_def)
  moreover obtain cur where cur: "current_ok (files d) cur" "pinned G \<le> m_version cur" "txn_base c = None \<or> solo G \<longrightarrow> published c = cur"
    using assms(1) by (auto simp: cat_inv_def)
  moreover have "current_ok ?g cur" using cur(1) r by (auto simp: current_ok_def)
  ultimately show ?thesis using assms(1,3) r unfolding cat_inv_def Let_def prod.case by (intro conjI exI[of _ cur]) simp_all
qed

lemma write_files_cases:
  assumes "write_files P tid v bs (c, d) = (r, st')"
  shows "st' = (c, d) \<and> (isl r \<or> r = Inr []) \<or>
    (\<exists>k x d'. files d (PData tid v k) = None \<and> st' = (c, d') \<and> files d' = (files d)(PData tid v k \<mapsto> x)
      \<and> (isl r \<or> (\<exists>df bs. r = Inr [df] \<and> file_path df = PData tid v k \<and> x = Batches bs)))"
proof -
  define u where "u = first_unused (\<lambda>k. files d (PData tid v k) \<noteq> None) 0 (2 ^ 32)"
  note w = assms[unfolded write_files_def Let_def prod.case u_def[symmetric]]
  show ?thesis
  proof (cases u)
    case None
    then show ?thesis using w by (auto split: if_splits)
  next
    case (Some k)
    then have "files d (PData tid v k) = None" using first_unused_free[of "\<lambda>k. files d (PData tid v k) \<noteq> None" 0 "2 ^ 32" k]
      by (simp only: u_def simp_thms not_not)
    note free = this
    let ?bs = "filter (\<lambda>b. num_rows P b > 0) bs"
    consider "?bs = []" | "?bs \<noteq> []" "ops_left d = 0" | "?bs \<noteq> []" "ops_left d \<noteq> 0" by blast
    then show ?thesis
    proof cases
      case 1
      then show ?thesis using w Some by simp
    next
      case 2
      then show ?thesis using w Some free by (intro disjI2 exI[of _ k] exI[of _ Torn] exI[of _ "snd st'"]) auto
    next
      case 3
      then show ?thesis using w Some free by (intro disjI2 exI[of _ k] exI[of _ "Batches ?bs"] exI[of _ "snd st'"]) auto
    qed
  qed
qed

lemma ensures_write [action_rules]:
  fixes P :: "('b, 's) Parquet"
  shows "ensures (cat_inv G) (holds (cat_inv G) F) (write_files P tid v bs) (wrote (cat_inv G) F)"
  unfolding ensures_def
proof (intro allI impI)
  fix st :: "('b, 's) CatState" assume st: "holds (cat_inv G) F st"
  obtain c d where cd: "st = (c, d)" by (cases st) auto
  obtain r st' where r: "write_files P tid v bs (c, d) = (r, st')" by (cases "write_files P tid v bs (c, d)") auto
  from write_files_cases[OF r]
  show "case write_files P tid v bs st of (Inl _, st') \<Rightarrow> cat_inv G st' | (Inr x, st') \<Rightarrow> wrote (cat_inv G) F x st'"
  proof (elim disjE exE conjE)
    fix k x d' assume a: "files d (PData tid v k) = None" "st' = (c, d')" "files d' = (files d)(PData tid v k \<mapsto> x)"
    then have "cat_inv G (c, d')" using st add_file_inv[of G c d] by (simp add: cd holds_def)
    then show ?thesis if "isl r" using that r a(2) cd by (auto simp: isl_def)
    show ?thesis if "r = Inr [df]" "file_path df = PData tid v k" "x = Batches bs" for df bs
      using that r a cd st \<open>cat_inv G (c, d')\<close> by (simp add: wrote_def holds_def file_ok_def)
  qed (use st r cd in \<open>auto simp: isl_def wrote_def holds_def\<close>)
qed

lemma sound_iff: "sound_in f m \<longleftrightarrow> (\<forall>nm t. m_tables m nm = Some t \<longrightarrow>
    table_id t < next_table_id m \<and> (\<forall>df \<in> set (data_files t). file_ok f (file_path df)))"
  by (auto simp: sound_in_def refs_ok_def referenced_def ids_ok_def ran_def)

lemma sound_put:
  assumes "sound_in f m" "table_id t' < next_table_id m" "\<And>df. df \<in> set (data_files t') \<Longrightarrow> file_ok f (file_path df)"
  shows "sound_in f (put_table nm t' m)"
  using assms by (auto simp: sound_iff put_table_def)

lemma sound_next: "sound_in f m \<Longrightarrow> sound_in f (m\<lparr>next_table_id := Suc (next_table_id m)\<rparr>)"
  by (auto simp: sound_iff less_Suc_eq)

lemma sound_drop: "sound_in f m \<Longrightarrow> sound_in f (m\<lparr>m_tables := (m_tables m)(nm := None)\<rparr>)"
  by (auto simp: sound_iff)

lemma table_id_less: "sound_in f m \<Longrightarrow> m_tables m nm = Some t \<Longrightarrow> table_id t < next_table_id m"
  by (auto simp: sound_iff)

lemma table_file_ok:
  assumes "sound_in f m" "m_tables m nm = Some t" "df \<in> set (data_files t)"
  shows "file_ok f (file_path df)"
  using assms by (auto simp: sound_iff)

lemma inv_manifest: "cat_inv G st \<Longrightarrow> sound_in (files (snd st)) (manifest (fst st))"
  by (auto simp: cat_inv_def split: prod.splits)

lemma statement_sound:
  assumes "cat_inv G (c, d)" "m_tables (manifest c) nm = Some t" "table_id t' = table_id t"
    and "\<forall>df \<in> set (data_files t'). df \<in> set (data_files t) \<or> file_ok (files d) (file_path df)"
  shows "sound_in (files d) (put_table nm t' (manifest c))"
proof (rule sound_put)
  have s: "sound_in (files d) (manifest c)" using inv_manifest[OF assms(1)] by simp
  then show "sound_in (files d) (manifest c)" .
  show "table_id t' < next_table_id (manifest c)" using table_id_less[OF s assms(2)] assms(3) by simp
  show "file_ok (files d) (file_path df)" if "df \<in> set (data_files t')" for df
    using assms(4) that table_file_ok[OF s assms(2)] by blast
qed

lemma inv_sound: "cat_inv G (c, d) \<Longrightarrow> sound_in (files d) (manifest c)"
  using inv_manifest[of G "(c, d)"] by simp

lemmas statement_simps = wrote_def holds_def

lemma keep_append: "keeps (cat_inv G) (append_rows P nm bs)"
  unfolding append_rows_def
  by (rule keepsI, (rule action_rules)+, auto simp: statement_simps intro!: ensures_ok ensures_commit; erule (1) statement_sound; auto)

lemma keep_create: "keeps (cat_inv G) (create_table P nm sch bs)"
  unfolding create_table_def
  by (rule keepsI, (rule action_rules)+)
    (auto simp: statement_simps intro!: ensures_commit sound_put sound_next intro: inv_sound)

lemma keep_create_external: "keeps (cat_inv G) (create_external_table nm loc ext)"
  unfolding create_external_table_def
  by (rule keepsI, (rule action_rules)+)
    (auto simp: statement_simps intro!: ensures_commit sound_put sound_next intro: inv_sound)

lemma keep_truncate: "keeps (cat_inv G) (truncate_table nm)"
  unfolding truncate_table_def
  by (rule keepsI, (rule action_rules)+, auto simp: statement_simps intro!: ensures_commit; erule (1) statement_sound; auto)

lemma keep_drop: "keeps (cat_inv G) (drop_table nm)"
  unfolding drop_table_def
  by (rule keepsI, (rule action_rules)+) (auto simp: statement_simps intro!: ensures_commit sound_drop intro: inv_sound)

lemma keep_statistics: "keeps (cat_inv G) (set_statistics nm s)"
  unfolding set_statistics_def
  by (rule keepsI, (rule action_rules)+, auto simp: statement_simps intro!: ensures_commit; erule (1) statement_sound; auto)

lemma keep_rewrite: "keeps (cat_inv G) (rewrite_files P nm remove add)"
  unfolding rewrite_files_def
  by (rule keepsI, (rule action_rules)+, auto simp: statement_simps intro!: ensures_commit; erule (1) statement_sound; auto)

lemma keep_replace: "keeps (cat_inv G) (replace_table P nm sch bs key)"
  unfolding replace_table_def
  by (rule keepsI, (rule action_rules)+, auto simp: statement_simps intro!: ensures_commit; erule (1) statement_sound; auto)

lemma keep_put_view: "keeps (cat_inv G) (put_view nm v)"
  unfolding put_view_def
  by (rule keepsI, (rule action_rules)+) (auto simp: statement_simps intro!: ensures_commit intro: inv_sound)

lemma keep_remove_view: "keeps (cat_inv G) (remove_view nm)"
  unfolding remove_view_def
  by (rule keepsI, (rule action_rules)+) (auto simp: statement_simps intro!: ensures_commit intro: inv_sound)

lemma keep_replace_contents: "keeps (cat_inv G) (replace_contents P nm bs)"
  unfolding replace_contents_def
  by (rule keepsI, (rule action_rules)+, auto simp: statement_simps intro!: ensures_commit; erule (1) statement_sound; auto)

lemma sound_rename:
  assumes "sound_in f m" "m_tables m old = Some t"
  shows "sound_in f (put_table new (t\<lparr>table_version := v\<rparr>) (m\<lparr>m_tables := (m_tables m)(old := None)\<rparr>))"
  using table_id_less[OF assms] table_file_ok[OF assms] by (intro sound_put sound_drop assms(1)) auto

lemma keep_rename: "keeps (cat_inv G) (rename_table old new)"
  unfolding rename_table_def
  by (rule keepsI, (rule action_rules)+) (auto simp: statement_simps intro!: ensures_commit sound_rename intro: inv_sound)

lemma keep_compact: "keeps (cat_inv G) (compact P nm key)"
  unfolding compact_def Let_def
  apply (rule keepsI, (rule action_rules)+)
  apply (split if_split, intro conjI impI)
   apply (rule ensures_ok, simp add: statement_simps)
  apply (rule action_rules)+
   apply (rule ensures_commit)
   apply (auto simp: statement_simps; erule (1) statement_sound; auto)
  apply (rule ensures_ok)
  apply simp
  done

section \<open>Transactions and vacuum\<close>

lemma keep_begin: "keeps (cat_inv G) begin_txn"
  by (auto simp: keeps_def begin_txn_def bindA_def writable_def cat_inv_def published_def split: prod.splits sum.splits)

lemma rebase_inv:
  assumes "cat_inv G (c, d)" "txn_base c = Some b" "solo G"
  shows "cat_inv G (c\<lparr>manifest := b, txn_base := None\<rparr>, d)"
  using assms by (auto simp: cat_inv_def published_def current_ok_def)

lemma keep_rollback: "solo G \<Longrightarrow> keeps (cat_inv G) rollback_transaction"
  using rebase_inv by (fastforce simp: keeps_def rollback_transaction_def split: option.splits)

lemma keep_commit_transaction:
  assumes "solo G"
  shows "keeps (cat_inv G) commit_transaction"
proof -
  have "cat_inv G (snd (commit_transaction (c, d)))" if i: "cat_inv G (c, d)" for c d
  proof (cases "txn_base c")
    case None
    then show ?thesis using i by (simp add: commit_transaction_def)
  next
    case (Some b)
    note r = rebase_inv[OF i Some assms]
    show ?thesis
    proof (cases "manifest c = b")
      case True
      then have "c\<lparr>manifest := b, txn_base := None\<rparr> = c\<lparr>txn_base := None\<rparr>" by (cases c) simp
      then have "cat_inv G (c\<lparr>txn_base := None\<rparr>, d)" using r by (simp only:)
      then show ?thesis using Some True by (simp add: commit_transaction_def)
    next
      case False
      then show ?thesis using commit_inv[OF r, of "manifest c"] inv_sound[OF i] Some by (simp add: commit_transaction_def)
    qed
  qed
  then show ?thesis by (auto simp: keeps_def)
qed

lemma remove_all_files: "files (remove_all ps d) q = files d q \<or> q \<in> set ps \<and> files (remove_all ps d) q = None"
  by (induction ps d rule: remove_all.induct) (auto split: if_splits)

lemma snapshot_refs_mem:
  assumes "snapshot_refs c f vs = Ok refs" "v \<in> set vs"
  shows "\<exists>m. (if v = m_version (manifest c) then m = manifest c else read_manifest f v = Ok m) \<and> referenced m \<subseteq> refs"
  using assms
proof (induction c f vs arbitrary: refs rule: snapshot_refs.induct)
  case (2 c f w vs)
  from "2.prems"(1) obtain m r where m: "(if w = m_version (manifest c) then Ok (manifest c) else read_manifest f w) = Ok m"
      "snapshot_refs c f vs = Ok r" "refs = referenced m \<union> r"
    by (auto simp: bindR_Ok_iff)
  show ?case
  proof (cases "v = w")
    case True
    then show ?thesis using m by (intro exI[of _ m]) (auto split: if_splits)
  next
    case False
    then have "v \<in> set vs" using "2.prems"(2) by simp
    from "2.IH"[OF m(1) m(2) this] show ?thesis using m(3) by blast
  qed
qed simp

text \<open>The store a listing describes, and when removing files leaves the catalog whole.\<close>

definition listing :: "(Path \<rightharpoonup> ('b, 's) Content) \<Rightarrow> nat list \<Rightarrow> Path list \<Rightarrow> bool" where
  "listing f snaps data \<longleftrightarrow> (\<forall>v. v \<in> set snaps \<longleftrightarrow> f (PManifest v) \<noteq> None) \<and> (\<forall>p \<in> set data. \<exists>a b k. p = PData a b k)"

definition alone :: "('b, 's) Context" where
  "alone = \<lparr>solo = True, others = {}, pinned = 0, history = Map.empty\<rparr>"

lemma manifest_zero: "manifests_ok f \<Longrightarrow> f (PManifest 0) = None"
  by (cases "f (PManifest 0)") (auto simp: manifests_ok_def)

lemma alone_inv:
  "cat_inv alone (c, d) \<longleftrightarrow> manifests_ok (files d) \<and> sound_in (files d) (manifest c) \<and> current_ok (files d) (published c)"
  by (auto simp: cat_inv_def alone_def keeps_history_def manifest_zero)

lemma removal_inv:
  assumes i: "cat_inv alone (c, d)" "txn_base c = None"
    and other: "\<And>q. g q = files d q \<or> g q = None" "g PCurrent = files d PCurrent"
    and cur: "g (PManifest (m_version (manifest c))) = files d (PManifest (m_version (manifest c)))"
    and refs: "\<And>p m. m = manifest c \<or> (\<exists>v. g (PManifest v) = Some (Json m)) \<Longrightarrow> p \<in> referenced m \<Longrightarrow> g p = files d p"
    and d': "files d' = g"
  shows "cat_inv alone (c, d')"
proof -
  have inv: "manifests_ok (files d)" "current_ok (files d) (manifest c)" using i by (auto simp: alone_inv published_def)
  have sound: "sound_in g m" if "sound_in (files d) m" "m = manifest c \<or> (\<exists>v. g (PManifest v) = Some (Json m))" for m
    using that refs[OF that(2)] by (auto simp: sound_in_def refs_ok_def file_ok_def)
  have "manifests_ok g" unfolding manifests_ok_def
  proof (intro allI impI)
    fix v x assume x: "g (PManifest v) = Some x"
    then have "files d (PManifest v) = Some x" using other(1)[of "PManifest v"] by simp
    then obtain m where "x = Json m" "m_version m = v" "0 < v" "m_format m \<le> FORMAT_VERSION" "sound_in (files d) m"
      using inv(1) unfolding manifests_ok_def by blast
    then show "\<exists>m. x = Json m \<and> m_version m = v \<and> 0 < v \<and> m_format m \<le> FORMAT_VERSION \<and> sound_in g m"
      using sound x by blast
  qed
  moreover have "current_ok g (manifest c)" using inv(2) other(2) cur sound by (auto simp: current_ok_def)
  ultimately show ?thesis using i(2) d' by (simp add: alone_inv published_def current_ok_def)
qed

lemma read_manifest_Ok: "read_manifest f v = Ok m \<Longrightarrow> f (PManifest v) = Some (Json m)"
  by (auto simp: read_manifest_def split: option.splits Content.splits if_splits)

lemma kept_refs:
  assumes i: "cat_inv alone (c, d)" "txn_base c = None" and r: "snapshot_refs c (files d) vs = Ok refs"
    and vs: "\<And>v. files d (PManifest v) \<noteq> None \<Longrightarrow> v \<in> set vs"
    and m: "m = manifest c \<or> (\<exists>v. files d (PManifest v) = Some (Json m))"
  shows "referenced m \<subseteq> refs"
proof -
  have inv: "manifests_ok (files d)" "current_ok (files d) (manifest c)" using i by (auto simp: alone_inv published_def)
  have "referenced x \<subseteq> refs" if x: "files d (PManifest v) = Some (Json x)" for v x
  proof -
    from snapshot_refs_mem[OF r vs, of v] x obtain y where
      y: "if v = m_version (manifest c) then y = manifest c else read_manifest (files d) v = Ok y" "referenced y \<subseteq> refs" by auto
    have "y = x"
    proof (cases "v = m_version (manifest c)")
      case True
      then have "0 < m_version (manifest c)" using manifest_zero[OF inv(1)] x by (cases "m_version (manifest c)") auto
      then show ?thesis using y(1) True inv(2) x by (simp add: current_ok_def)
    next
      case False
      then show ?thesis using y(1) x read_manifest_Ok[of "files d" v y] by simp
    qed
    then show ?thesis using y(2) by simp
  qed
  moreover have "m_version (manifest c) = 0 \<Longrightarrow> referenced (manifest c) = {}"
    using inv(2) by (simp add: current_ok_def manifest_empty_def referenced_def)
  moreover have "m_version (manifest c) \<noteq> 0 \<Longrightarrow> files d (PManifest (m_version (manifest c))) = Some (Json (manifest c))"
    using inv(2) by (simp add: current_ok_def)
  ultimately show ?thesis using m by (cases "m_version (manifest c) = 0") auto
qed

lemma keep_vacuum:
  assumes i: "cat_inv alone (c, d)" and l: "listing (files d) snaps data"
  shows "cat_inv alone (snd (vacuum keep snaps data (c, d)))"
proof (cases "holds_lock c \<and> txn_base c = None")
  case False
  then show ?thesis using i by (auto simp: vacuum_def bindA_def writable_def)
next
  case True
  then have base: "txn_base c = None" by simp
  define old where "old = map PManifest (filter (\<lambda>v. v \<noteq> m_version (manifest c)) (take (length snaps - max keep 1) snaps))"
  define d1 where "d1 = remove_all old d"
  have f1: "files d1 q = files d q \<or> q \<in> set old \<and> files d1 q = None" for q
    unfolding d1_def by (rule remove_all_files)
  have data1: "files d1 (PData x y k) = files d (PData x y k)" for x y k
    using f1[of "PData x y k"] by (auto simp: old_def)
  have keep1: "files d1 PCurrent = files d PCurrent"
      "files d1 (PManifest (m_version (manifest c))) = files d (PManifest (m_version (manifest c)))"
    using f1[of PCurrent] f1[of "PManifest (m_version (manifest c))"] by (auto simp: old_def)
  have i1: "cat_inv alone (c, d1)"
  proof (rule removal_inv[OF i base _ keep1 _ refl])
    show "files d1 q = files d q \<or> files d1 q = None" for q using f1[of q] by auto
    show "files d1 p = files d p" if "m = manifest c \<or> (\<exists>v. files d1 (PManifest v) = Some (Json m))" "p \<in> referenced m" for p m
    proof -
      have "sound_in (files d) m" using that(1) i f1 unfolding alone_inv manifests_ok_def
        by (metis Content.inject(2) option.inject option.distinct(1))
      then show ?thesis using that(2) data1 by (fastforce simp: sound_in_def refs_ok_def file_ok_def)
    qed
  qed
  have vac: "vacuum keep snaps data (c, d) =
      (case snapshot_refs c (files d1) (filter (\<lambda>v. files d1 (PManifest v) \<noteq> None) snaps) of
         Inl e \<Rightarrow> (Err e, (c, d1)) | Inr refs \<Rightarrow> (Ok (), (c, remove_all (filter (\<lambda>p. p \<notin> refs) data) d1)))"
    unfolding d1_def old_def using True by (simp add: vacuum_def bindA_def writable_def Let_def del: One_nat_def)
  show ?thesis
  proof (cases "snapshot_refs c (files d1) (filter (\<lambda>v. files d1 (PManifest v) \<noteq> None) snaps)")
    case (Inl e)
    then show ?thesis using i1 unfolding vac by simp
  next
    case (Inr refs)
    let ?junk = "filter (\<lambda>p. p \<notin> refs) data"
    let ?d2 = "remove_all ?junk d1"
    note f2 = remove_all_files[of ?junk d1]
    have junk: "q \<in> set ?junk \<Longrightarrow> \<exists>a b k. q = PData a b k" for q using l by (auto simp: listing_def)
    have "cat_inv alone (c, ?d2)"
    proof (rule removal_inv[OF i1 base _ _ _ _ refl])
      show "files ?d2 q = files d1 q \<or> files ?d2 q = None" for q using f2[of q] by auto
      show "files ?d2 PCurrent = files d1 PCurrent" using f2[of PCurrent] junk by fastforce
      show "files ?d2 (PManifest (m_version (manifest c))) = files d1 (PManifest (m_version (manifest c)))"
        using f2[of "PManifest (m_version (manifest c))"] junk by fastforce
      show "files ?d2 p = files d1 p" if m: "m = manifest c \<or> (\<exists>v. files ?d2 (PManifest v) = Some (Json m))" "p \<in> referenced m" for p m
      proof -
        have "m = manifest c \<or> (\<exists>v. files d1 (PManifest v) = Some (Json m))" using m(1) f2 by (metis option.distinct(1))
        moreover have "v \<in> set (filter (\<lambda>v. files d1 (PManifest v) \<noteq> None) snaps)" if "files d1 (PManifest v) \<noteq> None" for v
          using that l f1[of "PManifest v"] by (auto simp: listing_def)
        ultimately have "referenced m \<subseteq> refs" using kept_refs[OF i1 base Inr] by blast
        then show ?thesis using f2[of p] m(2) by auto
      qed
    qed
    then show ?thesis using Inr unfolding vac by simp
  qed
qed

section \<open>Histories\<close>

datatype ('b, 's) Statement =
    CreateTable string Schema "'b list"
  | CreateExternal string string "Schema BoltResult"
  | Append string "'b list"
  | Truncate string
  | DropTable string
  | SetStatistics string 's
  | Compact string "string list option"
  | RewriteFiles string "Path list" "'b list"
  | ReplaceTable string Schema "'b list" "string list"
  | RenameTable string string
  | PutView string ViewMeta
  | RemoveView string
  | ReplaceContents string "'b list"

fun exec_statement :: "('b, 's) Parquet \<Rightarrow> ('b, 's) Statement \<Rightarrow> (unit, 'b, 's) act" where
  "exec_statement P (CreateTable nm sch bs) = create_table P nm sch bs"
| "exec_statement P (CreateExternal nm loc ext) = create_external_table nm loc ext"
| "exec_statement P (Append nm bs) = append_rows P nm bs"
| "exec_statement P (Truncate nm) = truncate_table nm"
| "exec_statement P (DropTable nm) = drop_table nm"
| "exec_statement P (SetStatistics nm s) = set_statistics nm s"
| "exec_statement P (Compact nm key) = bindA (compact P nm key) (\<lambda>_. okA ())"
| "exec_statement P (RewriteFiles nm remove add) = rewrite_files P nm remove add"
| "exec_statement P (ReplaceTable nm sch bs key) = replace_table P nm sch bs key"
| "exec_statement P (RenameTable old new) = rename_table old new"
| "exec_statement P (PutView nm v) = put_view nm v"
| "exec_statement P (RemoveView nm) = remove_view nm"
| "exec_statement P (ReplaceContents nm bs) = replace_contents P nm bs"

lemma snd_bind_ok: "snd (bindA A (\<lambda>_. okA ()) st) = snd (A st)"
  by (simp add: bindA_def okA_def split: prod.splits sum.splits)

lemmas keep_statement = keep_create keep_create_external keep_append keep_truncate keep_drop keep_statistics
  keep_compact keep_rewrite keep_replace keep_rename keep_put_view keep_remove_view keep_replace_contents

lemma keep_exec: "keeps (cat_inv G) (exec_statement P s)"
proof (cases s)
  case (Compact nm key)
  then show ?thesis using keep_compact[of G P nm key] by (simp add: keeps_def snd_bind_ok)
qed (simp_all add: keep_statement)

text \<open>What can happen to a catalog: statements and transactions, each with the disk failing after any
  number of file operations (\<open>disk\<close> sets that number), vacuum, and a crash followed by a new start.\<close>

inductive cat_step :: "('b, 's) Parquet \<Rightarrow> ('b, 's) CatState \<Rightarrow> ('b, 's) CatState \<Rightarrow> bool" for P where
  statement: "cat_step P st (snd (exec_statement P s st))"
| begin_step: "cat_step P st (snd (begin_txn st))"
| commit_step: "cat_step P st (snd (commit_transaction st))"
| rollback_step: "cat_step P st (snd (rollback_transaction st))"
| vacuum_step: "listing (files (snd st)) snaps data \<Longrightarrow> cat_step P st (snd (vacuum keep snaps data st))"
| disk: "cat_step P (c, d) (c, d\<lparr>ops_left := n\<rparr>)"
| crash: "open_catalog (d\<lparr>locked := False\<rparr>) = (Ok c', d') \<Longrightarrow> cat_step P (c, d) (c', d')"

inductive cat_reachable :: "('b, 's) Parquet \<Rightarrow> ('b, 's) CatState \<Rightarrow> ('b, 's) CatState \<Rightarrow> bool" for P st0 where
  here: "cat_reachable P st0 st0"
| step: "cat_reachable P st0 st \<Longrightarrow> cat_step P st st' \<Longrightarrow> cat_reachable P st0 st'"

definition new_catalog :: "nat \<Rightarrow> ('b, 's) CatState" where
  "new_catalog n = (\<lparr>manifest = manifest_empty, holds_lock = True, txn_base = None\<rparr>,
    \<lparr>files = Map.empty, locked = True, ops_left = n\<rparr>)"

lemma empty_facts [simp]: "m_version manifest_empty = 0" "m_format manifest_empty \<le> FORMAT_VERSION"
  by (simp_all add: manifest_empty_def FORMAT_VERSION_def)

lemma new_catalog_inv: "cat_inv alone (new_catalog n)"
  by (simp add: new_catalog_def alone_inv manifests_ok_def published_def current_ok_def)

lemma open_current:
  assumes "current_ok f cur" "open_files f = Ok m"
  shows "m = cur"
  using assms by (auto simp: current_ok_def open_files_def read_current_def read_manifest_def parse_current_text split: if_splits)

lemma current_opens:
  assumes "current_ok f m" "m_version m < 2 ^ 64"
  shows "open_files f = Ok m"
  using assms by (auto simp: current_ok_def open_files_def read_current_def read_manifest_def parse_current_text split: if_splits)

lemma cat_step_inv: "cat_step P st st' \<Longrightarrow> cat_inv alone st \<Longrightarrow> cat_inv alone st'"
proof (induction rule: cat_step.induct)
  case (statement st s)
  then show ?case by (rule keepsD[OF keep_exec])
next
  case (begin_step st)
  then show ?case by (rule keepsD[OF keep_begin])
next
  case (commit_step st)
  then show ?case using keepsD[OF keep_commit_transaction, of alone] by (simp add: alone_def)
next
  case (rollback_step st)
  then show ?case using keepsD[OF keep_rollback, of alone] by (simp add: alone_def)
next
  case (vacuum_step st snaps data keep)
  then show ?case using keep_vacuum by (cases st) auto
next
  case (disk c d n)
  then show ?case by (simp add: alone_inv)
next
  case (crash d c' d' c)
  then obtain m where m: "open_files (files d) = Ok m" "c' = \<lparr>manifest = m, holds_lock = True, txn_base = None\<rparr>" "files d' = files d"
    by (auto simp: open_catalog_def split: sum.splits)
  have "m = published c" using open_current[OF _ m(1)] crash.prems by (simp add: alone_inv)
  then show ?case using crash.prems m by (simp add: alone_inv published_def current_ok_def)
qed

lemma reachable_inv: "cat_reachable P (new_catalog n) st \<Longrightarrow> cat_inv alone st"
  by (induction rule: cat_reachable.induct) (auto intro: new_catalog_inv cat_step_inv)

section \<open>A failed statement changes nothing\<close>

definition same_manifest :: "'s Manifest \<Rightarrow> ('b, 's) CatState \<Rightarrow> bool" where
  "same_manifest m st \<longleftrightarrow> manifest (fst st) = m"

lemma failed_write:
  fixes P :: "('b, 's) Parquet"
  shows "ensures (same_manifest m) (holds (same_manifest m) F) (write_files P tid v bs) (\<lambda>_. holds (same_manifest m) F)"
  unfolding ensures_def
proof (intro allI impI)
  fix st :: "('b, 's) CatState" assume h: "holds (same_manifest m) F st"
  obtain c d where cd: "st = (c, d)" by (cases st) auto
  obtain r st' where r: "write_files P tid v bs (c, d) = (r, st')" by (cases "write_files P tid v bs (c, d)") auto
  have "fst st' = c" using write_files_cases[OF r] by auto
  then show "case write_files P tid v bs st of (Inl _, st') \<Rightarrow> same_manifest m st' | (Inr x, st') \<Rightarrow> holds (same_manifest m) F st'"
    using h r cd by (auto simp: holds_def same_manifest_def split: sum.splits)
qed

lemma failed_commit: "ensures (same_manifest m) (holds (same_manifest m) F) (commit nxt) (\<lambda>_ _. True)"
  by (auto simp: ensures_def commit_def holds_def same_manifest_def Let_def split: option.splits prod.splits sum.splits)

lemmas failure_rules = ensures_bind ensures_writable ensures_require ensures_get ensures_guard ensures_managed
  ensures_free failed_write ensures_pure failed_commit

lemmas statement_defs = create_table_def create_external_table_def append_rows_def truncate_table_def drop_table_def
  set_statistics_def rewrite_files_def replace_table_def rename_table_def put_view_def remove_view_def
  replace_contents_def

lemma ensures_done: "ensures I pre (okA x) (\<lambda>_ _. True)"
  by (simp add: ensures_ok)

lemma ensures_if: "(b \<Longrightarrow> ensures I pre A post) \<Longrightarrow> (\<not> b \<Longrightarrow> ensures I pre B post) \<Longrightarrow> ensures I pre (if b then A else B) post"
  by simp

lemma failed_exec: "ensures (same_manifest m) (holds (same_manifest m) (\<lambda>_. True)) (exec_statement P s) (\<lambda>_ _. True)"
  by (cases s; simp only: exec_statement.simps statement_defs compact_def Let_def;
      (rule failure_rules ensures_done ensures_if)+)


section \<open>Reading snapshots\<close>

definition snapshot_rows :: "(Path \<rightharpoonup> ('b, 's) Content) \<Rightarrow> nat \<Rightarrow> string \<Rightarrow> 'b list BoltResult" where
  "snapshot_rows f v nm =
    bindR (if v = 0 then Ok manifest_empty else read_manifest f v) (\<lambda>m.
    bindR (okOrR (m_tables m nm) PlanErr) (read_table f))"

lemma read_data_ok: "file_ok f (file_path df) \<Longrightarrow> \<exists>bs. read_data f df = Ok bs"
  by (auto simp: read_data_def file_ok_def)

lemma mapR_total: "(\<And>x. x \<in> set xs \<Longrightarrow> \<exists>y. f x = Ok y) \<Longrightarrow> \<exists>ys. mapR f xs = Ok ys"
  by (induction xs) (force simp: bindR_Ok_iff)+

lemma read_table_ok: "(\<And>df. df \<in> set (data_files t) \<Longrightarrow> file_ok f (file_path df)) \<Longrightarrow> \<exists>bs. read_table f t = Ok bs"
  using mapR_total[of "data_files t" "read_data f"] read_data_ok by (force simp: read_table_def)

lemma read_table_cong:
  assumes "\<And>df. df \<in> set (data_files t) \<Longrightarrow> g (file_path df) = f (file_path df)"
  shows "read_table g t = read_table f t"
proof -
  have "mapR (read_data g) (data_files t) = mapR (read_data f) (data_files t)"
    by (rule mapR_cong) (auto simp: read_data_def assms)
  then show ?thesis by (simp add: read_table_def)
qed


text \<open>C29: a statement is atomic under faults and crashes.  In every reachable
  catalog, whichever file operation of the statement fails, a process that opens the directory next sees
  exactly the manifest the catalog holds as published (inside a transaction, the one it began with), and
  a statement that reports an error leaves the manifest as it was.\<close>

theorem statement_crash_atomic:
  assumes "cat_reachable P (new_catalog n) (c, d)" "exec_statement P s (c, d) = (r, (c', d'))"
    and "m_version (published c') < 2 ^ 64"
  shows "open_files (files d') = Ok (published c') \<and> (isl r \<longrightarrow> manifest c' = manifest c)"
proof
  have "cat_inv alone (c', d')" using keepsD[OF keep_exec reachable_inv[OF assms(1)], of P s] assms(2) by simp
  then show "open_files (files d') = Ok (published c')" using current_opens[OF _ assms(3)] unfolding alone_inv by blast
  show "isl r \<longrightarrow> manifest c' = manifest c"
    using ensuresD[OF failed_exec, of "manifest c" "(c, d)" P s] assms(2)
    by (auto simp: holds_def same_manifest_def isl_def)
qed


text \<open>C30: time travel is stable.  A statement, whether it succeeds or fails half-way, changes
  no published snapshot: reading a table at any version up to the current one gives the same rows, or
  the same error, before and after.\<close>

theorem snapshots_immutable:
  assumes "cat_reachable P (new_catalog n) (c, d)" "v \<le> m_version (published c)" "snd (exec_statement P s (c, d)) = (c', d')"
  shows "snapshot_rows (files d') v nm = snapshot_rows (files d) v nm"
proof -
  let ?G = "alone\<lparr>pinned := m_version (published c), history := files d\<rparr>"
  have i: "cat_inv alone (c, d)" using reachable_inv[OF assms(1)] .
  then have "cat_inv ?G (c, d)" by (auto simp: cat_inv_def keeps_history_def alone_def)
  from keepsD[OF keep_exec this, of P s] assms(3) have h: "keeps_history ?G (files d')" by (simp add: cat_inv_def)
  have m: "files d' (PManifest v) = files d (PManifest v)" using h assms(2) by (simp add: keeps_history_def)
  show ?thesis
  proof (cases "v = 0 \<or> isl (read_manifest (files d) v)")
    case True
    then show ?thesis using m by (cases "read_manifest (files d) v") (auto simp: snapshot_rows_def read_manifest_def manifest_empty_def okOrR_def)
  next
    case False
    then obtain x where x: "read_manifest (files d) v = Ok x" by (cases "read_manifest (files d) v") auto
    have "sound_in (files d) x"
      using read_manifest_Ok[OF x] i unfolding alone_inv manifests_ok_def by (metis Content.inject(2))
    then have "files d' p = files d p" if "p \<in> referenced x" for p
      using that h by (fastforce simp: sound_in_def refs_ok_def file_ok_def keeps_history_def)
    then have "read_table (files d') t = read_table (files d) t" if "m_tables x nm = Some t" for t
      using that by (intro read_table_cong) (auto simp: referenced_def ran_def)
    moreover have "read_manifest (files d') v = Ok x" using x m by (simp add: read_manifest_def)
    ultimately show ?thesis using x False by (cases "m_tables x nm") (simp_all add: snapshot_rows_def okOrR_def)
  qed
qed


text \<open>Appending, end to end.\<close>

lemma write_files_reads:
  assumes "write_files P tid v bs (c, d) = (Inr fs, (c', d'))"
  shows "c' = c" "\<And>p. files d p \<noteq> None \<Longrightarrow> files d' p = files d p"
    "\<exists>bss. mapR (read_data (files d')) fs = Ok bss \<and> concat bss = filter (\<lambda>b. num_rows P b > 0) bs"
    "\<And>df. df \<in> set fs \<Longrightarrow> \<exists>a b k. file_path df = PData a b k"
proof -
  define u where "u = first_unused (\<lambda>k. files d (PData tid v k) \<noteq> None) 0 (2 ^ 32)"
  note w = assms[unfolded write_files_def Let_def prod.case u_def[symmetric]]
  have "c' = c \<and> (\<forall>p. files d p \<noteq> None \<longrightarrow> files d' p = files d p) \<and>
    (\<exists>bss. mapR (read_data (files d')) fs = Ok bss \<and> concat bss = filter (\<lambda>b. num_rows P b > 0) bs)
    \<and> (\<forall>df \<in> set fs. \<exists>a b k. file_path df = PData a b k)"
  proof (cases u)
    case None
    then show ?thesis using w by (auto split: if_splits)
  next
    case (Some k)
    then have "files d (PData tid v k) = None" using first_unused_free[of "\<lambda>k. files d (PData tid v k) \<noteq> None" 0 "2 ^ 32" k]
      by (simp only: u_def simp_thms not_not)
    then show ?thesis using w Some by (auto simp: read_data_def split: if_splits)
  qed
  then show "c' = c" "\<And>p. files d p \<noteq> None \<Longrightarrow> files d' p = files d p"
    "\<exists>bss. mapR (read_data (files d')) fs = Ok bss \<and> concat bss = filter (\<lambda>b. num_rows P b > 0) bs"
    "\<And>df. df \<in> set fs \<Longrightarrow> \<exists>a b k. file_path df = PData a b k" by blast+
qed

lemma commit_reads:
  assumes "commit nxt (c, d) = (Inr u, (c', d'))"
  shows "m_tables (manifest c') = m_tables nxt" "files d' (PData a b k) = files d (PData a b k)"
proof -
  have "m_tables (manifest c') = m_tables nxt \<and> files d' (PData a b k) = files d (PData a b k)"
  proof (cases "txn_base c")
    case None
    let ?m = "nxt\<lparr>m_format := FORMAT_VERSION, m_version := m_version (manifest c) + 1\<rparr>"
    obtain r e where re: "run_ops (publish ?m) d = (r, e)" by fastforce
    then show ?thesis using assms None publish_cases[OF re] by (auto simp: commit_def Let_def same_except_def split: sum.splits)
  qed (use assms in \<open>auto simp: commit_def\<close>)
  then show "m_tables (manifest c') = m_tables nxt" "files d' (PData a b k) = files d (PData a b k)" by auto
qed

lemma append_run:
  assumes "append_rows P nm bs (c, d) = (Ok (), (c', d'))" "m_tables (manifest c) nm = Some t"
  obtains fs d1 where "write_files P (table_id t) (m_version (manifest c) + 1) bs (c, d) = (Inr fs, (c, d1))"
    "if fs = [] then (c', d') = (c, d1) else
      commit (put_table nm (t\<lparr>data_files := data_files t @ fs, table_version := table_version t + 1, analyzed := None\<rparr>) (manifest c))
        (c, d1) = (Inr (), (c', d'))"
proof -
  note defs = append_rows_def bindA_def writable_def require_def managed_def guardA_def errA_def okA_def okOrR_def getA_def
  have lk: "holds_lock c" "table_kind t = Managed" using assms by (auto simp: defs split: if_splits)
  obtain r st where w: "write_files P (table_id t) (m_version (manifest c) + 1) bs (c, d) = (r, st)"
    by (cases "write_files P (table_id t) (m_version (manifest c) + 1) bs (c, d)") auto
  obtain fs c1 d1 where fs: "r = Inr fs" "st = (c1, d1)"
    using assms w lk by (cases r; cases st) (auto simp: defs)
  have "c1 = c" using write_files_reads(1)[OF w[unfolded fs]] .
  then show thesis using that w fs assms lk by (fastforce simp: defs split: if_splits)
qed


text \<open>C35: the type names stored in a manifest read back: for every type the catalog
  stores (decimals whose precision and scale fit their machine types, timestamps of any unit with or
  without a zone, and the plain types) parsing the text gives the type.\<close>

theorem dtype_text_roundtrip: "storable_type t \<Longrightarrow> dtype_from_text (dtype_to_text t) = Ok t"
  by (rule dtype_text)


section \<open>Concurrent transactions\<close>

definition merged :: "(string \<rightharpoonup> 'v) \<Rightarrow> (string \<rightharpoonup> 'v) \<Rightarrow> (string \<rightharpoonup> 'v) \<Rightarrow> string \<rightharpoonup> 'v" where
  "merged base work committed nm = (if base nm \<noteq> work nm then work nm else committed nm)"

lemma merge_fold:
  "foldR (\<lambda>nxt nm. if base nm = work nm then Ok nxt else if committed nm \<noteq> base nm then Err PlanErr else Ok (nxt(nm := work nm))) acc names
   = (if \<exists>nm \<in> set names. merge_conflict base work committed nm then Err PlanErr
      else Ok (\<lambda>nm. if nm \<in> set names \<and> base nm \<noteq> work nm then work nm else acc nm))"
proof (induction names arbitrary: acc)
  case (Cons n names)
  show ?case
  proof (cases "base n = work n \<or> committed n \<noteq> base n")
    case True
    then show ?thesis using Cons by (auto simp: merge_conflict_def fun_eq_iff)
  next
    case False
    then show ?thesis using Cons by (auto simp: merge_conflict_def fun_eq_iff)
  qed
qed simp

lemma merge_entries_spec:
  assumes "dom base \<union> dom work \<subseteq> set names"
  shows "merge_entries base work committed names =
    (if \<exists>nm. merge_conflict base work committed nm then Err PlanErr else Ok (merged base work committed))"
proof -
  have "nm \<in> set names" if "base nm \<noteq> work nm" for nm using that assms by (cases "base nm"; cases "work nm") auto
  then show ?thesis unfolding merge_entries_def merge_fold merge_conflict_def merged_def by (auto simp: fun_eq_iff)
qed


section \<open>Examples\<close>

text \<open>One table created in a new catalog, and a disk that fails a few operations later.\<close>

definition demo_parquet :: "(nat list, unit) Parquet" where
  "demo_parquet = \<lparr>num_rows = length, size_of = (\<lambda>bs. length (concat bs)), stats_of = (\<lambda>_. ()), cluster = (\<lambda>_ bs. Ok bs)\<rparr>"

definition demo_create :: "(nat list, unit) Statement" where
  "demo_create = CreateTable ''t'' [Field_new ''a'' Int32 False] [[1, 2], []]"

definition demo_table :: "unit TableMeta" where
  "demo_table = \<lparr>table_id = 1, table_kind = Managed, columns = columns_meta [Field_new ''a'' Int32 False],
    data_files = [\<lparr>file_path = PData 1 1 0, file_rows = 2, file_bytes = 2, file_stats = ()\<rparr>],
    table_version = 1, analyzed = None, cluster_by = []\<rparr>"

definition demo_manifest :: "unit Manifest" where
  "demo_manifest = \<lparr>m_format = FORMAT_VERSION, m_version = 1, next_table_id = 2, m_tables = [''t'' \<mapsto> demo_table], m_views = Map.empty\<rparr>"

definition demo_catalog :: "unit Catalog" where
  "demo_catalog = \<lparr>manifest = demo_manifest, holds_lock = True, txn_base = None\<rparr>"

definition demo_disk :: "nat \<Rightarrow> (nat list, unit) Disk" where
  "demo_disk n = \<lparr>files = [PData 1 1 0 \<mapsto> Batches [[1, 2]], PManifest 1 \<mapsto> Json demo_manifest, PCurrent \<mapsto> Text (current_text 1)],
    locked = True, ops_left = n\<rparr>"

lemma first_unused_start: "\<not> used k \<Longrightarrow> n \<noteq> 0 \<Longrightarrow> first_unused used k n = Some k"
  by (subst first_unused.simps) simp

lemma demo_created: "exec_statement demo_parquet demo_create (new_catalog 100) = (Ok (), (demo_catalog, demo_disk 91))"
  by (simp add: demo_create_def demo_parquet_def create_table_def bindA_def writable_def name_free_def getA_def write_files_def
      new_catalog_def first_unused_start commit_def Let_def publish_def write_atomic_def manifest_empty_def put_table_def
      demo_catalog_def demo_disk_def demo_manifest_def demo_table_def numeral_2_eq_2)

lemma demo_reachable: "cat_reachable demo_parquet (new_catalog 100) (demo_catalog, demo_disk n)"
proof -
  have "cat_reachable demo_parquet (new_catalog 100) (demo_catalog, demo_disk 91)"
    using cat_reachable.step[OF here statement, of demo_parquet "new_catalog 100" demo_create] demo_created by simp
  from cat_reachable.step[OF this disk[of _ _ _ n]] show ?thesis by (simp add: demo_disk_def)
qed

lemma demo_opens: "open_files (files (demo_disk n)) = Ok demo_manifest"
  by (rule open_published) (simp_all add: demo_disk_def demo_manifest_def FORMAT_VERSION_def)


theorem statement_crash_atomic_witness:
  "open_files (files (snd (snd (exec_statement demo_parquet (Append ''t'' [[3]]) (demo_catalog, demo_disk 4))))) = Ok demo_manifest
   \<and> isl (fst (exec_statement demo_parquet (Append ''t'' [[3]]) (demo_catalog, demo_disk 4)))"
proof -
  let ?r = "exec_statement demo_parquet (Append ''t'' [[3]]) (demo_catalog, demo_disk 4)"
  have r: "?r = (fst ?r, (fst (snd ?r), snd (snd ?r)))" by simp
  have e: "isl (fst ?r)" "fst (snd ?r) = demo_catalog"
    by (simp_all add: append_rows_def bindA_def writable_def require_def managed_def guardA_def okA_def okOrR_def getA_def
        write_files_def demo_parquet_def first_unused_start demo_catalog_def demo_disk_def demo_manifest_def demo_table_def
        commit_def publish_def write_atomic_def Let_def)
  show ?thesis using statement_crash_atomic[OF demo_reachable r] e
    by (simp add: published_def demo_catalog_def demo_manifest_def)
qed


theorem snapshots_immutable_witness:
  "snapshot_rows (files (snd (snd (exec_statement demo_parquet (DropTable ''t'') (demo_catalog, demo_disk 20))))) 1 ''t'' = Ok [[1, 2]]"
proof -
  let ?r = "snd (exec_statement demo_parquet (DropTable ''t'') (demo_catalog, demo_disk 20))"
  have "?r = (fst ?r, snd ?r)" by simp
  moreover have "snapshot_rows (files (demo_disk 20)) 1 ''t'' = Ok [[1, 2]]"
    by (simp add: snapshot_rows_def read_manifest_def demo_disk_def demo_manifest_def demo_table_def FORMAT_VERSION_def okOrR_def
        read_table_def read_data_def)
  moreover have "1 \<le> m_version (published demo_catalog)" by (simp add: published_def demo_catalog_def demo_manifest_def)
  ultimately show ?thesis using snapshots_immutable[OF demo_reachable, of 1] by metis
qed


theorem dtype_text_roundtrip_witness:
  "dtype_from_text (dtype_to_text (Timestamp Microsecond (Some ''UTC''))) = Ok (Timestamp Microsecond (Some ''UTC''))
   \<and> dtype_from_text (dtype_to_text (Decimal128 38 (- 4))) = Ok (Decimal128 38 (- 4))"
  by (intro conjI; rule dtype_text_roundtrip; simp)


end
