(* ===== verification/Spec2Isabelle.thy ===== *)
theory Spec2Isabelle
  imports Host_Soundness Const_Fold Kernel_Outputs Memory_Governor Catalog_Safety
begin

text \<open>
  Craton Bolt is a SQL engine that compiles queries to GPU kernels and falls back to the host.  A query
  is parsed into a logical plan (\<^verbatim>\<open>src/plan/logical_plan.rs\<close>), type checked, rewritten by the optimizer
  (\<^verbatim>\<open>src/plan/optimizer\<close>), lowered to physical operators and kernels (\<^verbatim>\<open>src/plan/physical_plan.rs\<close>) and run
  by the executor (\<^verbatim>\<open>src/exec\<close>) over tables that a catalog keeps on disk (\<^verbatim>\<open>src/storage\<close>), under memory
  budgets.  The development models the parts below as executable functions over explicit state and proves
  what each part promises to the next.

  \<^bold>\<open>Conventions.\<close>  A Rust \<^verbatim>\<open>BoltResult<T>\<close> is a sum with \<open>Ok\<close> and \<open>Err\<close>; error messages are dropped, error
  kinds kept.  Machine integers are words where wrap-around matters; floats are IEEE bit patterns (\<open>Floats\<close>)
  with arithmetic as a parameter.  Strings are lists of 8-bit characters.  A data frame column is a list of
  optional cells, \<open>None\<close> being NULL.

  \<^bold>\<open>Theories and sources.\<close>
  \<^item> \<open>Prelude\<close>: results, traversals, decimal numerals (\<^verbatim>\<open>src/error.rs\<close>).
  \<^item> \<open>Logical_Plan\<close>, \<open>Typing\<close>: types, expressions, plans, \<^verbatim>\<open>Expr::dtype\<close> and \<^verbatim>\<open>LogicalPlan::schema\<close> with their
    recursion-depth guard (\<^verbatim>\<open>src/plan/logical_plan.rs\<close>).  Join schemas have distinct names, the renaming loop
    ends, the depth guard only ever rejects more; it does not bound chains of binary operators.
  \<^item> \<open>Like_Match\<close>: LIKE patterns (\<^verbatim>\<open>src/exec/like.rs\<close>).  The specialised matchers decide the declarative meaning
    of the pattern.
  \<^item> \<open>Strings\<close>, \<open>Dates\<close>: string functions and dictionary columns (\<^verbatim>\<open>src/exec/string_ops_extended.rs\<close>), the
    calendar and FORMAT patterns (\<^verbatim>\<open>src/exec/expr_agg.rs\<close>), with their round trips and bounds.
  \<^item> \<open>Host_Values\<close>, \<open>Host_Eval\<close>, \<open>Row_Eval\<close>, \<open>Host_Soundness\<close>: the columnar host evaluator
    (\<^verbatim>\<open>src/exec/expr_agg.rs\<close>) refines a row-at-a-time semantics, and does not fail on well-typed expressions of
    the supported fragment.
  \<^item> \<open>Const_Fold\<close>: the folding pass (\<^verbatim>\<open>src/plan/optimizer/const_fold.rs\<close>) keeps the value of every expression.
  \<^item> \<open>Null_Semantics\<close>, \<open>Null_Soundness\<close>, \<open>Kernel_Outputs\<close>: kernels compute with values only, so the planner
    rewrites predicates and outputs over nullable columns (\<^verbatim>\<open>src/plan/null_semantics.rs\<close>, its use in
    \<^verbatim>\<open>build_kernel\<close>) and the executor applies hidden validity columns (\<^verbatim>\<open>src/exec/engine_support.rs\<close>).  The
    pipeline computes SQL's three-valued result whatever the NULL cells hold.
  \<^item> \<open>Memory_Governor\<close>: reservations and spilling (\<^verbatim>\<open>src/exec/memory.rs\<close>), with threads interleaved at the atomic
    operations: exact accounting, the budget for one thread, the two ways past it, progress by spilling.
  \<^item> \<open>Catalog\<close>, \<open>Catalog_Safety\<close>: the catalog (\<^verbatim>\<open>src/storage/catalog.rs\<close>) over a file store that may fail at any
    operation.  Statements are atomic under faults and crashes, published snapshots never change and stay
    readable, concurrent commits merge or conflict.  The locale \<open>snapshot_store\<close> is the interface between
    commit and its readers, interpreted on the file operations of commit.

  \<^bold>\<open>Bounds and fuel.\<close>  Recursion follows the data everywhere except in the matcher of LIKE, the validity
  rewrites and the renaming loop, which have measures; \<open>first_unused\<close> bounds the search for a file name by the
  32-bit counter of the code, and \<open>ops_left\<close> is not fuel but the number of file operations until the disk
  fails, universally quantified in the theorems.

  \<^bold>\<open>Not modelled.\<close>  The SQL parser and the lowering to physical plans, because their output is consumed by
  generated PTX; kernel generation, the CUDA driver and the memory pool, whose semantics is the GPU's; the
  GPU joins, sorts and aggregations; Parquet and Arrow, which are libraries and appear as parameters; floating
  point arithmetic beyond comparison and conversion, a parameter as well; the Python bindings and metrics.
\<close>

end
